theory Spec2Isabelle
  imports Complex_Main "HOL-Library.Product_Lexorder"
begin

section \<open>Conventions of the embedding\<close>

text \<open>
  The Python sources compute with IEEE doubles. Throughout, a Python \<open>float\<close> is
  modelled as a \<^typ>\<open>real\<close>: rounding, infinities and NaN are outside the model.
  Exceptions are values: a function that may raise returns \<open>py_error + 'a\<close>.

  Two float operations of Python raise \<open>OverflowError\<close> when their result leaves the
  range of the doubles: the power \<open>a ** 2\<close> of a finite float, and the conversion of an
  \<open>int\<close> to a \<open>float\<close> that \<open>float * int\<close> performs. They are modelled with that
  error in \<open>_distance_between_parallel_lines\<close> and in \<open>convert_to_meters\<close>, the two
  functions for which the specification says what is raised. Sums, differences and
  products of floats never raise: beyond the range they yield an infinity, for which the
  real number stands in. Everywhere else in this theory the coordinates are taken to be
  of a size whose sums, products and squares stay finite.
\<close>

datatype py_error = ZeroDivisionError | OverflowError | ValueError

text \<open>
  A real number rounds to an infinity, under round-to-nearest-even, from
  \<open>2^1024 - 2^970\<close> on, the midpoint between the largest double and \<open>2^1024\<close>.
\<close>

definition float_overflows :: "real \<Rightarrow> bool" where
  "float_overflows r = ((2 - 1 / 2 ^ 53) * 2 ^ 1023 \<le> \<bar>r\<bar>)"

text \<open>
  \<open>a ** 2\<close>: \<open>OverflowError\<close> when \<open>a\<close> is finite and its square leaves the range. A
  difference of coordinates that has itself left the range is an infinity in Python, whose
  square is an infinity again and raises nothing; the real number stands in for it.
\<close>

definition py_pow2 :: "real \<Rightarrow> py_error + real" where
  "py_pow2 a =
     (if \<not> float_overflows a \<and> float_overflows (a ^ 2) then Inl OverflowError
      else Inr (a ^ 2))"

text \<open>
  The conversion of an \<open>int\<close> operand in \<open>float * int\<close>: \<open>OverflowError\<close> ("int too
  large to convert to float") when the integer rounds to an infinity.
\<close>

definition py_float_of_int :: "nat \<Rightarrow> py_error + real" where
  "py_float_of_int n = (if float_overflows (real n) then Inl OverflowError else Inr (real n))"

text \<open>Python's true division \<open>a / b\<close> on floats: raises when the divisor is zero.\<close>

definition py_truediv :: "real \<Rightarrow> real \<Rightarrow> py_error + real" where
  "py_truediv a b = (if b = 0 then Inl ZeroDivisionError else Inr (a / b))"

text \<open>Python's \<open>a % m\<close> on floats, for a positive modulus: the result has the sign of \<open>m\<close>.\<close>

definition py_fmod :: "real \<Rightarrow> real \<Rightarrow> real" where
  "py_fmod a m = a - m * of_int \<lfloor>a / m\<rfloor>"

section \<open>Geometry primitives (plankopf\_parser.py, material\_pattern\_detector.py)\<close>

datatype PatternType = HATCHING | CROSSHATCH | SOLID_FILL | DOT_PATTERN | STIPPLE | NONE

text \<open>
  A colour is the tuple PyMuPDF hands over (one, three or four components), or \<open>None\<close>.
\<close>

type_synonym color = "real list option"

record PatternInfo =
  pattern_type :: PatternType
  stroke_color :: color
  fill_color :: color
  hatching_angle :: "real option"
  hatching_spacing :: "real option"
  line_count :: nat
  secondary_angle :: "real option"

definition color_distance :: "color \<Rightarrow> color \<Rightarrow> real" where
  "color_distance c1 c2 =
     (case (c1, c2) of
        (Some a, Some b) \<Rightarrow>
          if length a < 3 \<or> length b < 3 then 0.5
          else (let dr = a ! 0 - b ! 0;
                    dg = a ! 1 - b ! 1;
                    db = a ! 2 - b ! 2
                in sqrt (dr * dr + dg * dg + db * db))
      | _ \<Rightarrow> if c1 = c2 then 0 else 1)"

definition angle_distance :: "real option \<Rightarrow> real option \<Rightarrow> real" where
  "angle_distance a1 a2 =
     (case (a1, a2) of
        (Some u, Some v) \<Rightarrow>
          (let u' = py_fmod u 180;
               v' = py_fmod v 180;
               diff = \<bar>u' - v'\<bar>
           in min diff (180 - diff))
      | _ \<Rightarrow> 45)"

text \<open>Truthiness of an \<open>Optional[float]\<close>: \<open>None\<close> and \<open>0.0\<close> are false.\<close>

definition truthy_float :: "real option \<Rightarrow> bool" where
  "truthy_float v = (case v of None \<Rightarrow> False | Some r \<Rightarrow> r \<noteq> 0)"

subsection \<open>patterns\_match\<close>

text \<open>
  The body of \<open>patterns_match\<close> is a sequence of checks on a running confidence; a check
  either returns from the function (\<open>Inl\<close>, the returned pair) or hands the confidence to
  the next check (\<open>Inr\<close>).
\<close>

definition check_type :: "PatternInfo \<Rightarrow> PatternInfo \<Rightarrow> (bool \<times> real) + real" where
  "check_type pattern1 pattern2 =
     (if pattern_type pattern1 \<noteq> pattern_type pattern2
      then (if \<not> ({pattern_type pattern1, pattern_type pattern2} \<subseteq> {SOLID_FILL, HATCHING})
            then Inl (False, 0) else Inr 1)
      else Inr 1)"

definition check_stroke :: "PatternInfo \<Rightarrow> PatternInfo \<Rightarrow> real \<Rightarrow> real \<Rightarrow> (bool \<times> real) + real" where
  "check_stroke pattern1 pattern2 color_tolerance confidence =
     (let stroke_dist = color_distance (stroke_color pattern1) (stroke_color pattern2)
      in if stroke_dist > color_tolerance
         then (if stroke_dist > color_tolerance * 2 then Inl (False, 0)
               else Inr (confidence * 0.5))
         else Inr confidence)"

definition check_fill :: "PatternInfo \<Rightarrow> PatternInfo \<Rightarrow> real \<Rightarrow> real \<Rightarrow> (bool \<times> real) + real" where
  "check_fill pattern1 pattern2 color_tolerance confidence =
     (let fill_dist = color_distance (fill_color pattern1) (fill_color pattern2)
      in if fill_dist > color_tolerance then Inr (confidence * 0.7) else Inr confidence)"

definition check_angle :: "PatternInfo \<Rightarrow> PatternInfo \<Rightarrow> real \<Rightarrow> real \<Rightarrow> (bool \<times> real) + real" where
  "check_angle pattern1 pattern2 angle_tolerance confidence =
     (if pattern_type pattern1 = HATCHING \<or> pattern_type pattern1 = CROSSHATCH
      then (let angle_dist = angle_distance (hatching_angle pattern1) (hatching_angle pattern2)
            in if angle_dist > angle_tolerance
               then (if angle_dist > angle_tolerance * 2 then Inl (False, 0)
                     else Inr (confidence * 0.5))
               else Inr confidence)
      else Inr confidence)"

text \<open>
  Both spacings are non-zero where the quotient is taken, so its divisor, the larger of
  the two, is non-zero (lemma \<open>spacing_divisor_nonzero\<close> below) and the division cannot
  raise.
\<close>

definition check_spacing :: "PatternInfo \<Rightarrow> PatternInfo \<Rightarrow> real \<Rightarrow> real \<Rightarrow> (bool \<times> real) + real" where
  "check_spacing pattern1 pattern2 spacing_tolerance confidence =
     (if truthy_float (hatching_spacing pattern1) \<and> truthy_float (hatching_spacing pattern2)
      then (let s1 = the (hatching_spacing pattern1);
                s2 = the (hatching_spacing pattern2);
                spacing_diff = \<bar>s1 - s2\<bar>;
                spacing_ratio = spacing_diff / max s1 s2
            in if spacing_ratio > spacing_tolerance then Inr (confidence * 0.7)
               else Inr confidence)
      else Inr confidence)"

definition and_then :: "('r + real) \<Rightarrow> (real \<Rightarrow> 'r + real) \<Rightarrow> 'r + real" where
  "and_then step k = (case step of Inl r \<Rightarrow> Inl r | Inr confidence \<Rightarrow> k confidence)"

definition patterns_match ::
  "PatternInfo \<Rightarrow> PatternInfo \<Rightarrow> real \<Rightarrow> real \<Rightarrow> real \<Rightarrow> bool \<times> real" where
  "patterns_match pattern1 pattern2 color_tolerance angle_tolerance spacing_tolerance =
     (case and_then (check_type pattern1 pattern2) (\<lambda>c0.
           and_then (check_stroke pattern1 pattern2 color_tolerance c0) (\<lambda>c1.
           and_then (check_fill pattern1 pattern2 color_tolerance c1) (\<lambda>c2.
           and_then (check_angle pattern1 pattern2 angle_tolerance c2) (\<lambda>c3.
           check_spacing pattern1 pattern2 spacing_tolerance c3)))) of
        Inl r \<Rightarrow> r
      | Inr confidence \<Rightarrow> (confidence > 0.3, confidence))"

text \<open>The keyword defaults of \<open>patterns_match\<close>.\<close>

definition patterns_match_default :: "PatternInfo \<Rightarrow> PatternInfo \<Rightarrow> bool \<times> real" where
  "patterns_match_default pattern1 pattern2 = patterns_match pattern1 pattern2 0.2 15 0.3"

subsection \<open>The matching rule as the specification words it\<close>

definition types_incompatible :: "PatternInfo \<Rightarrow> PatternInfo \<Rightarrow> bool" where
  "types_incompatible p q =
     (pattern_type p \<noteq> pattern_type q \<and> {pattern_type p, pattern_type q} \<noteq> {SOLID_FILL, HATCHING})"

definition angle_checked :: "PatternInfo \<Rightarrow> bool" where
  "angle_checked p = (pattern_type p = HATCHING \<or> pattern_type p = CROSSHATCH)"

definition hard_reject :: "PatternInfo \<Rightarrow> PatternInfo \<Rightarrow> real \<Rightarrow> real \<Rightarrow> bool" where
  "hard_reject p q ctol atol =
     (types_incompatible p q
      \<or> color_distance (stroke_color p) (stroke_color q) > 2 * ctol
      \<or> (angle_checked p \<and> angle_distance (hatching_angle p) (hatching_angle q) > 2 * atol))"

definition relative_spacing_difference :: "PatternInfo \<Rightarrow> PatternInfo \<Rightarrow> real" where
  "relative_spacing_difference p q =
     \<bar>the (hatching_spacing p) - the (hatching_spacing q)\<bar>
       / max (the (hatching_spacing p)) (the (hatching_spacing q))"

definition spec_confidence :: "PatternInfo \<Rightarrow> PatternInfo \<Rightarrow> real \<Rightarrow> real \<Rightarrow> real \<Rightarrow> real" where
  "spec_confidence p q ctol atol stol =
     1 * (if color_distance (stroke_color p) (stroke_color q) > ctol then 0.5 else 1)
       * (if color_distance (fill_color p) (fill_color q) > ctol then 0.7 else 1)
       * (if angle_checked p \<and> angle_distance (hatching_angle p) (hatching_angle q) > atol
          then 0.5 else 1)
       * (if truthy_float (hatching_spacing p) \<and> truthy_float (hatching_spacing q)
             \<and> relative_spacing_difference p q > stol
          then 0.7 else 1)"

definition hatching_45_red :: PatternInfo where
  "hatching_45_red =
     \<lparr> pattern_type = HATCHING, stroke_color = Some [1, 0, 0], fill_color = None,
       hatching_angle = Some 45, hatching_spacing = None, line_count = 0,
       secondary_angle = None \<rparr>"

section \<open>Pattern analysis of a drawing\<close>

text \<open>
  A drawing is the dictionary PyMuPDF returns from \<open>get_drawings\<close>: a list of path items,
  a stroke colour, a fill colour and a bounding rectangle. An item is a tuple whose first
  component is the command and whose other components are points, rectangles or other
  objects. \<open>len(item)\<close> is one more than the number of arguments.
\<close>

datatype pdf_arg =
    Point real real
  | Rect real real real real
  | Other bool
  | PyNone

type_synonym item = "string \<times> pdf_arg list"

record drawing =
  items :: "item list"
  color :: color
  fill :: color
  rect :: "(real \<times> real \<times> real \<times> real) option"

text \<open>\<open>hasattr(p, 'x')\<close> holds of points, \<open>hasattr(r, 'x0')\<close> of rectangles.\<close>

fun has_x :: "pdf_arg \<Rightarrow> bool" where
  "has_x (Point x y) = True"
| "has_x _ = False"

fun has_x0 :: "pdf_arg \<Rightarrow> bool" where
  "has_x0 (Rect a b c d) = True"
| "has_x0 _ = False"

fun px :: "pdf_arg \<Rightarrow> real" where
  "px (Point x y) = x"
| "px _ = 0"

fun py :: "pdf_arg \<Rightarrow> real" where
  "py (Point x y) = y"
| "py _ = 0"

text \<open>
  Truth value of an argument. PyMuPDF's points and rectangles are false exactly when all
  their coordinates are zero; any other object carries its truth value; \<open>None\<close> is false.
\<close>

fun truthy_arg :: "pdf_arg \<Rightarrow> bool" where
  "truthy_arg (Point x y) = (\<not> (x = 0 \<and> y = 0))"
| "truthy_arg (Rect a b c d) = (\<not> (a = 0 \<and> b = 0 \<and> c = 0 \<and> d = 0))"
| "truthy_arg (Other t) = t"
| "truthy_arg PyNone = False"

text \<open>Truth value of a colour: \<open>None\<close> and the empty tuple are false.\<close>

definition truthy_color :: "color \<Rightarrow> bool" where
  "truthy_color c = (case c of None \<Rightarrow> False | Some l \<Rightarrow> l \<noteq> [])"

text \<open>A line of the \<open>lines\<close> list: the dictionary with keys x1, y1, x2, y2.\<close>

type_synonym line = "real \<times> real \<times> real \<times> real"

text \<open>\<open>math.atan2\<close>, \<open>math.degrees\<close> and \<open>math.radians\<close> on finite arguments.\<close>

definition atan2 :: "real \<Rightarrow> real \<Rightarrow> real" where
  "atan2 y x =
     (if x > 0 then arctan (y / x)
      else if x < 0 then (if y \<ge> 0 then arctan (y / x) + pi else arctan (y / x) - pi)
      else if y > 0 then pi / 2
      else if y < 0 then - pi / 2
      else 0)"

definition degrees :: "real \<Rightarrow> real" where
  "degrees r = r * 180 / pi"

definition radians :: "real \<Rightarrow> real" where
  "radians d = d * pi / 180"

subsection \<open>Clustering of angles\<close>

record cluster =
  center :: real
  count :: nat

definition mk_cluster :: "real list \<Rightarrow> cluster" where
  "mk_cluster current = \<lparr> center = sum_list current / real (length current), count = length current \<rparr>"

text \<open>
  The loop of \<open>_cluster_values\<close> (and of \<open>_cluster_angles\<close>, which differs only in keeping
  the member angles in each cluster): \<open>current\<close> is the open cluster, never empty.
\<close>

fun cluster_loop :: "real \<Rightarrow> real list \<Rightarrow> cluster list \<Rightarrow> real list \<Rightarrow> cluster list" where
  "cluster_loop tolerance current clusters [] =
     (if current \<noteq> [] then clusters @ [mk_cluster current] else clusters)"
| "cluster_loop tolerance current clusters (val # vals) =
     (if val - last current \<le> tolerance
      then cluster_loop tolerance (current @ [val]) clusters vals
      else cluster_loop tolerance [val]
             (if current \<noteq> [] then clusters @ [mk_cluster current] else clusters) vals)"

definition cluster_values :: "real list \<Rightarrow> real \<Rightarrow> cluster list" where
  "cluster_values values tolerance =
     (case sort values of
        [] \<Rightarrow> []
      | v # vs \<Rightarrow> filter (\<lambda>c. count c \<ge> 2) (cluster_loop tolerance [v] [] vs))"

definition cluster_angles :: "real list \<Rightarrow> real \<Rightarrow> cluster list" where
  "cluster_angles angles tolerance = cluster_values angles tolerance"

text \<open>\<open>sorted(clusters, key=lambda c: c["count"], reverse=True)\<close>: stable, descending.\<close>

definition sort_by_count_desc :: "cluster list \<Rightarrow> cluster list" where
  "sort_by_count_desc cs = sort_key (\<lambda>c. - int (count c)) cs"

subsection \<open>analyze\_pattern (plankopf\_parser.py)\<close>

fun legend_lines :: "item list \<Rightarrow> line list" where
  "legend_lines [] = []"
| "legend_lines ((cmd, args) # rest) =
     (if length args + 1 < 3 then legend_lines rest
      else if cmd = ''l'' \<and> has_x (args ! 0) \<and> has_x (args ! 1)
           then (px (args ! 0), py (args ! 0), px (args ! 1), py (args ! 1)) # legend_lines rest
           else legend_lines rest)"

fun legend_angles :: "line list \<Rightarrow> real list" where
  "legend_angles [] = []"
| "legend_angles ((lx1, ly1, lx2, ly2) # rest) =
     (let dx = lx2 - lx1; dy = ly2 - ly1
      in if dx = 0 \<and> dy = 0 then legend_angles rest
         else py_fmod (degrees (atan2 dy dx)) 180 # legend_angles rest)"

text \<open>
  \<open>_estimate_line_spacing\<close>: mean of the gaps above 0.1 between the sorted distances of
  the line midpoints, measured across the hatching direction.
\<close>

fun gaps :: "real list \<Rightarrow> real list" where
  "gaps (a # b # rest) = (b - a) # gaps (b # rest)"
| "gaps _ = []"

definition estimate_line_spacing :: "line list \<Rightarrow> real \<Rightarrow> real option" where
  "estimate_line_spacing lines dominant_angle =
     (if length lines < 2 then None
      else (let angle_rad = radians dominant_angle;
                distances = map (\<lambda>(lx1, ly1, lx2, ly2).
                                   \<bar>((lx1 + lx2) / 2) * sin angle_rad - ((ly1 + ly2) / 2) * cos angle_rad\<bar>)
                                lines
            in if length distances < 2 then None
               else (let spacings = filter (\<lambda>s. s > 0.1) (gaps (sort distances))
                     in if spacings \<noteq> [] then Some (sum_list spacings / real (length spacings))
                        else None)))"

definition analyze_pattern :: "drawing \<Rightarrow> PatternInfo" where
  "analyze_pattern d =
     (let stroke = color d; fill_c = fill d; lines = legend_lines (items d)
      in if length lines < 2
         then (if truthy_color fill_c
               then \<lparr> pattern_type = SOLID_FILL, stroke_color = stroke, fill_color = fill_c,
                      hatching_angle = None, hatching_spacing = None, line_count = 0,
                      secondary_angle = None \<rparr>
               else \<lparr> pattern_type = NONE, stroke_color = stroke, fill_color = None,
                      hatching_angle = None, hatching_spacing = None, line_count = 0,
                      secondary_angle = None \<rparr>)
         else (let angles = legend_angles lines
               in if angles = []
                  then \<lparr> pattern_type = NONE, stroke_color = stroke, fill_color = None,
                         hatching_angle = None, hatching_spacing = None, line_count = 0,
                         secondary_angle = None \<rparr>
                  else (let angle_clusters = cluster_angles angles 10
                        in if length angle_clusters = 1
                           then (let dominant_angle = center (angle_clusters ! 0)
                                 in \<lparr> pattern_type = HATCHING, stroke_color = stroke,
                                      fill_color = fill_c, hatching_angle = Some dominant_angle,
                                      hatching_spacing = estimate_line_spacing lines dominant_angle,
                                      line_count = length lines, secondary_angle = None \<rparr>)
                           else if length angle_clusters = 2
                           then (let angles_sorted = sort_by_count_desc angle_clusters
                                 in \<lparr> pattern_type = CROSSHATCH, stroke_color = stroke,
                                      fill_color = fill_c,
                                      hatching_angle = Some (center (angles_sorted ! 0)),
                                      hatching_spacing = None, line_count = length lines,
                                      secondary_angle = Some (center (angles_sorted ! 1)) \<rparr>)
                           else \<lparr> pattern_type = HATCHING, stroke_color = stroke,
                                  fill_color = fill_c, hatching_angle = None,
                                  hatching_spacing = None, line_count = length lines,
                                  secondary_angle = None \<rparr>)))"

subsection \<open>analyze\_drawing\_pattern (material\_pattern\_detector.py)\<close>

text \<open>The line-extraction loop; the state is the list of lines and \<open>current_pos\<close>.\<close>

fun drawing_lines :: "item list \<Rightarrow> line list \<Rightarrow> pdf_arg \<Rightarrow> line list" where
  "drawing_lines [] lines current_pos = lines"
| "drawing_lines ((cmd, args) # rest) lines current_pos =
     (if length args + 1 < 2 then drawing_lines rest lines current_pos
      else if cmd = ''m'' then drawing_lines rest lines (args ! 0)
      else if cmd = ''l'' \<and> current_pos \<noteq> PyNone
           then (let p2 = args ! 0
                 in if truthy_arg p2 \<and> has_x current_pos \<and> has_x p2
                    then drawing_lines rest
                           (lines @ [(px current_pos, py current_pos, px p2, py p2)]) p2
                    else drawing_lines rest lines current_pos)
      else if cmd = ''l'' \<and> length args + 1 \<ge> 3
           then (let p1 = args ! 0; p2 = args ! 1
                 in if has_x p1 \<and> has_x p2
                    then drawing_lines rest (lines @ [(px p1, py p1, px p2, py p2)]) p2
                    else drawing_lines rest lines current_pos)
      else drawing_lines rest lines current_pos)"

fun drawing_angles :: "line list \<Rightarrow> real list" where
  "drawing_angles [] = []"
| "drawing_angles ((lx1, ly1, lx2, ly2) # rest) =
     (let dx = lx2 - lx1; dy = ly2 - ly1; length = sqrt (dx * dx + dy * dy)
      in if length < 0.1 then drawing_angles rest
         else py_fmod (degrees (atan2 dy dx)) 180 # drawing_angles rest)"

definition analyze_drawing_pattern :: "drawing \<Rightarrow> PatternInfo" where
  "analyze_drawing_pattern d =
     (let stroke = color d; fill_c = fill d; lines = drawing_lines (items d) [] PyNone
      in if length lines < 2
         then (if truthy_color fill_c
               then \<lparr> pattern_type = SOLID_FILL, stroke_color = stroke, fill_color = fill_c,
                      hatching_angle = None, hatching_spacing = None, line_count = 0,
                      secondary_angle = None \<rparr>
               else \<lparr> pattern_type = NONE, stroke_color = stroke, fill_color = None,
                      hatching_angle = None, hatching_spacing = None, line_count = 0,
                      secondary_angle = None \<rparr>)
         else (let angles = drawing_angles lines
               in if angles = []
                  then \<lparr> pattern_type = NONE, stroke_color = stroke, fill_color = None,
                         hatching_angle = None, hatching_spacing = None, line_count = 0,
                         secondary_angle = None \<rparr>
                  else (let angle_clusters = cluster_values angles 15
                        in if length angle_clusters = 1
                           then \<lparr> pattern_type = HATCHING, stroke_color = stroke,
                                  fill_color = fill_c,
                                  hatching_angle = Some (center (angle_clusters ! 0)),
                                  hatching_spacing = None, line_count = length lines,
                                  secondary_angle = None \<rparr>
                           else if length angle_clusters = 2
                           then (let sorted_clusters = sort_by_count_desc angle_clusters
                                 in \<lparr> pattern_type = CROSSHATCH, stroke_color = stroke,
                                      fill_color = fill_c,
                                      hatching_angle = Some (center (sorted_clusters ! 0)),
                                      hatching_spacing = None, line_count = length lines,
                                      secondary_angle = Some (center (sorted_clusters ! 1)) \<rparr>)
                           else \<lparr> pattern_type = HATCHING, stroke_color = stroke,
                                  fill_color = fill_c, hatching_angle = None,
                                  hatching_spacing = None, line_count = length lines,
                                  secondary_angle = None \<rparr>)))"

subsection \<open>Example drawings\<close>

text \<open>Two horizontal lines as PyMuPDF lists them, each item with both end points.\<close>

definition two_horizontal_lines :: drawing where
  "two_horizontal_lines =
     \<lparr> items = [(''l'', [Point 0 0, Point 10 0]), (''l'', [Point 0 3, Point 10 3])],
       color = Some [1, 0, 0], fill = None, rect = Some (0, 0, 10, 3) \<rparr>"

text \<open>Two horizontal strokes given by moves and lines to a single point.\<close>

definition two_strokes :: drawing where
  "two_strokes =
     \<lparr> items = [(''m'', [Point 1 1]), (''l'', [Point 11 1]), (''m'', [Point 1 4]), (''l'', [Point 11 4])],
       color = Some [1, 0, 0], fill = None, rect = Some (1, 1, 11, 4) \<rparr>"

section \<open>Pattern matching engine: lengths, merging, units (material\_pattern\_detector.py)\<close>

subsection \<open>calculate\_region\_length\<close>

text \<open>
  The loop state of \<open>calculate_region_length\<close>: the accumulated \<open>total_length\<close>, the
  coordinate lists \<open>x_coords\<close> and \<open>y_coords\<close>, and \<open>current_pos\<close>. \<open>region_step\<close> is
  the loop body, run on one item.
\<close>

type_synonym scan_state = "real \<times> real list \<times> real list \<times> pdf_arg"

definition region_step :: "scan_state \<Rightarrow> item \<Rightarrow> scan_state" where
  "region_step st it =
     (case (st, it) of
        ((total_length, x_coords, y_coords, current_pos), (cmd, args)) \<Rightarrow>
          if length args + 1 < 2 then st
          else if cmd = ''m''
          then (let p = args ! 0
                in if truthy_arg p \<and> has_x p
                   then (total_length, x_coords @ [px p], y_coords @ [py p], p)
                   else (total_length, x_coords, y_coords, p))
          else if cmd = ''l''
          then (if length args + 1 \<ge> 3 \<or> truthy_arg current_pos
                then (let p1 = (if length args + 1 \<ge> 3 then args ! 0 else current_pos);
                          p2 = (if length args + 1 \<ge> 3 then args ! 1 else args ! 0)
                      in if has_x p1 \<and> has_x p2
                         then (let dx = px p2 - px p1; dy = py p2 - py p1
                               in (total_length + sqrt (dx * dx + dy * dy),
                                   x_coords @ [px p1, px p2], y_coords @ [py p1, py p2], p2))
                         else st)
                else st)
          else if cmd = ''re''
          then (case args ! 0 of
                  Rect rx0 ry0 rx1 ry1 \<Rightarrow>
                    (let width = \<bar>rx1 - rx0\<bar>; height = \<bar>ry1 - ry0\<bar>
                     in (total_length + 2 * (width + height),
                         x_coords @ [rx0, rx1], y_coords @ [ry0, ry1], current_pos))
                | _ \<Rightarrow> st)
          else st)"

definition region_scan :: "item list \<Rightarrow> scan_state" where
  "region_scan its = foldl region_step (0, [], [], PyNone) its"

definition calculate_region_length :: "drawing \<Rightarrow> real" where
  "calculate_region_length d =
     (case region_scan (items d) of
        (total_length, x_coords, y_coords, current_pos) \<Rightarrow>
          if x_coords \<noteq> [] \<and> y_coords \<noteq> []
          then (let x_span = Max (set x_coords) - Min (set x_coords);
                    y_span = Max (set y_coords) - Min (set y_coords)
                in max x_span y_span)
          else total_length / 2)"

text \<open>The sum of segment lengths and rectangle perimeters the loop accumulates.\<close>

definition accumulated_length :: "drawing \<Rightarrow> real" where
  "accumulated_length d = fst (region_scan (items d))"

text \<open>An open polyline of two segments, 10 to the right and then 5 down.\<close>

definition l_shaped_polyline :: drawing where
  "l_shaped_polyline =
     \<lparr> items = [(''l'', [Point 0 0, Point 10 0]), (''l'', [Point 10 0, Point 10 5])],
       color = Some [0, 0, 0], fill = None, rect = Some (0, 0, 10, 5) \<rparr>"

text \<open>The items PyMuPDF lists for a path of straight segments: one \<open>l\<close> item per segment.\<close>

definition segment_items :: "line list \<Rightarrow> item list" where
  "segment_items segs = map (\<lambda>(sx1, sy1, sx2, sy2). (''l'', [Point sx1 sy1, Point sx2 sy2])) segs"

subsection \<open>Detected regions and their merging\<close>

record BoundingBox =
  x0 :: real
  y0 :: real
  x1 :: real
  y1 :: real

record LegendSymbol =
  symbol_id :: string
  label :: string
  label_normalized :: string
  bbox :: BoundingBox
  pattern_info :: PatternInfo
  material_type :: "string option"
  confidence :: real

record DetectedRegion =
  region_id :: string
  bbox :: BoundingBox
  pattern_info :: PatternInfo
  matched_symbol :: "LegendSymbol option"
  confidence :: real
  length_px :: real
  length_m :: "real option"
  wall_thickness_px :: real

text \<open>The two gaps the loop of \<open>merge_adjacent_regions\<close> computes, and its test on them.\<close>

definition x_gap :: "DetectedRegion \<Rightarrow> DetectedRegion \<Rightarrow> real" where
  "x_gap current region = max 0 (x0 (DetectedRegion.bbox region) - x1 (DetectedRegion.bbox current))"

definition y_gap :: "DetectedRegion \<Rightarrow> DetectedRegion \<Rightarrow> real" where
  "y_gap current region = max 0 (y0 (DetectedRegion.bbox region) - y1 (DetectedRegion.bbox current))"

text \<open>The region built in the merging branch.\<close>

definition merge_pair :: "DetectedRegion \<Rightarrow> DetectedRegion \<Rightarrow> DetectedRegion" where
  "merge_pair current region =
     \<lparr> region_id = region_id current,
       DetectedRegion.bbox =
         \<lparr> x0 = min (x0 (DetectedRegion.bbox current)) (x0 (DetectedRegion.bbox region)),
           y0 = min (y0 (DetectedRegion.bbox current)) (y0 (DetectedRegion.bbox region)),
           x1 = max (x1 (DetectedRegion.bbox current)) (x1 (DetectedRegion.bbox region)),
           y1 = max (y1 (DetectedRegion.bbox current)) (y1 (DetectedRegion.bbox region)) \<rparr>,
       DetectedRegion.pattern_info = DetectedRegion.pattern_info current,
       matched_symbol = None,
       DetectedRegion.confidence =
         (DetectedRegion.confidence current + DetectedRegion.confidence region) / 2,
       length_px = length_px current + length_px region,
       length_m = None,
       wall_thickness_px = (wall_thickness_px current + wall_thickness_px region) / 2 \<rparr>"

fun merge_loop ::
  "real \<Rightarrow> DetectedRegion \<Rightarrow> DetectedRegion list \<Rightarrow> DetectedRegion list \<Rightarrow> DetectedRegion list" where
  "merge_loop merge_distance current merged [] = merged @ [current]"
| "merge_loop merge_distance current merged (region # rest) =
     (if x_gap current region \<le> merge_distance \<and> y_gap current region \<le> merge_distance
      then merge_loop merge_distance (merge_pair current region) merged rest
      else merge_loop merge_distance region (merged @ [current]) rest)"

text \<open>\<open>sorted(regions, key=lambda r: (r.bbox.y0, r.bbox.x0))\<close>: stable, lexicographic.\<close>

definition sort_by_position :: "DetectedRegion list \<Rightarrow> DetectedRegion list" where
  "sort_by_position regions =
     sort_key (\<lambda>r. (y0 (DetectedRegion.bbox r), x0 (DetectedRegion.bbox r))) regions"

definition merge_adjacent_regions :: "DetectedRegion list \<Rightarrow> real \<Rightarrow> DetectedRegion list" where
  "merge_adjacent_regions regions merge_distance =
     (if length regions \<le> 1 then regions
      else (case sort_by_position regions of
              [] \<Rightarrow> []
            | current # rest \<Rightarrow> merge_loop merge_distance current [] rest))"

text \<open>The sweep read as a grouping into runs, each run folded by \<open>merge_pair\<close>.\<close>

definition merge_run :: "DetectedRegion list \<Rightarrow> DetectedRegion" where
  "merge_run run = foldl merge_pair (hd run) (tl run)"

fun split_runs :: "real \<Rightarrow> DetectedRegion list \<Rightarrow> DetectedRegion list \<Rightarrow> DetectedRegion list list" where
  "split_runs merge_distance run [] = [run]"
| "split_runs merge_distance run (region # rest) =
     (if x_gap (merge_run run) region \<le> merge_distance \<and> y_gap (merge_run run) region \<le> merge_distance
      then split_runs merge_distance (run @ [region]) rest
      else run # split_runs merge_distance [region] rest)"

text \<open>
  Adjacency as the specification words it: the gap between two boxes, whichever of the two
  comes first on the axis, is at most the merge distance on both axes.
\<close>

definition axis_gap :: "real \<Rightarrow> real \<Rightarrow> real \<Rightarrow> real \<Rightarrow> real" where
  "axis_gap lo1 hi1 lo2 hi2 = max 0 (max (lo2 - hi1) (lo1 - hi2))"

definition adjacent :: "real \<Rightarrow> DetectedRegion \<Rightarrow> DetectedRegion \<Rightarrow> bool" where
  "adjacent merge_distance a b =
     (axis_gap (x0 (DetectedRegion.bbox a)) (x1 (DetectedRegion.bbox a))
               (x0 (DetectedRegion.bbox b)) (x1 (DetectedRegion.bbox b)) \<le> merge_distance
      \<and> axis_gap (y0 (DetectedRegion.bbox a)) (y1 (DetectedRegion.bbox a))
                 (y0 (DetectedRegion.bbox b)) (y1 (DetectedRegion.bbox b)) \<le> merge_distance)"

text \<open>
  A list of runs is separated when the first region of each run but the first is not
  adjacent to the region the run before it was merged into.
\<close>

fun separated :: "real \<Rightarrow> DetectedRegion list list \<Rightarrow> bool" where
  "separated merge_distance (run # next_run # runs) =
     (\<not> adjacent merge_distance (merge_run run) (hd next_run)
      \<and> separated merge_distance (next_run # runs))"
| "separated merge_distance runs = True"

text \<open>The confidence a run ends with: each merge halves the sum of the two operands.\<close>

fun running_mean :: "real \<Rightarrow> real list \<Rightarrow> real" where
  "running_mean c [] = c"
| "running_mean c (c' # cs) = running_mean ((c + c') / 2) cs"

subsection \<open>convert\_to\_meters and the page result\<close>

text \<open>
  The regular expression \<open>1\s*[:/]\s*(\d+)\<close>, applied with \<open>re.match\<close> (at the start of
  the string). A character is a code point below 256. There \<open>\d\<close> matches the ten ASCII
  digits, and \<open>\s\<close> matches the code points 9 to 13, 28 to 32, 133 (next line) and 160
  (no-break space). Strings with code points from 256 on are outside the model.
\<close>

definition is_digit :: "char \<Rightarrow> bool" where
  "is_digit c = (c \<in> set ''0123456789'')"

definition is_space :: "char \<Rightarrow> bool" where
  "is_space c = ((of_char c :: nat) \<in> {9, 10, 11, 12, 13, 28, 29, 30, 31, 32, 133, 160})"

definition digit_value :: "char \<Rightarrow> nat" where
  "digit_value c = of_char c - 48"

definition int_of_digits :: "string \<Rightarrow> nat" where
  "int_of_digits ds = foldl (\<lambda>n c. 10 * n + digit_value c) 0 ds"

definition scale_match :: "string \<Rightarrow> string option" where
  "scale_match s =
     (case s of
        [] \<Rightarrow> None
      | c # r \<Rightarrow>
          if c \<noteq> CHR ''1'' then None
          else (case dropWhile is_space r of
                  [] \<Rightarrow> None
                | sep # r2 \<Rightarrow>
                    if sep \<noteq> CHR '':'' \<and> sep \<noteq> CHR ''/'' then None
                    else (let ds = takeWhile is_digit (dropWhile is_space r2)
                          in if ds = [] then None else Some ds)))"

text \<open>
  \<open>int(match.group(1))\<close>: CPython, from version 3.11 on, refuses a digit string longer
  than its limit of 4300 digits (\<open>sys.int_info.default_max_str_digits\<close>, leading zeros
  counted) with \<open>ValueError\<close>.
\<close>

definition max_str_digits :: nat where
  "max_str_digits = 4300"

definition py_int :: "string \<Rightarrow> py_error + nat" where
  "py_int ds = (if length ds > max_str_digits then Inl ValueError else Inr (int_of_digits ds))"

definition parse_scale_factor :: "string \<Rightarrow> py_error + nat" where
  "parse_scale_factor scale =
     (case scale_match scale of Some ds \<Rightarrow> py_int ds | None \<Rightarrow> Inr 100)"

text \<open>
  The scale factor is an \<open>int\<close>; the product \<open>length_mm_on_paper * scale_factor\<close> converts
  it to a float first.
\<close>

definition convert_to_meters :: "real \<Rightarrow> string \<Rightarrow> real \<Rightarrow> py_error + real" where
  "convert_to_meters len_px scale page_dpi =
     (case parse_scale_factor scale of
        Inl e \<Rightarrow> Inl e
      | Inr scale_factor \<Rightarrow>
          (case py_truediv (len_px * 25.4) page_dpi of
             Inl e \<Rightarrow> Inl e
           | Inr length_mm_on_paper \<Rightarrow>
               (case py_float_of_int scale_factor of
                  Inl e \<Rightarrow> Inl e
                | Inr factor \<Rightarrow>
                    (let real_mm = length_mm_on_paper * factor
                     in py_truediv real_mm 1000))))"

record PatternMatchResult =
  page_number :: int
  target_pattern :: PatternInfo
  detected_regions :: "DetectedRegion list"
  total_length_px :: real
  total_length_m :: real
  segment_count :: nat
  confidence :: real
  warnings :: "string list"

text \<open>
  \<open>detect_pattern_in_page\<close> after its call of \<open>find_matching_patterns\<close>, whose result
  (the regions found on the PDF page) is the parameter \<open>regions\<close>. The conversion is
  called with the default resolution of 72; a raise of the conversion leaves the function,
  hence the sum type.
\<close>

fun convert_regions ::
  "LegendSymbol \<Rightarrow> string \<Rightarrow> DetectedRegion list \<Rightarrow> py_error + DetectedRegion list" where
  "convert_regions target_symbol scale [] = Inr []"
| "convert_regions target_symbol scale (region # rest) =
     (case convert_to_meters (length_px region) scale 72 of
        Inl e \<Rightarrow> Inl e
      | Inr m \<Rightarrow>
          (case convert_regions target_symbol scale rest of
             Inl e \<Rightarrow> Inl e
           | Inr rest' \<Rightarrow>
               Inr (region\<lparr>matched_symbol := Some target_symbol, length_m := Some m\<rparr> # rest')))"

definition detect_pattern_in_page ::
  "DetectedRegion list \<Rightarrow> LegendSymbol \<Rightarrow> string \<Rightarrow> int \<Rightarrow> py_error + PatternMatchResult" where
  "detect_pattern_in_page regions target_symbol scale page_no =
     (case convert_regions target_symbol scale (merge_adjacent_regions regions 5) of
        Inl e \<Rightarrow> Inl e
      | Inr merged_regions \<Rightarrow>
          Inr \<lparr> page_number = page_no,
                target_pattern = LegendSymbol.pattern_info target_symbol,
                detected_regions = merged_regions,
                total_length_px = sum_list (map length_px merged_regions),
                total_length_m = sum_list (map (\<lambda>r. the (length_m r)) merged_regions),
                segment_count = length merged_regions,
                confidence =
                  (if merged_regions \<noteq> []
                   then sum_list (map DetectedRegion.confidence merged_regions)
                          / real (length merged_regions)
                   else 0),
                warnings =
                  (if merged_regions \<noteq> [] then []
                   else [''No matching patterns found in drawing area'']) \<rparr>)"

subsection \<open>Invariant and example data for the pattern matching engine\<close>

text \<open>
  Invariant of the loop of \<open>calculate_region_length\<close>: the two coordinate lists are empty
  together, and nothing has been added to \<open>total_length\<close> while they are empty.
\<close>

definition scan_inv :: "scan_state \<Rightarrow> bool" where
  "scan_inv st =
     (case st of (t, xs, ys, cp) \<Rightarrow> (xs = [] \<longleftrightarrow> ys = []) \<and> (xs = [] \<longrightarrow> t = 0))"

text \<open>A wall fragment with the given box and confidence, as a detected region.\<close>

definition fragment :: "real \<Rightarrow> real \<Rightarrow> real \<Rightarrow> real \<Rightarrow> real \<Rightarrow> DetectedRegion" where
  "fragment ax0 ay0 ax1 ay1 c =
     \<lparr> region_id = ''region_0001'',
       DetectedRegion.bbox = \<lparr> x0 = ax0, y0 = ay0, x1 = ax1, y1 = ay1 \<rparr>,
       DetectedRegion.pattern_info = hatching_45_red,
       matched_symbol = None,
       DetectedRegion.confidence = c,
       length_px = max (ax1 - ax0) (ay1 - ay0),
       length_m = None,
       wall_thickness_px = min (ax1 - ax0) (ay1 - ay0) \<rparr>"

text \<open>Three fragments in a row, each touching the next.\<close>

definition three_fragments :: "DetectedRegion list" where
  "three_fragments = [fragment 0 0 10 2 1, fragment 10 0 20 2 1, fragment 20 0 30 2 (2 / 5)]"

text \<open>
  A tall fragment, a wide one crossing it, and a small one that lies inside the box
  spanned by the two but more than 40 units away from either.
\<close>

definition tall_fragment :: DetectedRegion where
  "tall_fragment = fragment 0 0 1 100 1"

definition wide_fragment :: DetectedRegion where
  "wide_fragment = fragment 0 3 100 4 1"

definition inner_fragment :: DetectedRegion where
  "inner_fragment = fragment 50 50 60 60 1"

definition drywall_symbol :: LegendSymbol where
  "drywall_symbol =
     \<lparr> symbol_id = ''sym_0001'', label = ''Trockenbaukonstruktion'',
       label_normalized = ''trockenbaukonstruktion'',
       LegendSymbol.bbox = \<lparr> x0 = 0, y0 = 0, x1 = 20, y1 = 10 \<rparr>,
       LegendSymbol.pattern_info = hatching_45_red,
       material_type = Some ''drywall'', LegendSymbol.confidence = 1 \<rparr>"

text \<open>
  Three scale strings: a no-break space before the colon; the number \<open>10^400\<close>, beyond
  the float range; and 4301 zeros, beyond the digit limit of \<open>int\<close>.
\<close>

definition nbsp_scale :: string where
  "nbsp_scale = [CHR ''1'', CHR 0xA0, CHR '':'', CHR ''5'', CHR ''0'']"

definition overflowing_scale :: string where
  "overflowing_scale = ''1:'' @ CHR ''1'' # replicate 400 CHR ''0''"

definition overlong_scale :: string where
  "overlong_scale = ''1:'' @ replicate 4301 CHR ''0''"

section \<open>Rectangle door detector: distance between parallel lines (door\_geometry\_extraction.py)\<close>

text \<open>
  \<open>LineSegment\<close> is declared in vector\_measurement.py; the function below reads its
  endpoint fields and its \<open>midpoint\<close> property.
\<close>

record LineSegment =
  x1 :: real
  y1 :: real
  x2 :: real
  y2 :: real

text \<open>
  Modelled from the spec: the \<open>midpoint\<close> property of \<open>LineSegment\<close>
  (vector\_measurement.py, not among the sources); the specification speaks of
  "one segment's midpoint".
\<close>

definition midpoint :: "LineSegment \<Rightarrow> real \<times> real" where
  "midpoint s = ((x1 s + x2 s) / 2, (y1 s + y2 s) / 2)"

definition distance_between_parallel_lines :: "LineSegment \<Rightarrow> LineSegment \<Rightarrow> py_error + real" where
  "distance_between_parallel_lines seg1 seg2 =
     (let (px, py) = midpoint seg2;
          a = y2 seg1 - y1 seg1;
          b = x1 seg1 - x2 seg1;
          c = x2 seg1 * y1 seg1 - x1 seg1 * y2 seg1;
          numerator = \<bar>a * px + b * py + c\<bar>
      in case py_pow2 a of
           Inl e \<Rightarrow> Inl e
         | Inr a_squared \<Rightarrow>
             (case py_pow2 b of
                Inl e \<Rightarrow> Inl e
              | Inr b_squared \<Rightarrow>
                  (let denominator = sqrt (a_squared + b_squared)
                   in if denominator = 0 then Inr 0 else py_truediv numerator denominator)))"

text \<open>
  A horizontal segment from the origin to \<open>2^600\<close>, a finite double, and a short one.
\<close>

definition long_segment :: LineSegment where
  "long_segment = \<lparr> x1 = 0, y1 = 0, x2 = 2 ^ 600, y2 = 0 \<rparr>"

definition short_segment :: LineSegment where
  "short_segment = \<lparr> x1 = 0, y1 = 3, x2 = 10, y2 = 3 \<rparr>"

section \<open>Door labels, geometries and extractions (door\_label\_detection.py, door\_geometry\_extraction.py)\<close>

type_synonym bbox4 = "real \<times> real \<times> real \<times> real"

text \<open>The \<open>metadata\<close> dictionaries of the three classes are read by none of the functions below.\<close>

record DoorLabel =
  label_text :: string
  raw_text :: string
  page_number :: int
  bbox :: bbox4
  confidence :: real
  pattern_type :: string
  width_m :: "real option"
  height_m :: "real option"
  door_type :: "string option"
  fire_rating :: "string option"

record DoorGeometry =
  geometry_id :: string
  page_number :: int
  center :: "real \<times> real"
  width_px :: real
  height_px :: "real option"
  orientation_deg :: real
  opening_type :: string
  bbox :: bbox4
  confidence :: real
  source_type :: string
  arc_center :: "(real \<times> real) option"
  arc_radius_px :: "real option"
  leaf_line :: "LineSegment option"
  parallel_lines :: "LineSegment list option"

text \<open>
  Modelled from the spec: the enum \<open>DoorCategory\<close> (gewerke.py, not among the sources), whose
  members the specification lists as T90, T30, DSS and Standard; a record stores the member
  where the code stores its \<open>value\<close>.
\<close>

datatype DoorCategory = T90 | T30 | DSS | STANDARD

record DoorExtraction =
  extraction_id :: string
  page_number :: int
  label :: "DoorLabel option"
  geometry :: "DoorGeometry option"
  width_m :: "real option"
  height_m :: "real option"
  door_type :: "string option"
  door_number :: "string option"
  fire_rating :: "string option"
  category :: "DoorCategory option"
  confidence :: real
  extraction_method :: string
  scale_context_id :: "string option"
  assumptions :: "string list"
  warnings :: "string list"

text \<open>
  Modelled from the spec: the class \<open>ScaleContext\<close> (scale\_calibration.py, not among the
  sources), with the fields the pipeline reads; its \<open>id\<close> is the field \<open>sc_id\<close>.
\<close>

record ScaleContext =
  sc_id :: string
  scale_factor :: int
  pixels_per_meter :: real
  detection_method :: string

text \<open>Truthiness of an \<open>Optional[str]\<close>: \<open>None\<close> and the empty string are false.\<close>

definition truthy_str :: "string option \<Rightarrow> bool" where
  "truthy_str s = (case s of None \<Rightarrow> False | Some t \<Rightarrow> t \<noteq> [])"

subsection \<open>The two door-number patterns\<close>

text \<open>
  \<open>B\.\d{2}\.\d+\.\d{3}\<close> matched at the start of a string; the result is the rest of the
  string after the match. A run of digits is followed by a character that is no digit, so
  the greedy \<open>\d+\<close> never has to give back.
\<close>

fun take_digits :: "nat \<Rightarrow> string \<Rightarrow> string option" where
  "take_digits 0 s = Some s"
| "take_digits (Suc n) [] = None"
| "take_digits (Suc n) (c # s) = (if is_digit c then take_digits n s else None)"

fun expect :: "char \<Rightarrow> string \<Rightarrow> string option" where
  "expect c [] = None"
| "expect c (c' # s) = (if c = c' then Some s else None)"

definition match_room_code :: "string \<Rightarrow> string option" where
  "match_room_code s =
     (case expect CHR ''B'' s of None \<Rightarrow> None | Some s1 \<Rightarrow>
      case expect CHR ''.'' s1 of None \<Rightarrow> None | Some s2 \<Rightarrow>
      case take_digits 2 s2 of None \<Rightarrow> None | Some s3 \<Rightarrow>
      case expect CHR ''.'' s3 of None \<Rightarrow> None | Some s4 \<Rightarrow>
      if takeWhile is_digit s4 = [] then None else
      case expect CHR ''.'' (dropWhile is_digit s4) of None \<Rightarrow> None | Some s5 \<Rightarrow>
      take_digits 3 s5)"

text \<open>\<open>re.compile(r'B\.\d{2}\.\d+\.\d{3}-\d+').match(s)\<close> as a truth value.\<close>

definition door_number_with_suffix :: "string \<Rightarrow> bool" where
  "door_number_with_suffix s =
     (case match_room_code s of
        None \<Rightarrow> False
      | Some r \<Rightarrow> (case expect CHR ''-'' r of None \<Rightarrow> False | Some r' \<Rightarrow> takeWhile is_digit r' \<noteq> []))"

text \<open>\<open>re.compile(r'B\.\d{2}\.\d+\.\d{3}(?:-\d+)?').search(s)\<close> as a truth value.\<close>

fun door_number_search :: "string \<Rightarrow> bool" where
  "door_number_search [] = False"
| "door_number_search (c # s) = (match_room_code (c # s) \<noteq> None \<or> door_number_search s)"

subsection \<open>associate\_labels\_with\_geometries\<close>

text \<open>
  Extraction ids are \<open>door_\<close> followed by eight hexadecimal digits of a fresh UUID. The
  UUIDs drawn are a parameter: \<open>uuid n\<close> is the text drawn for the record created after
  \<open>n\<close> others in the same call.
\<close>

definition new_id :: "(nat \<Rightarrow> string) \<Rightarrow> DoorExtraction list \<Rightarrow> string" where
  "new_id uuid doors = ''door_'' @ uuid (length doors)"

definition label_center :: "DoorLabel \<Rightarrow> real \<times> real" where
  "label_center l = (case DoorLabel.bbox l of (lx0, ly0, lx1, ly1) \<Rightarrow> ((lx0 + lx1) / 2, (ly0 + ly1) / 2))"

definition center_distance :: "real \<times> real \<Rightarrow> real \<times> real \<Rightarrow> real" where
  "center_distance c lc = sqrt ((fst c - fst lc) ^ 2 + (snd c - snd lc) ^ 2)"

text \<open>
  The inner loop over the sorted geometries. The pair of \<open>nearest_geometry\<close> and
  \<open>nearest_distance\<close> is \<open>None\<close> as long as it is \<open>(None, inf)\<close>.
\<close>

fun find_nearest ::
  "real \<times> real \<Rightarrow> real \<Rightarrow> string set \<Rightarrow> DoorGeometry list \<Rightarrow> (DoorGeometry \<times> real) option
     \<Rightarrow> (DoorGeometry \<times> real) option" where
  "find_nearest lc max_distance_px matched [] nearest = nearest"
| "find_nearest lc max_distance_px matched (g # gs) nearest =
     (if geometry_id g \<in> matched then find_nearest lc max_distance_px matched gs nearest
      else (let distance = center_distance (center g) lc
            in if (case nearest of None \<Rightarrow> True | Some (ng, nearest_distance) \<Rightarrow> distance < nearest_distance)
                  \<and> distance \<le> max_distance_px
               then find_nearest lc max_distance_px matched gs (Some (g, distance))
               else find_nearest lc max_distance_px matched gs nearest))"

definition matched_door :: "string \<Rightarrow> DoorLabel \<Rightarrow> DoorGeometry \<Rightarrow> DoorExtraction" where
  "matched_door eid l g =
     \<lparr> extraction_id = eid, DoorExtraction.page_number = DoorLabel.page_number l,
       label = Some l, geometry = Some g,
       DoorExtraction.width_m = None, DoorExtraction.height_m = None,
       DoorExtraction.door_type = None, door_number = None,
       DoorExtraction.fire_rating = None, category = None,
       DoorExtraction.confidence = min (DoorLabel.confidence l) (DoorGeometry.confidence g),
       extraction_method = ''label_geometry_match'', scale_context_id = None,
       assumptions = [], warnings = [] \<rparr>"

definition geometry_only_door :: "string \<Rightarrow> DoorGeometry \<Rightarrow> DoorExtraction" where
  "geometry_only_door eid g =
     \<lparr> extraction_id = eid, DoorExtraction.page_number = DoorGeometry.page_number g,
       label = None, geometry = Some g,
       DoorExtraction.width_m = None, DoorExtraction.height_m = None,
       DoorExtraction.door_type = None, door_number = None,
       DoorExtraction.fire_rating = None, category = None,
       DoorExtraction.confidence = DoorGeometry.confidence g * 0.7,
       extraction_method = ''geometry_only'', scale_context_id = None,
       assumptions = [], warnings = [''No label found near this door geometry''] \<rparr>"

definition label_only_door :: "string \<Rightarrow> DoorLabel \<Rightarrow> DoorExtraction" where
  "label_only_door eid l =
     \<lparr> extraction_id = eid, DoorExtraction.page_number = DoorLabel.page_number l,
       label = Some l, geometry = None,
       DoorExtraction.width_m = None, DoorExtraction.height_m = None,
       DoorExtraction.door_type = None, door_number = None,
       DoorExtraction.fire_rating = None, category = None,
       DoorExtraction.confidence = DoorLabel.confidence l * 0.8,
       extraction_method = ''label_only'', scale_context_id = None,
       assumptions = [],
       warnings = [''Door label found but no geometry detected nearby''] \<rparr>"

text \<open>
  First loop: the labels in input order, each with its index. The state is the list of
  doors, \<open>matched_geometry_ids\<close> and \<open>matched_label_indices\<close>.
\<close>

type_synonym match_state = "DoorExtraction list \<times> string set \<times> nat set"

fun match_labels ::
  "(nat \<Rightarrow> string) \<Rightarrow> real \<Rightarrow> DoorGeometry list \<Rightarrow> (nat \<times> DoorLabel) list \<Rightarrow> match_state
     \<Rightarrow> match_state" where
  "match_labels uuid max_distance_px gs [] st = st"
| "match_labels uuid max_distance_px gs ((i, l) # rest) (doors, matched_geometry_ids, matched_label_indices) =
     (case find_nearest (label_center l) max_distance_px matched_geometry_ids gs None of
        None \<Rightarrow>
          match_labels uuid max_distance_px gs rest
            (doors, matched_geometry_ids, matched_label_indices)
      | Some (nearest_geometry, nearest_distance) \<Rightarrow>
          match_labels uuid max_distance_px gs rest
            (doors @ [matched_door (new_id uuid doors) l nearest_geometry],
             insert (geometry_id nearest_geometry) matched_geometry_ids,
             insert i matched_label_indices))"

text \<open>Second loop: the geometries nobody claimed.\<close>

fun add_unmatched_geometries ::
  "(nat \<Rightarrow> string) \<Rightarrow> string set \<Rightarrow> DoorGeometry list \<Rightarrow> DoorExtraction list \<Rightarrow> DoorExtraction list" where
  "add_unmatched_geometries uuid matched [] doors = doors"
| "add_unmatched_geometries uuid matched (g # gs) doors =
     (if geometry_id g \<notin> matched
      then add_unmatched_geometries uuid matched gs (doors @ [geometry_only_door (new_id uuid doors) g])
      else add_unmatched_geometries uuid matched gs doors)"

text \<open>
  Third loop. The search for a fire rating near a label stops at the first label of type
  \<open>fire_rating\<close> closer than 100, and takes its rating, which may be \<open>None\<close>.
\<close>

fun nearby_fire_rating :: "DoorLabel \<Rightarrow> DoorLabel list \<Rightarrow> string option" where
  "nearby_fire_rating l [] = None"
| "nearby_fire_rating l (other_label # rest) =
     (if DoorLabel.pattern_type other_label = ''fire_rating''
      then (let dist = center_distance (label_center l) (label_center other_label)
            in if dist < 100 then DoorLabel.fire_rating other_label
               else nearby_fire_rating l rest)
      else nearby_fire_rating l rest)"

text \<open>
  The assignment \<open>label.fire_rating = fire_rating\<close> under its condition: the result is
  the label object after the statement.
\<close>

definition backfill :: "DoorLabel \<Rightarrow> DoorLabel list \<Rightarrow> DoorLabel" where
  "backfill l labels =
     (let fire_rating = nearby_fire_rating l labels
      in if truthy_str fire_rating \<and> \<not> truthy_str (DoorLabel.fire_rating l)
         then l\<lparr>DoorLabel.fire_rating := fire_rating\<rparr>
         else l)"

text \<open>
  The label objects live in the caller's list and are updated in place, so the loop
  threads the list: position \<open>i\<close> holds the current state of the \<open>i\<close>-th object. The objects
  of the list are taken to be pairwise different objects. A record keeps a reference to
  its label; the label of a record below is the state of that object when the function
  returns, since an object is assigned to only just before its own \<open>label_only\<close> record
  is built, and never when it was matched.
\<close>

fun add_unmatched_labels ::
  "(nat \<Rightarrow> string) \<Rightarrow> nat set \<Rightarrow> nat list \<Rightarrow> DoorLabel list \<times> DoorExtraction list
     \<Rightarrow> DoorLabel list \<times> DoorExtraction list" where
  "add_unmatched_labels uuid matched [] st = st"
| "add_unmatched_labels uuid matched (i # rest) (labels, doors) =
     (if i \<notin> matched
      then (let l = labels ! i
            in if DoorLabel.pattern_type l = ''room_door'' \<or> door_number_search (label_text l)
               then (let l' = backfill l labels
                     in add_unmatched_labels uuid matched rest
                          (labels[i := l'], doors @ [label_only_door (new_id uuid doors) l']))
               else add_unmatched_labels uuid matched rest (labels, doors))
      else add_unmatched_labels uuid matched rest (labels, doors))"

text \<open>\<open>sorted(geometries, key=lambda g: g.confidence, reverse=True)\<close>: stable, descending.\<close>

definition sort_by_confidence :: "DoorGeometry list \<Rightarrow> DoorGeometry list" where
  "sort_by_confidence geometries = sort_key (\<lambda>g. - DoorGeometry.confidence g) geometries"

definition enumerate_labels :: "DoorLabel list \<Rightarrow> (nat \<times> DoorLabel) list" where
  "enumerate_labels labels = zip [0..<length labels] labels"

text \<open>
  The function returns the doors; the second component is the caller's list of labels as
  the call leaves it.
\<close>

definition associate_labels_with_geometries ::
  "(nat \<Rightarrow> string) \<Rightarrow> DoorLabel list \<Rightarrow> DoorGeometry list \<Rightarrow> real
     \<Rightarrow> DoorExtraction list \<times> DoorLabel list" where
  "associate_labels_with_geometries uuid labels geometries max_distance_px =
     (let geometries_sorted = sort_by_confidence geometries
      in case match_labels uuid max_distance_px geometries_sorted (enumerate_labels labels)
                ([], {}, {}) of
           (doors1, matched_geometry_ids, matched_label_indices) \<Rightarrow>
             (let doors2 = add_unmatched_geometries uuid matched_geometry_ids geometries_sorted doors1
              in case add_unmatched_labels uuid matched_label_indices [0..<length labels]
                        (labels, doors2) of
                   (labels', doors3) \<Rightarrow> (doors3, labels')))"

text \<open>The keyword default of \<open>max_distance_px\<close>.\<close>

definition associate_labels_with_geometries_default ::
  "(nat \<Rightarrow> string) \<Rightarrow> DoorLabel list \<Rightarrow> DoorGeometry list \<Rightarrow> DoorExtraction list \<times> DoorLabel list" where
  "associate_labels_with_geometries_default uuid labels geometries =
     associate_labels_with_geometries uuid labels geometries 150"

subsection \<open>extract\_door\_attributes\<close>

text \<open>Decimal text of an integer, for the f-string naming the scale.\<close>

definition decimal_digit :: "nat \<Rightarrow> char" where
  "decimal_digit k = ''0123456789'' ! k"

fun string_of_nat :: "nat \<Rightarrow> string" where
  "string_of_nat n =
     (if n < 10 then [decimal_digit n]
      else string_of_nat (n div 10) @ [decimal_digit (n mod 10)])"

definition string_of_int :: "int \<Rightarrow> string" where
  "string_of_int i = (if i < 0 then CHR ''-'' # string_of_nat (nat (- i)) else string_of_nat (nat i))"

text \<open>\<open>needle in haystack\<close> on strings.\<close>

fun starts_with :: "string \<Rightarrow> string \<Rightarrow> bool" where
  "starts_with s [] = True"
| "starts_with [] (c # p) = False"
| "starts_with (c' # s) (c # p) = (c' = c \<and> starts_with s p)"

fun contains :: "string \<Rightarrow> string \<Rightarrow> bool" where
  "contains [] needle = (needle = [])"
| "contains (c # s) needle = (starts_with (c # s) needle \<or> contains s needle)"

definition has_label_width :: "DoorExtraction \<Rightarrow> bool" where
  "has_label_width e = (case label e of None \<Rightarrow> False | Some l \<Rightarrow> truthy_float (DoorLabel.width_m l))"

definition set_dimensions :: "DoorExtraction \<Rightarrow> ScaleContext option \<Rightarrow> DoorExtraction" where
  "set_dimensions e scale_context =
     (if has_label_width e
      then e\<lparr>DoorExtraction.width_m := DoorLabel.width_m (the (label e)),
             DoorExtraction.height_m := DoorLabel.height_m (the (label e)),
             assumptions := assumptions e @ [''Width/height from label text'']\<rparr>
      else (case (geometry e, scale_context) of
              (Some g, Some sc) \<Rightarrow>
                if pixels_per_meter sc \<noteq> 0
                then e\<lparr>DoorExtraction.width_m := Some (width_px g / pixels_per_meter sc),
                       DoorExtraction.height_m :=
                         (if truthy_float (height_px g)
                          then Some (the (height_px g) / pixels_per_meter sc)
                          else DoorExtraction.height_m e),
                       assumptions := assumptions e @
                         [''Width calculated from geometry (scale 1:''
                            @ string_of_int (scale_factor sc) @ '')'']\<rparr>
                else e
            | _ \<Rightarrow> e))"

definition set_door_type :: "DoorExtraction \<Rightarrow> DoorExtraction" where
  "set_door_type e =
     (case label e of
        Some l \<Rightarrow> if truthy_str (DoorLabel.door_type l)
                  then e\<lparr>DoorExtraction.door_type := DoorLabel.door_type l\<rparr> else e
      | None \<Rightarrow> e)"

definition set_fire_rating :: "DoorExtraction \<Rightarrow> DoorExtraction" where
  "set_fire_rating e =
     (case label e of
        Some l \<Rightarrow> if truthy_str (DoorLabel.fire_rating l)
                  then e\<lparr>DoorExtraction.fire_rating := DoorLabel.fire_rating l\<rparr> else e
      | None \<Rightarrow> e)"

definition set_door_number :: "DoorExtraction \<Rightarrow> DoorExtraction" where
  "set_door_number e =
     (case label e of Some l \<Rightarrow> e\<lparr>door_number := Some (label_text l)\<rparr> | None \<Rightarrow> e)"

definition classify :: "string option \<Rightarrow> DoorCategory" where
  "classify rating =
     (if truthy_str rating
      then (if contains (the rating) ''T90'' then T90
            else if contains (the rating) ''T30'' then T30
            else if contains (the rating) ''DSS'' \<or> contains (the rating) ''Rauchschutz'' then DSS
            else STANDARD)
      else STANDARD)"

definition set_category :: "DoorExtraction \<Rightarrow> DoorExtraction" where
  "set_category e = e\<lparr>category := Some (classify (DoorExtraction.fire_rating e))\<rparr>"

definition set_scale_context_id :: "DoorExtraction \<Rightarrow> ScaleContext option \<Rightarrow> DoorExtraction" where
  "set_scale_context_id e scale_context =
     (case scale_context of Some sc \<Rightarrow> e\<lparr>scale_context_id := Some (sc_id sc)\<rparr> | None \<Rightarrow> e)"

text \<open>The function updates the extraction in place; the result is the updated record.\<close>

definition extract_door_attributes :: "DoorExtraction \<Rightarrow> ScaleContext option \<Rightarrow> DoorExtraction" where
  "extract_door_attributes extraction scale_context =
     set_scale_context_id
       (set_category (set_door_number (set_fire_rating (set_door_type
          (set_dimensions extraction scale_context)))))
       scale_context"

subsection \<open>The page pipeline after detection: filter and deduplication\<close>

text \<open>
  A Python dictionary as an association list in insertion order: assigning to a key
  that is present keeps its position.
\<close>

fun dict_set :: "'k \<Rightarrow> 'v \<Rightarrow> ('k \<times> 'v) list \<Rightarrow> ('k \<times> 'v) list" where
  "dict_set k v [] = [(k, v)]"
| "dict_set k v ((k', v') # kvs) = (if k = k' then (k, v) # kvs else (k', v') # dict_set k v kvs)"

text \<open>The body of the loop over \<open>doors\<close> that fills \<open>unique_doors\<close>.\<close>

definition dedup_step ::
  "(string \<times> DoorExtraction) list \<Rightarrow> DoorExtraction \<Rightarrow> (string \<times> DoorExtraction) list" where
  "dedup_step unique_doors door =
     (if truthy_str (door_number door)
      then (let door_num = the (door_number door)
            in if door_number_with_suffix door_num
               then (case map_of unique_doors door_num of
                       None \<Rightarrow> dict_set door_num door unique_doors
                     | Some kept \<Rightarrow>
                         if DoorExtraction.confidence door > DoorExtraction.confidence kept
                         then dict_set door_num door unique_doors
                         else unique_doors)
               else unique_doors)
      else dict_set (extraction_id door) door unique_doors)"

definition dedup_doors :: "DoorExtraction list \<Rightarrow> DoorExtraction list" where
  "dedup_doors doors = map snd (foldl dedup_step [] doors)"

text \<open>
  \<open>_extract_doors_from_page\<close> from its third stage on. The labels and geometries that
  the detectors read from the PDF page are parameters.
\<close>

definition attributed_doors ::
  "(nat \<Rightarrow> string) \<Rightarrow> DoorLabel list \<Rightarrow> DoorGeometry list \<Rightarrow> ScaleContext option \<Rightarrow> real
     \<Rightarrow> DoorExtraction list" where
  "attributed_doors uuid labels geometries scale_context search_radius_px =
     map (\<lambda>door. extract_door_attributes door scale_context)
         (fst (associate_labels_with_geometries uuid labels geometries search_radius_px))"

definition extract_doors_from_page ::
  "(nat \<Rightarrow> string) \<Rightarrow> DoorLabel list \<Rightarrow> DoorGeometry list \<Rightarrow> ScaleContext option \<Rightarrow> real \<Rightarrow> real
     \<Rightarrow> DoorExtraction list" where
  "extract_doors_from_page uuid labels geometries scale_context search_radius_px min_confidence =
     dedup_doors
       (filter (\<lambda>door. DoorExtraction.confidence door \<ge> min_confidence)
          (attributed_doors uuid labels geometries scale_context search_radius_px))"

subsection \<open>The association rule as the specification words it\<close>

text \<open>
  Labels are taken in input order; \<open>claimed\<close> holds the ids of the geometries already
  paired. A label for which no unclaimed geometry lies within the radius emits nothing. A
  label is otherwise paired with an unclaimed geometry within the radius to which no other
  such geometry is nearer, the record carries both with the smaller of the two
  confidences, and the geometry becomes claimed.
\<close>

inductive greedy_match ::
  "DoorGeometry set \<Rightarrow> real \<Rightarrow> DoorLabel list \<Rightarrow> string set \<Rightarrow> DoorExtraction list \<Rightarrow> string set \<Rightarrow> bool"
  for gs :: "DoorGeometry set" and radius :: real where
  finished: "greedy_match gs radius [] claimed [] claimed"
| nothing_near:
    "\<forall>g \<in> gs. geometry_id g \<in> claimed \<or> center_distance (center g) (label_center l) > radius \<Longrightarrow>
     greedy_match gs radius rest claimed ds claimed' \<Longrightarrow>
     greedy_match gs radius (l # rest) claimed ds claimed'"
| paired:
    "g \<in> gs \<Longrightarrow> geometry_id g \<notin> claimed \<Longrightarrow>
     center_distance (center g) (label_center l) \<le> radius \<Longrightarrow>
     \<forall>g' \<in> gs. geometry_id g' \<notin> claimed \<and> center_distance (center g') (label_center l) \<le> radius
        \<longrightarrow> center_distance (center g) (label_center l) \<le> center_distance (center g') (label_center l) \<Longrightarrow>
     label d = Some l \<Longrightarrow> geometry d = Some g \<Longrightarrow>
     extraction_method d = ''label_geometry_match'' \<Longrightarrow>
     DoorExtraction.confidence d = min (DoorLabel.confidence l) (DoorGeometry.confidence g) \<Longrightarrow>
     greedy_match gs radius rest (insert (geometry_id g) claimed) ds claimed' \<Longrightarrow>
     greedy_match gs radius (l # rest) claimed (d # ds) claimed'"

text \<open>Every record has a label or a geometry, as its extraction method says.\<close>

definition well_formed :: "DoorExtraction \<Rightarrow> bool" where
  "well_formed d =
     ((extraction_method d = ''label_geometry_match'' \<and> label d \<noteq> None \<and> geometry d \<noteq> None)
      \<or> (extraction_method d = ''geometry_only'' \<and> geometry d \<noteq> None)
      \<or> (extraction_method d = ''label_only'' \<and> label d \<noteq> None))"

subsection \<open>Example data for the associator\<close>

definition sample_uuid :: "nat \<Rightarrow> string" where
  "sample_uuid n = replicate (8 - length (string_of_nat n)) CHR ''0'' @ string_of_nat n"

definition wd_label :: DoorLabel where
  "wd_label =
     \<lparr> label_text = ''WD'', raw_text = ''WD'', DoorLabel.page_number = 1,
       DoorLabel.bbox = (100, 100, 120, 110), DoorLabel.confidence = 0.9,
       DoorLabel.pattern_type = ''german_door'',
       DoorLabel.width_m = None, DoorLabel.height_m = None,
       DoorLabel.door_type = Some ''WD'', DoorLabel.fire_rating = None \<rparr>"

definition arc_geometry :: DoorGeometry where
  "arc_geometry =
     \<lparr> geometry_id = ''door_001'', DoorGeometry.page_number = 1, center = (115, 105),
       width_px = 50, height_px = None, orientation_deg = 0, opening_type = ''arc'',
       DoorGeometry.bbox = (0, 0, 0, 0), DoorGeometry.confidence = 0.85,
       source_type = ''vector'', arc_center = None, arc_radius_px = None,
       leaf_line = None, parallel_lines = None \<rparr>"

text \<open>A room-door label without a fire rating and two fire-rating labels near it.\<close>

definition room_label :: DoorLabel where
  "room_label =
     \<lparr> label_text = ''B.00.1.001-1'', raw_text = ''B.00.1.001-1'', DoorLabel.page_number = 1,
       DoorLabel.bbox = (100, 100, 120, 110), DoorLabel.confidence = 0.75,
       DoorLabel.pattern_type = ''room_door'',
       DoorLabel.width_m = None, DoorLabel.height_m = None,
       DoorLabel.door_type = None, DoorLabel.fire_rating = None \<rparr>"

definition far_t90_label :: DoorLabel where
  "far_t90_label =
     \<lparr> label_text = ''T90'', raw_text = ''T90'', DoorLabel.page_number = 1,
       DoorLabel.bbox = (190, 100, 210, 110), DoorLabel.confidence = 0.95,
       DoorLabel.pattern_type = ''fire_rating'',
       DoorLabel.width_m = None, DoorLabel.height_m = None,
       DoorLabel.door_type = None, DoorLabel.fire_rating = Some ''T90'' \<rparr>"

definition near_t30_label :: DoorLabel where
  "near_t30_label =
     \<lparr> label_text = ''T 30-RS'', raw_text = ''T 30-RS'', DoorLabel.page_number = 1,
       DoorLabel.bbox = (100, 110, 120, 120), DoorLabel.confidence = 0.95,
       DoorLabel.pattern_type = ''fire_rating'',
       DoorLabel.width_m = None, DoorLabel.height_m = None,
       DoorLabel.door_type = None, DoorLabel.fire_rating = Some ''T30'' \<rparr>"

text \<open>A finished record with the given id, door number and confidence.\<close>

definition numbered_door :: "string \<Rightarrow> string \<Rightarrow> real \<Rightarrow> DoorExtraction" where
  "numbered_door eid num c =
     \<lparr> extraction_id = eid, DoorExtraction.page_number = 1,
       label = Some (room_label\<lparr>label_text := num\<rparr>), geometry = None,
       DoorExtraction.width_m = None, DoorExtraction.height_m = None,
       DoorExtraction.door_type = None, door_number = Some num,
       DoorExtraction.fire_rating = None, category = Some STANDARD,
       DoorExtraction.confidence = c,
       extraction_method = ''label_only'', scale_context_id = None,
       assumptions = [], warnings = [''Door label found but no geometry detected nearby''] \<rparr>"

subsection \<open>Notions used to state the properties of the associator and the page pipeline\<close>

text \<open>A geometry a label may still be paired with: not claimed, and within the radius.\<close>

definition candidate :: "real \<times> real \<Rightarrow> real \<Rightarrow> string set \<Rightarrow> DoorGeometry \<Rightarrow> bool" where
  "candidate lc radius claimed g =
     (geometry_id g \<notin> claimed \<and> center_distance (center g) lc \<le> radius)"

text \<open>The geometry ids claimed by a list of paired records.\<close>

definition claimed_by :: "DoorExtraction list \<Rightarrow> string set" where
  "claimed_by ds = (\<lambda>d. geometry_id (the (geometry d))) ` set ds"

text \<open>
  A label object after the call against the same object before it: only the fire rating
  may differ, and only by having been empty and being filled in.
\<close>

definition backfilled_from :: "DoorLabel \<Rightarrow> DoorLabel \<Rightarrow> bool" where
  "backfilled_from original l =
     (l = original\<lparr>DoorLabel.fire_rating := DoorLabel.fire_rating l\<rparr>
      \<and> (DoorLabel.fire_rating l = DoorLabel.fire_rating original
          \<or> (\<not> truthy_str (DoorLabel.fire_rating original) \<and> truthy_str (DoorLabel.fire_rating l))))"

text \<open>
  The test of the third loop on a label nobody claimed: it carries a door identifier.
\<close>

definition door_identifier :: "DoorLabel \<Rightarrow> bool" where
  "door_identifier l =
     (DoorLabel.pattern_type l = ''room_door'' \<or> door_number_search (label_text l))"

text \<open>The set \<open>matched_label_indices\<close> as the first loop leaves it.\<close>

definition paired_label_indices ::
  "(nat \<Rightarrow> string) \<Rightarrow> DoorLabel list \<Rightarrow> DoorGeometry list \<Rightarrow> real \<Rightarrow> nat set" where
  "paired_label_indices uuid labels geometries max_distance_px =
     (case match_labels uuid max_distance_px (sort_by_confidence geometries)
             (enumerate_labels labels) ([], {}, {}) of
        (doors, matched_geometry_ids, matched_label_indices) \<Rightarrow> matched_label_indices)"

text \<open>The records of a given extraction method, in the order of the list.\<close>

definition records_of :: "string \<Rightarrow> DoorExtraction list \<Rightarrow> DoorExtraction list" where
  "records_of method doors = filter (\<lambda>d. extraction_method d = method) doors"

text \<open>A fire-rating label whose centre is less than 100 away from the centre of a label.\<close>

definition within_100 :: "DoorLabel \<Rightarrow> DoorLabel \<Rightarrow> bool" where
  "within_100 l other =
     (DoorLabel.pattern_type other = ''fire_rating''
      \<and> center_distance (label_center l) (label_center other) < 100)"

text \<open>
  A record is numbered when it has a door number of the required form, unnumbered when it
  has no door number; its key in \<open>unique_doors\<close> is the door number or the extraction id.
\<close>

definition numbered :: "DoorExtraction \<Rightarrow> bool" where
  "numbered d = (truthy_str (door_number d) \<and> door_number_with_suffix (the (door_number d)))"

definition unnumbered :: "DoorExtraction \<Rightarrow> bool" where
  "unnumbered d = (\<not> truthy_str (door_number d))"

definition dedup_key :: "DoorExtraction \<Rightarrow> string" where
  "dedup_key d = (if truthy_str (door_number d) then the (door_number d) else extraction_id d)"

text \<open>
  Invariant of the deduplication loop, of the records \<open>xs\<close> seen so far and the dictionary
  \<open>acc\<close>: keys are unique, every entry is a seen record under its own key, and every
  numbered record seen is represented under its number by a record at least as confident.
\<close>

definition dedup_inv :: "DoorExtraction list \<Rightarrow> (string \<times> DoorExtraction) list \<Rightarrow> bool" where
  "dedup_inv xs acc =
     (distinct (map fst acc)
      \<and> (\<forall>k d. map_of acc k = Some d \<longrightarrow> d \<in> set xs \<and> k = dedup_key d \<and> (numbered d \<or> unnumbered d))
      \<and> (\<forall>c \<in> set xs. numbered c \<longrightarrow>
            (\<exists>d. map_of acc (dedup_key c) = Some d
                  \<and> DoorExtraction.confidence c \<le> DoorExtraction.confidence d)))"

text \<open>The \<open>k\<close>-th record of a call carries the \<open>k\<close>-th id drawn.\<close>

definition ids_ok :: "(nat \<Rightarrow> string) \<Rightarrow> DoorExtraction list \<Rightarrow> bool" where
  "ids_ok uuid doors = (map extraction_id doors = map (\<lambda>k. ''door_'' @ uuid k) [0..<length doors])"

section \<open>Theorems\<close>

subsection \<open>The float range\<close>

lemma float_overflows_ge: "2 ^ 1024 \<le> \<bar>r\<bar> \<Longrightarrow> float_overflows r"
proof -
  assume r: "2 ^ 1024 \<le> \<bar>r\<bar>"
  have "(2 - 1 / 2 ^ 53) * 2 ^ 1023 \<le> (2 :: real) * 2 ^ 1023"
    by (intro mult_right_mono) simp_all
  also have "\<dots> = 2 ^ 1024" by simp
  finally show ?thesis using r unfolding float_overflows_def by linarith
qed

lemma float_overflows_less: "\<bar>r\<bar> < 2 ^ 1023 \<Longrightarrow> \<not> float_overflows r"
proof -
  assume r: "\<bar>r\<bar> < 2 ^ 1023"
  have "(1 :: real) \<le> 2 - 1 / 2 ^ 53" by simp
  then have "(1 :: real) * 2 ^ 1023 \<le> (2 - 1 / 2 ^ 53) * 2 ^ 1023"
    by (rule mult_right_mono) simp
  then show ?thesis using r unfolding float_overflows_def by linarith
qed

lemma float_overflows_small: "\<bar>r\<bar> \<le> 2 ^ 64 \<Longrightarrow> \<not> float_overflows r"
proof -
  assume r: "\<bar>r\<bar> \<le> 2 ^ 64"
  have "(2 :: real) ^ 64 < 2 ^ 1023" by (rule power_strict_increasing) simp_all
  with r have "\<bar>r\<bar> < 2 ^ 1023" by linarith
  then show ?thesis by (rule float_overflows_less)
qed

subsection \<open>Distances\<close>

lemma color_distance_nonneg: "0 \<le> color_distance c1 c2"
  by (auto simp: color_distance_def Let_def split: option.splits)

lemma py_fmod_180_range: "0 \<le> py_fmod a 180 \<and> py_fmod a 180 < 180"
proof -
  have "of_int \<lfloor>a / 180\<rfloor> \<le> a / 180" "a / 180 < of_int \<lfloor>a / 180\<rfloor> + 1"
    by linarith+
  then show ?thesis unfolding py_fmod_def by (simp add: field_simps)
qed

lemma angle_distance_nonneg: "0 \<le> angle_distance a1 a2"
proof (cases a1)
  case None
  then show ?thesis by (simp add: angle_distance_def)
next
  case (Some u)
  show ?thesis
  proof (cases a2)
    case None
    then show ?thesis using Some by (simp add: angle_distance_def)
  next
    case (Some v)
    have "\<bar>py_fmod u 180 - py_fmod v 180\<bar> < 180"
      using py_fmod_180_range [of u] py_fmod_180_range [of v] by linarith
    then show ?thesis using \<open>a1 = Some u\<close> Some
      by (simp add: angle_distance_def Let_def)
  qed
qed

lemma spacing_divisor_nonzero:
  "truthy_float s \<Longrightarrow> truthy_float t \<Longrightarrow> max (the s) (the t) \<noteq> 0"
  by (auto simp: truthy_float_def max_def split: option.splits)

lemma types_incompatible_iff:
  "types_incompatible p q \<longleftrightarrow>
     (PatternInfo.pattern_type p \<noteq> PatternInfo.pattern_type q
      \<and> \<not> ({PatternInfo.pattern_type p, PatternInfo.pattern_type q} \<subseteq> {SOLID_FILL, HATCHING}))"
  unfolding types_incompatible_def by (cases "PatternInfo.pattern_type p"; cases "PatternInfo.pattern_type q") auto

lemma check_type_eq:
  "check_type p q = (if types_incompatible p q then Inl (False, 0) else Inr 1)"
  by (simp add: check_type_def types_incompatible_iff)

subsection \<open>C1: the acceptance rule of patterns\_match\<close>

text \<open>
  Claim C1. For every pair of patterns and every choice of tolerances, \<open>patterns_match\<close>
  returns \<open>(False, 0)\<close> when the pattern types differ other than as the pair
  solid\_fill/hatching, when the stroke-colour distance exceeds twice the colour tolerance,
  or when the angle distance (checked when the first pattern is hatching or crosshatch)
  exceeds twice the angle tolerance. Otherwise it returns the confidence, which starts at
  1 and is multiplied by 0.5 for a stroke distance over tolerance, 0.7 for a fill distance
  over tolerance, 0.5 for an angle distance over tolerance and 0.7 for a relative spacing
  difference over tolerance (both spacings present), together with the verdict
  "confidence > 0.3". Two identical hatching patterns with angle 45 and stroke (1,0,0)
  give \<open>(True, 1)\<close> under the default tolerances.
\<close>

theorem patterns_match_accepts_iff_confidence:
  "patterns_match p q ctol atol stol =
     (if hard_reject p q ctol atol then (False, 0)
      else (spec_confidence p q ctol atol stol > 0.3, spec_confidence p q ctol atol stol))
   \<and> patterns_match_default hatching_45_red hatching_45_red = (True, 1)"
proof
  have s0: "0 \<le> color_distance (stroke_color p) (stroke_color q)"
    by (rule color_distance_nonneg)
  have a0: "0 \<le> angle_distance (hatching_angle p) (hatching_angle q)"
    by (rule angle_distance_nonneg)
  show "patterns_match p q ctol atol stol =
     (if hard_reject p q ctol atol then (False, 0)
      else (spec_confidence p q ctol atol stol > 0.3, spec_confidence p q ctol atol stol))"
    using s0 a0
    unfolding patterns_match_def hard_reject_def spec_confidence_def and_then_def check_type_eq
      check_stroke_def check_fill_def check_angle_def check_spacing_def angle_checked_def
      relative_spacing_difference_def Let_def
    by (auto split: if_splits)
  show "patterns_match_default hatching_45_red hatching_45_red = (True, 1)"
    by (simp add: patterns_match_default_def patterns_match_def hatching_45_red_def and_then_def
        check_type_def check_stroke_def check_fill_def check_angle_def check_spacing_def
        color_distance_def angle_distance_def truthy_float_def py_fmod_def)
qed

text \<open>
  The rule at a pair that is neither rejected nor perfect: hatching at 45 against hatching
  at 65 degrees (distance 20, between the tolerance 15 and its double) is accepted with
  confidence 0.5.
\<close>

theorem patterns_match_accepts_iff_confidence_witness:
  "patterns_match hatching_45_red (hatching_45_red\<lparr>hatching_angle := Some 65\<rparr>) 0.2 15 0.3
     = (True, 0.5)"
proof -
  let ?q = "hatching_45_red\<lparr>hatching_angle := Some 65\<rparr>"
  have ad: "angle_distance (Some 45) (Some 65) = 20"
    by (simp add: angle_distance_def py_fmod_def)
  have cd: "color_distance (Some [1, 0, 0]) (Some [1, 0, 0]) = 0"
    by (simp add: color_distance_def)
  have hr: "\<not> hard_reject hatching_45_red ?q 0.2 15"
    by (simp add: hard_reject_def types_incompatible_def angle_checked_def hatching_45_red_def
        ad cd)
  have sc: "spec_confidence hatching_45_red ?q 0.2 15 0.3 = 0.5"
    by (simp add: spec_confidence_def angle_checked_def hatching_45_red_def ad cd
        color_distance_def truthy_float_def)
  from patterns_match_accepts_iff_confidence [of hatching_45_red ?q "0.2" 15 "0.3"]
  have "patterns_match hatching_45_red ?q 0.2 15 0.3
          = (if hard_reject hatching_45_red ?q 0.2 15 then (False, 0)
             else (spec_confidence hatching_45_red ?q 0.2 15 0.3 > 0.3,
                   spec_confidence hatching_45_red ?q 0.2 15 0.3))"
    by (rule conjunct1)
  then show ?thesis using hr sc by simp
qed

subsection \<open>C8: the perpendicular distance\<close>

lemma long_segment_overflows:
  "\<not> float_overflows (x1 long_segment - x2 long_segment)
   \<and> float_overflows ((x1 long_segment - x2 long_segment) ^ 2)"
proof
  have d: "x1 long_segment - x2 long_segment = - ((2 :: real) ^ 600)"
    by (simp only: long_segment_def LineSegment.simps diff_0)
  have "(2 :: real) ^ 600 < 2 ^ 1023" by (rule power_strict_increasing) simp_all
  then have "\<bar>- ((2 :: real) ^ 600)\<bar> < 2 ^ 1023"
    by (simp only: abs_minus_cancel abs_power2 abs_of_nonneg zero_le_power zero_le_numeral)
  then show "\<not> float_overflows (x1 long_segment - x2 long_segment)"
    unfolding d by (rule float_overflows_less)
  have "(- ((2 :: real) ^ 600)) ^ 2 = ((2 :: real) ^ 600) ^ 2" by (simp only: power2_minus)
  also have "\<dots> = 2 ^ 1200" by (simp only: power_mult [symmetric]) simp
  finally have e: "(x1 long_segment - x2 long_segment) ^ 2 = (2 :: real) ^ 1200" unfolding d .
  have "(2 :: real) ^ 1024 \<le> 2 ^ 1200" by (rule power_increasing) simp_all
  then have "2 ^ 1024 \<le> \<bar>(2 :: real) ^ 1200\<bar>"
    by (simp only: abs_of_nonneg zero_le_power zero_le_numeral)
  then show "float_overflows ((x1 long_segment - x2 long_segment) ^ 2)"
    unfolding e by (rule float_overflows_ge)
qed

text \<open>
  Claim C8 as stated fails. The first segment runs from the origin to \<open>(2^600, 0)\<close>, both
  finite doubles; the square \<open>b ** 2\<close> of the coordinate difference leaves the float range
  and raises \<open>OverflowError\<close> before the guard on the divisor is reached.
\<close>

theorem distance_between_parallel_lines_overflow_counterexample:
  "distance_between_parallel_lines long_segment short_segment = Inl OverflowError"
proof -
  have a: "y2 long_segment - y1 long_segment = 0" by (simp add: long_segment_def)
  have z: "\<not> float_overflows 0" by (simp add: float_overflows_def)
  show ?thesis
    using long_segment_overflows z
    by (simp add: distance_between_parallel_lines_def py_pow2_def a Let_def split: prod.splits)
qed

text \<open>
  Claim C8, amended. \<open>_distance_between_parallel_lines\<close> never divides by zero: whenever
  the squares of the two coordinate differences of the first segment stay within the float
  range, it returns a non-negative number, and it returns 0 when the two endpoints of the
  first segment coincide, the case in which the divisor of the point-to-line formula is
  zero. The only exception it raises is the \<open>OverflowError\<close> of \<open>**\<close>, exactly when one of
  the two differences is finite and its square leaves the float range.
\<close>

theorem distance_between_parallel_lines_guarded:
  "(\<not> float_overflows ((y2 seg1 - y1 seg1) ^ 2) \<and> \<not> float_overflows ((x1 seg1 - x2 seg1) ^ 2)
      \<longrightarrow> (\<exists>d. distance_between_parallel_lines seg1 seg2 = Inr d \<and> 0 \<le> d))
   \<and> (x1 seg1 = x2 seg1 \<and> y1 seg1 = y2 seg1
      \<longrightarrow> distance_between_parallel_lines seg1 seg2 = Inr 0)
   \<and> distance_between_parallel_lines seg1 seg2 \<noteq> Inl ZeroDivisionError
   \<and> distance_between_parallel_lines seg1 seg2 \<noteq> Inl ValueError
   \<and> (distance_between_parallel_lines seg1 seg2 = Inl OverflowError
        \<longleftrightarrow> (\<not> float_overflows (y2 seg1 - y1 seg1)
                 \<and> float_overflows ((y2 seg1 - y1 seg1) ^ 2))
               \<or> (\<not> float_overflows (x1 seg1 - x2 seg1)
                   \<and> float_overflows ((x1 seg1 - x2 seg1) ^ 2)))"
proof -
  have z: "\<not> float_overflows 0" by (simp add: float_overflows_def)
  show ?thesis
    using z
    by (auto simp: distance_between_parallel_lines_def py_pow2_def py_truediv_def Let_def
        split: prod.splits)
qed

text \<open>
  The amended claim at a segment whose endpoints coincide, and at two horizontal segments
  three units apart.
\<close>

theorem distance_between_parallel_lines_guarded_witness:
  "distance_between_parallel_lines \<lparr>x1 = 3, y1 = 4, x2 = 3, y2 = 4\<rparr> short_segment = Inr 0
   \<and> \<not> float_overflows ((y2 \<lparr>x1 = 0, y1 = 0, x2 = 10, y2 = 0\<rparr> - y1 \<lparr>x1 = 0, y1 = 0, x2 = 10, y2 = 0\<rparr>) ^ 2)
   \<and> \<not> float_overflows ((x1 \<lparr>x1 = 0, y1 = 0, x2 = 10, y2 = 0\<rparr> - x2 \<lparr>x1 = 0, y1 = 0, x2 = 10, y2 = 0\<rparr>) ^ 2)
   \<and> (\<exists>d. distance_between_parallel_lines \<lparr>x1 = 0, y1 = 0, x2 = 10, y2 = 0\<rparr> short_segment = Inr d
            \<and> 0 \<le> d)"
proof -
  let ?s = "\<lparr>x1 = 3, y1 = 4, x2 = 3, y2 = 4\<rparr> :: LineSegment"
  let ?t = "\<lparr>x1 = 0, y1 = 0, x2 = 10, y2 = 0\<rparr> :: LineSegment"
  have h1: "x1 ?s = x2 ?s \<and> y1 ?s = y2 ?s" by simp
  have c1: "distance_between_parallel_lines ?s short_segment = Inr 0"
    using distance_between_parallel_lines_guarded [of ?s short_segment] h1 by blast
  have h2: "\<not> float_overflows ((y2 ?t - y1 ?t) ^ 2)"
    by (rule float_overflows_small) simp
  have h3: "\<not> float_overflows ((x1 ?t - x2 ?t) ^ 2)"
    by (rule float_overflows_small) simp
  have c2: "\<exists>d. distance_between_parallel_lines ?t short_segment = Inr d \<and> 0 \<le> d"
    using distance_between_parallel_lines_guarded [of ?t short_segment] h2 h3 by blast
  show ?thesis using c1 h2 h3 c2 by blast
qed

subsection \<open>C10: pattern analysis never yields dots or stipple\<close>

text \<open>
  Claim C10. For every drawing, both \<open>analyze_pattern\<close> (legend learner) and
  \<open>analyze_drawing_pattern\<close> (matching engine) return a pattern whose type is one of none,
  solid\_fill, hatching and crosshatch; the enum members dots and stipple are never
  produced. A merged region keeps the pattern of the first region of its run.
\<close>

theorem pattern_analysis_never_dots_or_stipple:
  "PatternInfo.pattern_type (analyze_pattern d) \<in> {NONE, SOLID_FILL, HATCHING, CROSSHATCH}
   \<and> PatternInfo.pattern_type (analyze_drawing_pattern d) \<in> {NONE, SOLID_FILL, HATCHING, CROSSHATCH}
   \<and> PatternInfo.pattern_type (analyze_pattern d) \<notin> {DOT_PATTERN, STIPPLE}
   \<and> PatternInfo.pattern_type (analyze_drawing_pattern d) \<notin> {DOT_PATTERN, STIPPLE}
   \<and> DetectedRegion.pattern_info (merge_pair current region) = DetectedRegion.pattern_info current"
  by (simp add: analyze_pattern_def analyze_drawing_pattern_def Let_def merge_pair_def)

text \<open>
  The two analyses at work. The legend learner reads both end points of a line item. The
  matching engine, once a current position is set, reads only the first point of a line
  item as the end of its stroke.
\<close>

lemma analyze_drawing_pattern_example:
  "analyze_drawing_pattern two_strokes
     = \<lparr> PatternInfo.pattern_type = HATCHING, stroke_color = Some [1, 0, 0], fill_color = None,
         hatching_angle = Some 0, hatching_spacing = None, line_count = 2,
         secondary_angle = None \<rparr>"
proof -
  have l: "drawing_lines (items two_strokes) [] PyNone = [(1, 1, 11, 1), (1, 4, 11, 4)]"
    by (simp add: two_strokes_def Let_def)
  have a: "drawing_angles [(1, 1, 11, 1), (1, 4, 11, 4)] = [0, 0]"
    by (simp add: atan2_def degrees_def py_fmod_def Let_def)
  have c: "cluster_values [0, 0] 15 = [\<lparr> cluster.center = 0, count = 2 \<rparr>]"
    by (simp add: cluster_values_def mk_cluster_def)
  show ?thesis
    by (simp add: analyze_drawing_pattern_def l a c Let_def del: drawing_angles.simps)
       (simp add: two_strokes_def)
qed

lemma analyze_pattern_example:
  "PatternInfo.pattern_type (analyze_pattern two_horizontal_lines) = HATCHING
   \<and> hatching_angle (analyze_pattern two_horizontal_lines) = Some 0
   \<and> hatching_spacing (analyze_pattern two_horizontal_lines) = Some 3"
proof -
  have l: "legend_lines (items two_horizontal_lines) = [(0, 0, 10, 0), (0, 3, 10, 3)]"
    by (simp add: two_horizontal_lines_def)
  have a: "legend_angles [(0, 0, 10, 0), (0, 3, 10, 3)] = [0, 0]"
    by (simp add: atan2_def degrees_def py_fmod_def Let_def)
  have c: "cluster_angles [0, 0] 10 = [\<lparr> cluster.center = 0, count = 2 \<rparr>]"
    by (simp add: cluster_angles_def cluster_values_def mk_cluster_def)
  have s: "estimate_line_spacing [(0, 0, 10, 0), (0, 3, 10, 3)] 0 = Some 3"
    by (simp add: estimate_line_spacing_def radians_def)
  show ?thesis
    by (simp add: analyze_pattern_def l a c s Let_def del: legend_angles.simps)
qed

subsection \<open>C7: conversion of lengths to meters\<close>

lemma scale_match_colon_digits:
  assumes "ds \<noteq> []" "\<forall>c \<in> set ds. is_digit c"
  shows "scale_match (''1:'' @ ds) = Some ds"
proof -
  obtain c cs where ds: "ds = c # cs" using assms(1) by (cases ds) auto
  have "is_digit c" using assms(2) ds by simp
  then have ns: "\<not> is_space c" by (auto simp: is_digit_def is_space_def)
  have ncolon: "\<not> is_space CHR '':''" by (simp add: is_space_def)
  have tw: "takeWhile is_digit ds = ds" using assms(2) by (simp add: takeWhile_eq_all_conv)
  show ?thesis using ns ncolon tw ds by (simp add: scale_match_def)
qed

lemma merge_loop_nonempty: "merge_loop md cur merged rest \<noteq> []"
  by (induction rest arbitrary: cur merged) auto

lemma sort_by_position_Nil_iff: "sort_by_position regions = [] \<longleftrightarrow> regions = []"
  unfolding sort_by_position_def by (metis length_sort length_0_conv)

lemma merge_adjacent_regions_nonempty:
  "regions \<noteq> [] \<Longrightarrow> merge_adjacent_regions regions md \<noteq> []"
  by (auto simp: merge_adjacent_regions_def merge_loop_nonempty sort_by_position_Nil_iff
      split: list.splits)

lemma convert_to_meters_ok:
  "page_dpi \<noteq> 0 \<Longrightarrow> parse_scale_factor scale = Inr n \<Longrightarrow> \<not> float_overflows (real n) \<Longrightarrow>
   convert_to_meters l scale page_dpi = Inr (l * 25.4 / page_dpi * real n / 1000)"
  by (simp add: convert_to_meters_def py_truediv_def py_float_of_int_def)

lemma not_float_overflows_100: "\<not> float_overflows (real 100)"
  by (rule float_overflows_small) simp

lemma parse_scale_factor_None: "scale_match scale = None \<Longrightarrow> parse_scale_factor scale = Inr 100"
  by (simp add: parse_scale_factor_def)

lemma convert_to_meters_unparsable:
  "page_dpi \<noteq> 0 \<Longrightarrow> scale_match scale = None \<Longrightarrow>
   convert_to_meters l scale page_dpi = Inr (l * 25.4 / page_dpi * 100 / 1000)"
  using convert_to_meters_ok [of page_dpi scale 100 l] not_float_overflows_100
  by (simp add: parse_scale_factor_None)

lemma convert_regions_length:
  "convert_regions tsym scale regions = Inr rs \<Longrightarrow> length rs = length regions"
  by (induction regions arbitrary: rs) (auto split: sum.splits)

lemma convert_regions_unparsable:
  "scale_match scale = None \<Longrightarrow> \<exists>rs. convert_regions tsym scale regions = Inr rs"
  by (induction regions) (auto simp: convert_to_meters_unparsable)

lemma scale_match_abc: "scale_match ''abc'' = None"
  by (simp add: scale_match_def)

lemma foldl_digits_zeros:
  "foldl (\<lambda>n c. 10 * n + digit_value c) n (replicate k CHR ''0'') = n * 10 ^ k"
  by (induction k arbitrary: n) (simp_all add: digit_value_def)

lemma int_of_digits_one_zeros: "int_of_digits (CHR ''1'' # replicate k CHR ''0'') = 10 ^ k"
  unfolding int_of_digits_def foldl_Cons foldl_digits_zeros by (simp add: digit_value_def)

lemma scale_match_overflowing:
  "scale_match overflowing_scale = Some (CHR ''1'' # replicate 400 CHR ''0'')"
  unfolding overflowing_scale_def
  by (rule scale_match_colon_digits) (auto simp: is_digit_def)

lemma scale_match_overlong: "scale_match overlong_scale = Some (replicate 4301 CHR ''0'')"
  unfolding overlong_scale_def
  by (rule scale_match_colon_digits) (auto simp: is_digit_def)

lemma float_overflows_10_400: "float_overflows (real (10 ^ 400))"
proof -
  have "(2 :: real) ^ 1024 \<le> 2 ^ 1200" by (rule power_increasing) simp_all
  also have "\<dots> = ((2 :: real) ^ 3) ^ 400" by (simp only: power_mult [symmetric]) simp
  also have "\<dots> \<le> (10 :: real) ^ 400" by (rule power_mono) simp_all
  finally have "(2 :: real) ^ 1024 \<le> 10 ^ 400" .
  moreover have "\<bar>real (10 ^ 400)\<bar> = 10 ^ 400"
    by (simp only: of_nat_power of_nat_numeral power_abs abs_numeral)
  ultimately have "(2 :: real) ^ 1024 \<le> \<bar>real (10 ^ 400)\<bar>" by (simp only:)
  then show ?thesis by (rule float_overflows_ge)
qed

text \<open>
  Claim C7 as stated fails in three ways. An unparsable scale string makes
  \<open>convert_to_meters\<close> use 100 without any warning: the function returns a number only,
  and the warnings of the page result that \<open>detect_pattern_in_page\<close> builds from it stay
  empty. A resolution of 0 raises \<open>ZeroDivisionError\<close> instead of returning a length. And
  a scale number that no float can hold raises instead of returning: \<open>OverflowError\<close> for
  \<open>10^400\<close>, \<open>ValueError\<close> for a run of 4301 digits.
\<close>

theorem convert_to_meters_warning_counterexample:
  "convert_to_meters 100 ''abc'' 72 = Inr (127 / 36)
   \<and> map_sum id PatternMatchResult.warnings (detect_pattern_in_page [fragment 0 0 10 2 1] drywall_symbol ''abc'' 0)
       = Inr []
   \<and> convert_to_meters 100 ''1:100'' 0 = Inl ZeroDivisionError
   \<and> convert_to_meters 100 overflowing_scale 72 = Inl OverflowError
   \<and> convert_to_meters 100 overlong_scale 72 = Inl ValueError"
proof (intro conjI)
  show abc: "convert_to_meters 100 ''abc'' 72 = Inr (127 / 36)"
    by (simp add: convert_to_meters_unparsable scale_match_abc)
  have "convert_to_meters (length_px (fragment 0 0 10 2 1)) ''abc'' 72
          = Inr (length_px (fragment 0 0 10 2 1) * 25.4 / 72 * 100 / 1000)"
    by (rule convert_to_meters_unparsable) (simp_all add: scale_match_abc)
  then show "map_sum id PatternMatchResult.warnings (detect_pattern_in_page [fragment 0 0 10 2 1] drywall_symbol ''abc'' 0)
       = Inr []"
    by (simp add: detect_pattern_in_page_def merge_adjacent_regions_def)
  have "scale_match ''1:100'' = Some ''100''"
    by (simp add: scale_match_def is_space_def is_digit_def)
  then have "parse_scale_factor ''1:100'' = Inr 100"
    by (simp add: parse_scale_factor_def py_int_def max_str_digits_def int_of_digits_def
        digit_value_def)
  then show "convert_to_meters 100 ''1:100'' 0 = Inl ZeroDivisionError"
    by (simp add: convert_to_meters_def py_truediv_def)
  have "parse_scale_factor overflowing_scale = Inr (10 ^ 400)"
    by (simp add: parse_scale_factor_def scale_match_overflowing py_int_def max_str_digits_def
        int_of_digits_one_zeros)
  then show "convert_to_meters 100 overflowing_scale 72 = Inl OverflowError"
    using float_overflows_10_400
    by (simp add: convert_to_meters_def py_truediv_def py_float_of_int_def del: of_nat_power)
  have "parse_scale_factor overlong_scale = Inl ValueError"
    by (simp add: parse_scale_factor_def scale_match_overlong py_int_def max_str_digits_def)
  then show "convert_to_meters 100 overlong_scale 72 = Inl ValueError"
    by (simp add: convert_to_meters_def)
qed

text \<open>
  Claim C7, amended. For every length, every resolution other than 0 and every scale string
  whose number \<open>N\<close> a float can hold, \<open>convert_to_meters\<close> returns
  \<open>length_px * 25.4 / dpi * N / 1000\<close>. \<open>N\<close> is the number read from a scale string
  \<open>1:N\<close> of at most 4300 digits (white space, the no-break space included, may stand
  around the separator), and it is 100, silently, when the string does not match: then the
  function returns for every resolution other than 0, no warning is recorded, and a page
  result built from a non-empty list of regions has no warnings whatever the scale
  string. With length 100, scale \<open>1:100\<close> and resolution 72 the result is within 0.001 of
  3.528.
\<close>

theorem convert_to_meters_formula:
  "(page_dpi \<noteq> 0 \<and> parse_scale_factor scale = Inr n \<and> \<not> float_overflows (real n) \<longrightarrow>
      convert_to_meters len_px scale page_dpi
        = Inr (len_px * 25.4 / page_dpi * real n / 1000))
   \<and> (ds \<noteq> [] \<and> list_all is_digit ds \<and> length ds \<le> max_str_digits \<longrightarrow>
        parse_scale_factor (''1:'' @ ds) = Inr (int_of_digits ds))
   \<and> parse_scale_factor nbsp_scale = Inr 50
   \<and> (scale_match scale = None \<longrightarrow> parse_scale_factor scale = Inr 100)
   \<and> (page_dpi \<noteq> 0 \<and> scale_match scale = None \<longrightarrow>
        convert_to_meters len_px scale page_dpi = Inr (len_px * 25.4 / page_dpi * 100 / 1000))
   \<and> (regions \<noteq> [] \<and> detect_pattern_in_page regions target_symbol scale page_no = Inr res \<longrightarrow>
        PatternMatchResult.warnings res = [])
   \<and> (regions \<noteq> [] \<and> scale_match scale = None \<longrightarrow>
        (\<exists>res'. detect_pattern_in_page regions target_symbol scale page_no = Inr res'
               \<and> PatternMatchResult.warnings res' = []))
   \<and> (\<exists>m. convert_to_meters 100 ''1:100'' 72 = Inr m \<and> \<bar>m - 3.528\<bar> < 0.001)"
proof (intro conjI impI)
  assume "page_dpi \<noteq> 0 \<and> parse_scale_factor scale = Inr n \<and> \<not> float_overflows (real n)"
  then show "convert_to_meters len_px scale page_dpi
        = Inr (len_px * 25.4 / page_dpi * real n / 1000)"
    by (simp add: convert_to_meters_ok)
next
  assume a: "ds \<noteq> [] \<and> list_all is_digit ds \<and> length ds \<le> max_str_digits"
  then have "scale_match (''1:'' @ ds) = Some ds"
    using scale_match_colon_digits [of ds] by (simp add: list_all_iff)
  with a show "parse_scale_factor (''1:'' @ ds) = Inr (int_of_digits ds)"
    by (simp add: parse_scale_factor_def py_int_def)
next
  have "scale_match nbsp_scale = Some ''50''"
    by (simp add: scale_match_def nbsp_scale_def is_space_def is_digit_def)
  then show "parse_scale_factor nbsp_scale = Inr 50"
    by (simp add: parse_scale_factor_def py_int_def max_str_digits_def int_of_digits_def
        digit_value_def)
next
  assume "scale_match scale = None"
  then show "parse_scale_factor scale = Inr 100" by (rule parse_scale_factor_None)
next
  assume "page_dpi \<noteq> 0 \<and> scale_match scale = None"
  then show "convert_to_meters len_px scale page_dpi = Inr (len_px * 25.4 / page_dpi * 100 / 1000)"
    by (simp add: convert_to_meters_unparsable)
next
  assume a: "regions \<noteq> [] \<and> detect_pattern_in_page regions target_symbol scale page_no = Inr res"
  then obtain rs where rs: "convert_regions target_symbol scale (merge_adjacent_regions regions 5) = Inr rs"
    by (auto simp: detect_pattern_in_page_def split: sum.splits)
  then have "length rs = length (merge_adjacent_regions regions 5)"
    by (rule convert_regions_length)
  with a have "rs \<noteq> []" using merge_adjacent_regions_nonempty [of regions 5] by auto
  with a rs show "PatternMatchResult.warnings res = []"
    by (auto simp: detect_pattern_in_page_def)
next
  assume a: "regions \<noteq> [] \<and> scale_match scale = None"
  then obtain rs where rs: "convert_regions target_symbol scale (merge_adjacent_regions regions 5) = Inr rs"
    using convert_regions_unparsable by blast
  then have "length rs = length (merge_adjacent_regions regions 5)"
    by (rule convert_regions_length)
  with a have "rs \<noteq> []" using merge_adjacent_regions_nonempty [of regions 5] by auto
  then show "\<exists>res'. detect_pattern_in_page regions target_symbol scale page_no = Inr res'
               \<and> PatternMatchResult.warnings res' = []"
    using rs by (simp add: detect_pattern_in_page_def)
next
  have "scale_match ''1:100'' = Some ''100''"
    by (simp add: scale_match_def is_space_def is_digit_def)
  then have "parse_scale_factor ''1:100'' = Inr 100"
    by (simp add: parse_scale_factor_def py_int_def max_str_digits_def int_of_digits_def
        digit_value_def)
  then have "convert_to_meters 100 ''1:100'' 72 = Inr (100 * 25.4 / 72 * real 100 / 1000)"
    using not_float_overflows_100 by (intro convert_to_meters_ok) simp_all
  then have "convert_to_meters 100 ''1:100'' 72 = Inr (127 / 36)" by simp
  moreover have "\<bar>(127 / 36 :: real) - 3.528\<bar> < 0.001" by simp
  ultimately show "\<exists>m. convert_to_meters 100 ''1:100'' 72 = Inr m \<and> \<bar>m - 3.528\<bar> < 0.001"
    by blast
qed

text \<open>
  The amended claim at resolution 150, the scale strings \<open>1:50\<close> and \<open>abc\<close>, and a page
  with one region: 300 units are 2.54 m at 1:50, and the unparsable scale gives 5.08 m and
  leaves the warnings of the page result empty.
\<close>

theorem convert_to_meters_formula_witness:
  "(150 :: real) \<noteq> 0 \<and> ''50'' \<noteq> [] \<and> list_all is_digit ''50'' \<and> length ''50'' \<le> max_str_digits
   \<and> \<not> float_overflows (real 50)
   \<and> scale_match ''abc'' = None \<and> [fragment 0 0 10 2 1] \<noteq> []
   \<and> parse_scale_factor ''1:50'' = Inr 50
   \<and> convert_to_meters 300 ''1:50'' 150 = Inr (254 / 100)
   \<and> parse_scale_factor ''abc'' = Inr 100
   \<and> convert_to_meters 300 ''abc'' 150 = Inr (508 / 100)
   \<and> (\<exists>res. detect_pattern_in_page [fragment 0 0 10 2 1] drywall_symbol ''abc'' 0 = Inr res
             \<and> PatternMatchResult.warnings res = [])"
proof -
  have h1: "(150 :: real) \<noteq> 0" by simp
  have h2: "''50'' \<noteq> [] \<and> list_all is_digit ''50'' \<and> length ''50'' \<le> max_str_digits"
    by (simp add: is_digit_def max_str_digits_def)
  have h3: "scale_match ''abc'' = None" by (rule scale_match_abc)
  have h4: "[fragment 0 0 10 2 1] \<noteq> []" by simp
  have h5: "\<not> float_overflows (real 50)" by (rule float_overflows_small) simp
  note a = convert_to_meters_formula [where page_dpi = 150 and len_px = 300 and scale = "''1:50''"
      and ds = "''50''" and n = 50 and regions = "[fragment 0 0 10 2 1]"]
  note b = convert_to_meters_formula [where page_dpi = 150 and len_px = 300 and scale = "''abc''"
      and ds = "''50''" and regions = "[fragment 0 0 10 2 1]" and target_symbol = drywall_symbol
      and page_no = 0]
  have n50: "parse_scale_factor (''1:'' @ ''50'') = Inr (int_of_digits ''50'')"
    using a h2 by blast
  have v50: "int_of_digits ''50'' = 50" by (simp add: int_of_digits_def digit_value_def)
  have p50: "parse_scale_factor ''1:50'' = Inr 50" using n50 v50 by simp
  have "convert_to_meters 300 ''1:50'' 150 = Inr (300 * 25.4 / 150 * real 50 / 1000)"
    using a h1 p50 h5 by blast
  then have c1: "convert_to_meters 300 ''1:50'' 150 = Inr (254 / 100)" by simp
  have c2: "parse_scale_factor ''abc'' = Inr 100" using b h3 by blast
  have "convert_to_meters 300 ''abc'' 150 = Inr (300 * 25.4 / 150 * 100 / 1000)"
    using b h1 h3 by blast
  then have c3: "convert_to_meters 300 ''abc'' 150 = Inr (508 / 100)" by simp
  have c4: "\<exists>res. detect_pattern_in_page [fragment 0 0 10 2 1] drywall_symbol ''abc'' 0 = Inr res
             \<and> PatternMatchResult.warnings res = []"
    using b h3 h4 by blast
  show ?thesis using h1 h2 h3 h4 h5 p50 c1 c2 c3 c4 by blast
qed

subsection \<open>C5: the region length\<close>

lemma region_scan_l_shaped:
  "region_scan (items l_shaped_polyline) = (15, [0, 10, 10, 10], [0, 0, 0, 5], Point 10 5)"
  by (simp add: l_shaped_polyline_def region_scan_def region_step_def)

text \<open>
  Claim C5 as stated fails for open polylines: the L-shaped polyline of two segments of
  lengths 10 and 5 has segment lengths summing to 15, and its region length is 10, the
  longer side of its bounding box.
\<close>

theorem calculate_region_length_polyline_counterexample:
  "calculate_region_length l_shaped_polyline = 10 \<and> accumulated_length l_shaped_polyline = 15"
  by (simp add: calculate_region_length_def accumulated_length_def region_scan_l_shaped)

lemma region_step_inv: "scan_inv st \<Longrightarrow> scan_inv (region_step st it)"
  by (cases st; cases it)
     (auto simp: scan_inv_def region_step_def Let_def split: pdf_arg.splits)

lemma foldl_region_step_inv: "scan_inv st \<Longrightarrow> scan_inv (foldl region_step st its)"
  by (induction its arbitrary: st) (auto simp: region_step_inv)

lemma region_scan_inv: "scan_inv (region_scan its)"
  unfolding region_scan_def by (rule foldl_region_step_inv) (simp add: scan_inv_def)

lemma region_step_segment:
  "region_step (t, xs, ys, cp) (''l'', [Point a b, Point c d])
     = (t + sqrt ((c - a) * (c - a) + (d - b) * (d - b)), xs @ [a, c], ys @ [b, d], Point c d)"
  by (simp add: region_step_def Let_def)

lemma foldl_segment_items:
  "\<exists>t' cp'. foldl region_step (t, xs, ys, cp) (segment_items segs)
     = (t', xs @ concat (map (\<lambda>(a, b, c, e). [a, c]) segs),
            ys @ concat (map (\<lambda>(a, b, c, e). [b, e]) segs), cp')"
proof (induction segs arbitrary: t xs ys cp)
  case Nil
  then show ?case by (simp add: segment_items_def)
next
  case (Cons s segs)
  obtain a b c e where s: "s = (a, b, c, e)" by (cases s) auto
  have "segment_items (s # segs) = (''l'', [Point a b, Point c e]) # segment_items segs"
    by (simp add: segment_items_def s)
  then show ?case
    using Cons.IH [of "t + sqrt ((c - a) * (c - a) + (e - b) * (e - b))"
        "xs @ [a, c]" "ys @ [b, e]" "Point c e"]
    by (simp add: region_step_segment s)
qed

text \<open>
  Claim C5, amended. For every drawing the region length is the longer bounding-box span
  (the maximum of the x-extent and the y-extent) of all the coordinates the scan collects
  from the move, line and rectangle items, whether the shape is open or closed, and it is
  0 when there are no coordinates; the sum of segment lengths is never returned. In
  particular, for a path given by a non-empty list of straight segments it is the longer
  span of the segments' endpoints.
\<close>

theorem calculate_region_length_is_bbox_span:
  "calculate_region_length d =
     (case region_scan (items d) of
        (total_length, x_coords, y_coords, current_pos) \<Rightarrow>
          if x_coords = [] then 0
          else max (Max (set x_coords) - Min (set x_coords))
                   (Max (set y_coords) - Min (set y_coords)))
   \<and> (segs \<noteq> [] \<and> items d = segment_items segs \<longrightarrow>
        calculate_region_length d =
          max (Max (set (concat (map (\<lambda>(a, b, c, e). [a, c]) segs)))
                 - Min (set (concat (map (\<lambda>(a, b, c, e). [a, c]) segs))))
              (Max (set (concat (map (\<lambda>(a, b, c, e). [b, e]) segs)))
                 - Min (set (concat (map (\<lambda>(a, b, c, e). [b, e]) segs)))))"
proof (intro conjI impI)
  obtain t xs ys cp where st: "region_scan (items d) = (t, xs, ys, cp)"
    by (cases "region_scan (items d)") auto
  have "scan_inv (t, xs, ys, cp)" using region_scan_inv [of "items d"] st by simp
  then show "calculate_region_length d =
     (case region_scan (items d) of
        (total_length, x_coords, y_coords, current_pos) \<Rightarrow>
          if x_coords = [] then 0
          else max (Max (set x_coords) - Min (set x_coords))
                   (Max (set y_coords) - Min (set y_coords)))"
    by (auto simp: calculate_region_length_def st scan_inv_def Let_def)
next
  assume h: "segs \<noteq> [] \<and> items d = segment_items segs"
  obtain t' cp' where st: "region_scan (items d)
     = (t', concat (map (\<lambda>(a, b, c, e). [a, c]) segs),
            concat (map (\<lambda>(a, b, c, e). [b, e]) segs), cp')"
    using foldl_segment_items [of 0 "[]" "[]" PyNone segs] h by (auto simp: region_scan_def)
  obtain s rest where segs: "segs = s # rest" using h by (cases segs) auto
  obtain a b c e where s: "s = (a, b, c, e)" by (cases s) auto
  have ne: "concat (map (\<lambda>(a, b, c, e). [a, c]) segs) \<noteq> []"
           "concat (map (\<lambda>(a, b, c, e). [b, e]) segs) \<noteq> []"
    by (simp_all add: segs s)
  show "calculate_region_length d =
          max (Max (set (concat (map (\<lambda>(a, b, c, e). [a, c]) segs)))
                 - Min (set (concat (map (\<lambda>(a, b, c, e). [a, c]) segs))))
              (Max (set (concat (map (\<lambda>(a, b, c, e). [b, e]) segs)))
                 - Min (set (concat (map (\<lambda>(a, b, c, e). [b, e]) segs))))"
    using ne by (simp add: calculate_region_length_def st Let_def)
qed

text \<open>The amended claim at a closed path: the four sides of a 20 by 4 rectangle.\<close>

theorem calculate_region_length_is_bbox_span_witness:
  "[(0, 0, 20, 0), (20, 0, 20, 4), (20, 4, 0, 4), (0, 4, 0, 0)] \<noteq> ([] :: line list)
   \<and> calculate_region_length
        \<lparr> items = segment_items [(0, 0, 20, 0), (20, 0, 20, 4), (20, 4, 0, 4), (0, 4, 0, 0)],
          color = None, fill = None, rect = None \<rparr> = 20"
proof -
  let ?segs = "[(0, 0, 20, 0), (20, 0, 20, 4), (20, 4, 0, 4), (0, 4, 0, 0)] :: line list"
  let ?d = "\<lparr> items = segment_items ?segs, color = None, fill = None, rect = None \<rparr>"
  have h: "?segs \<noteq> [] \<and> items ?d = segment_items ?segs" by simp
  from calculate_region_length_is_bbox_span [of ?d ?segs] h
  have "calculate_region_length ?d =
          max (Max (set (concat (map (\<lambda>(a, b, c, e). [a, c]) ?segs)))
                 - Min (set (concat (map (\<lambda>(a, b, c, e). [a, c]) ?segs))))
              (Max (set (concat (map (\<lambda>(a, b, c, e). [b, e]) ?segs)))
                 - Min (set (concat (map (\<lambda>(a, b, c, e). [b, e]) ?segs))))"
    by blast
  then show ?thesis by simp
qed

subsection \<open>C6: merging of adjacent regions\<close>

lemma merge_run_single: "merge_run [r] = r"
  by (simp add: merge_run_def)

lemma merge_run_snoc: "run \<noteq> [] \<Longrightarrow> merge_run (run @ [r]) = merge_pair (merge_run run) r"
  by (cases run) (simp_all add: merge_run_def)

lemma merge_loop_split_runs:
  "run \<noteq> [] \<Longrightarrow>
   merge_loop md (merge_run run) merged rest = merged @ map merge_run (split_runs md run rest)"
proof (induction rest arbitrary: run merged)
  case Nil
  then show ?case by simp
next
  case (Cons region rest)
  show ?case
  proof (cases "x_gap (merge_run run) region \<le> md \<and> y_gap (merge_run run) region \<le> md")
    case True
    have "merge_loop md (merge_run (run @ [region])) merged rest
            = merged @ map merge_run (split_runs md (run @ [region]) rest)"
      by (rule Cons.IH) simp
    with True Cons.prems show ?thesis by (simp add: merge_run_snoc)
  next
    case False
    have "merge_loop md (merge_run [region]) (merged @ [merge_run run]) rest
            = (merged @ [merge_run run]) @ map merge_run (split_runs md [region] rest)"
      by (rule Cons.IH) simp
    with False show ?thesis by (auto simp: merge_run_single)
  qed
qed

lemma split_runs_concat: "concat (split_runs md run rest) = run @ rest"
  by (induction rest arbitrary: run) auto

lemma split_runs_nonempty: "run \<noteq> [] \<Longrightarrow> [] \<notin> set (split_runs md run rest)"
  by (induction rest arbitrary: run) auto

lemma merge_run_length_px:
  "run \<noteq> [] \<Longrightarrow> length_px (merge_run run) = sum_list (map length_px run)"
  by (induction run rule: rev_nonempty_induct)
     (simp_all add: merge_run_single merge_run_snoc merge_pair_def)

lemma foldl_merge_pair_confidence:
  "DetectedRegion.confidence (foldl merge_pair a rs)
     = running_mean (DetectedRegion.confidence a) (map DetectedRegion.confidence rs)"
  by (induction rs arbitrary: a) (simp_all add: merge_pair_def)

lemma merge_run_confidence:
  "DetectedRegion.confidence (merge_run run)
     = running_mean (DetectedRegion.confidence (hd run)) (map DetectedRegion.confidence (tl run))"
  by (simp add: merge_run_def foldl_merge_pair_confidence)

lemma merge_run_bbox:
  "run \<noteq> [] \<Longrightarrow>
   DetectedRegion.bbox (merge_run run)
     = \<lparr> x0 = Min (set (map (\<lambda>r. x0 (DetectedRegion.bbox r)) run)),
         y0 = Min (set (map (\<lambda>r. y0 (DetectedRegion.bbox r)) run)),
         BoundingBox.x1 = Max (set (map (\<lambda>r. BoundingBox.x1 (DetectedRegion.bbox r)) run)),
         BoundingBox.y1 = Max (set (map (\<lambda>r. BoundingBox.y1 (DetectedRegion.bbox r)) run)) \<rparr>"
proof (induction run rule: rev_nonempty_induct)
  case (single r)
  then show ?case by (simp add: merge_run_single)
next
  case (snoc r run)
  then show ?case
    by (simp add: merge_run_snoc merge_pair_def min.commute max.commute)
qed

lemma three_fragments_sorted: "sort_by_position three_fragments = three_fragments"
  by (simp add: sort_by_position_def three_fragments_def fragment_def)

lemma split_runs_hd:
  "\<exists>more runs. split_runs md run rest = (run @ more) # runs"
proof (induction rest arbitrary: run)
  case Nil
  have "split_runs md run [] = (run @ []) # []" by simp
  then show ?case by blast
next
  case (Cons region rest)
  show ?case
  proof (cases "x_gap (merge_run run) region \<le> md \<and> y_gap (merge_run run) region \<le> md")
    case True
    obtain more runs where "split_runs md (run @ [region]) rest = ((run @ [region]) @ more) # runs"
      using Cons.IH by blast
    with True have "split_runs md run (region # rest) = (run @ (region # more)) # runs"
      by simp
    then show ?thesis by blast
  next
    case False
    then have "split_runs md run (region # rest) = (run @ []) # split_runs md [region] rest"
      by auto
    then show ?thesis by blast
  qed
qed

lemma adjacent_gaps:
  "adjacent md current region \<Longrightarrow> x_gap current region \<le> md \<and> y_gap current region \<le> md"
  by (auto simp: adjacent_def axis_gap_def x_gap_def y_gap_def)

lemma split_runs_separated: "run \<noteq> [] \<Longrightarrow> separated md (split_runs md run rest)"
proof (induction rest arbitrary: run)
  case Nil
  then show ?case by simp
next
  case (Cons region rest)
  show ?case
  proof (cases "x_gap (merge_run run) region \<le> md \<and> y_gap (merge_run run) region \<le> md")
    case True
    have "separated md (split_runs md (run @ [region]) rest)" by (rule Cons.IH) simp
    with True show ?thesis by simp
  next
    case False
    obtain more runs where t: "split_runs md [region] rest = ([region] @ more) # runs"
      using split_runs_hd by blast
    have ih: "separated md (split_runs md [region] rest)" by (rule Cons.IH) simp
    have na: "\<not> adjacent md (merge_run run) region" using False adjacent_gaps by blast
    have "split_runs md run (region # rest) = run # split_runs md [region] rest"
      using False by auto
    then show ?thesis using ih na t by simp
  qed
qed

lemma concat_two:
  assumes "concat runs = [a, b]" "[] \<notin> set runs"
  shows "runs = [[a, b]] \<or> runs = [[a], [b]]"
proof (cases runs)
  case Nil
  with assms show ?thesis by simp
next
  case (Cons r rs)
  with assms have r: "r \<noteq> []" and c: "r @ concat rs = [a, b]" and rs: "[] \<notin> set rs"
    by auto
  show ?thesis
  proof (cases rs)
    case Nil
    with c Cons show ?thesis by simp
  next
    case (Cons r2 rs2)
    with rs have r2: "r2 \<noteq> []" and rs2: "[] \<notin> set rs2" by auto
    from c Cons have c2: "r @ r2 @ concat rs2 = [a, b]" by simp
    then have "length r + length r2 + length (concat rs2) = 2"
      by (metis length_append length_Cons list.size(3) numeral_2_eq_2 add.assoc)
    moreover have "length r \<ge> 1" "length r2 \<ge> 1" using r r2 by (simp_all add: Suc_le_eq)
    ultimately have l: "length r = 1" "length r2 = 1" and l0: "length (concat rs2) = 0"
      by linarith+
    from l0 have l3: "concat rs2 = []" by simp
    with rs2 have "rs2 = []" by (cases rs2) auto
    moreover from l c2 l3 have "r = [a] \<and> r2 = [b]"
      by (cases r; cases r2) auto
    ultimately show ?thesis using \<open>runs = r # rs\<close> Cons by simp
  qed
qed

text \<open>
  Claim C6 as stated fails. Three fragments in a row with confidences 1, 1 and 0.4 merge
  into one region of confidence 0.7, while the average of the three is 0.8. And a region
  adjacent to no other region is not always returned unchanged: the small fragment is
  adjacent neither to the tall nor to the wide one, yet it is merged with them, because it
  is adjacent to the region the two were merged into.
\<close>

theorem merge_adjacent_regions_average_counterexample:
  "map DetectedRegion.confidence (merge_adjacent_regions three_fragments 5) = [7 / 10]
   \<and> sum_list (map DetectedRegion.confidence three_fragments) / 3 = 8 / 10
   \<and> \<not> adjacent 5 tall_fragment inner_fragment
   \<and> \<not> adjacent 5 wide_fragment inner_fragment
   \<and> adjacent 5 tall_fragment wide_fragment
   \<and> adjacent 5 (merge_run [tall_fragment, wide_fragment]) inner_fragment
   \<and> map DetectedRegion.bbox
         (merge_adjacent_regions [tall_fragment, wide_fragment, inner_fragment] 5)
      = [\<lparr> x0 = 0, y0 = 0, BoundingBox.x1 = 100, BoundingBox.y1 = 100 \<rparr>]"
proof (intro conjI)
  have "merge_adjacent_regions three_fragments 5
          = merge_loop 5 (fragment 0 0 10 2 1) [] [fragment 10 0 20 2 1, fragment 20 0 30 2 (2 / 5)]"
    unfolding merge_adjacent_regions_def three_fragments_sorted
    by (simp add: three_fragments_def)
  then show "map DetectedRegion.confidence (merge_adjacent_regions three_fragments 5) = [7 / 10]"
    by (simp add: fragment_def x_gap_def y_gap_def merge_pair_def)
  show "sum_list (map DetectedRegion.confidence three_fragments) / 3 = 8 / 10"
    by (simp add: three_fragments_def fragment_def)
  show "\<not> adjacent 5 tall_fragment inner_fragment"
    by (simp add: adjacent_def axis_gap_def tall_fragment_def inner_fragment_def fragment_def)
  show "\<not> adjacent 5 wide_fragment inner_fragment"
    by (simp add: adjacent_def axis_gap_def wide_fragment_def inner_fragment_def fragment_def)
  show "adjacent 5 tall_fragment wide_fragment"
    by (simp add: adjacent_def axis_gap_def tall_fragment_def wide_fragment_def fragment_def)
  show "adjacent 5 (merge_run [tall_fragment, wide_fragment]) inner_fragment"
    by (simp add: adjacent_def axis_gap_def merge_run_def merge_pair_def tall_fragment_def
        wide_fragment_def inner_fragment_def fragment_def)
  have srt: "sort_by_position [tall_fragment, wide_fragment, inner_fragment]
               = [tall_fragment, wide_fragment, inner_fragment]"
    by (simp add: sort_by_position_def tall_fragment_def wide_fragment_def inner_fragment_def
        fragment_def)
  have "merge_adjacent_regions [tall_fragment, wide_fragment, inner_fragment] 5
          = merge_loop 5 tall_fragment [] [wide_fragment, inner_fragment]"
    unfolding merge_adjacent_regions_def srt by simp
  then show "map DetectedRegion.bbox
         (merge_adjacent_regions [tall_fragment, wide_fragment, inner_fragment] 5)
      = [\<lparr> x0 = 0, y0 = 0, BoundingBox.x1 = 100, BoundingBox.y1 = 100 \<rparr>]"
    by (simp add: tall_fragment_def wide_fragment_def inner_fragment_def fragment_def
        x_gap_def y_gap_def merge_pair_def)
qed

text \<open>
  Claim C6, amended. A list of at most one region is returned as it is. A longer list is
  sorted by (y0, x0) and swept once, which cuts it into runs of consecutive regions; the
  result has one region per run, in order. A region whose gap to the region accumulated so
  far is at most the merge distance on both axes always joins the current run: a new run
  starts only at a region that is not adjacent to the accumulated one. A run of one region
  is returned unchanged. The region of a run has the union of the run's bounding boxes,
  the sum of the run's lengths, and as confidence the running pairwise mean
  \<open>((c1 + c2)/2 + c3)/2 ...\<close>, which is the average for a run of two.
\<close>

theorem merge_adjacent_regions_runs:
  "(length regions \<le> 1 \<longrightarrow> merge_adjacent_regions regions md = regions)
   \<and> (length regions > 1 \<longrightarrow>
        (\<exists>runs. concat runs = sort_by_position regions \<and> [] \<notin> set runs
               \<and> separated md runs
               \<and> merge_adjacent_regions regions md = map merge_run runs))
   \<and> merge_run [r] = r
   \<and> DetectedRegion.confidence (merge_run [a, b])
        = (DetectedRegion.confidence a + DetectedRegion.confidence b) / 2
   \<and> (run \<noteq> [] \<longrightarrow>
        DetectedRegion.bbox (merge_run run)
          = \<lparr> x0 = Min (set (map (\<lambda>r. x0 (DetectedRegion.bbox r)) run)),
              y0 = Min (set (map (\<lambda>r. y0 (DetectedRegion.bbox r)) run)),
              BoundingBox.x1 = Max (set (map (\<lambda>r. BoundingBox.x1 (DetectedRegion.bbox r)) run)),
              BoundingBox.y1 = Max (set (map (\<lambda>r. BoundingBox.y1 (DetectedRegion.bbox r)) run)) \<rparr>
        \<and> length_px (merge_run run) = sum_list (map length_px run)
        \<and> DetectedRegion.confidence (merge_run run)
            = running_mean (DetectedRegion.confidence (hd run))
                (map DetectedRegion.confidence (tl run)))"
proof (intro conjI impI)
  assume "length regions \<le> 1"
  then show "merge_adjacent_regions regions md = regions"
    by (simp add: merge_adjacent_regions_def)
next
  assume len: "length regions > 1"
  let ?s = "sort_by_position regions"
  have "length ?s = length regions" by (simp add: sort_by_position_def)
  with len obtain c rest where s: "?s = c # rest" by (cases ?s) auto
  have "merge_loop md (merge_run [c]) [] rest = [] @ map merge_run (split_runs md [c] rest)"
    by (rule merge_loop_split_runs) simp
  then have m: "merge_adjacent_regions regions md = map merge_run (split_runs md [c] rest)"
    using len s by (simp add: merge_adjacent_regions_def merge_run_single)
  have "concat (split_runs md [c] rest) = ?s" using s by (simp add: split_runs_concat)
  moreover have "[] \<notin> set (split_runs md [c] rest)" by (rule split_runs_nonempty) simp
  moreover have "separated md (split_runs md [c] rest)" by (rule split_runs_separated) simp
  ultimately show "\<exists>runs. concat runs = ?s \<and> [] \<notin> set runs \<and> separated md runs
               \<and> merge_adjacent_regions regions md = map merge_run runs"
    using m by blast
next
  show "merge_run [r] = r" by (rule merge_run_single)
next
  show "DetectedRegion.confidence (merge_run [a, b])
        = (DetectedRegion.confidence a + DetectedRegion.confidence b) / 2"
    by (simp add: merge_run_def merge_pair_def)
next
  assume "run \<noteq> []"
  then show "DetectedRegion.bbox (merge_run run)
          = \<lparr> x0 = Min (set (map (\<lambda>r. x0 (DetectedRegion.bbox r)) run)),
              y0 = Min (set (map (\<lambda>r. y0 (DetectedRegion.bbox r)) run)),
              BoundingBox.x1 = Max (set (map (\<lambda>r. BoundingBox.x1 (DetectedRegion.bbox r)) run)),
              BoundingBox.y1 = Max (set (map (\<lambda>r. BoundingBox.y1 (DetectedRegion.bbox r)) run)) \<rparr>"
    by (rule merge_run_bbox)
next
  assume "run \<noteq> []"
  then show "length_px (merge_run run) = sum_list (map length_px run)"
    by (rule merge_run_length_px)
next
  show "DetectedRegion.confidence (merge_run run)
            = running_mean (DetectedRegion.confidence (hd run))
                (map DetectedRegion.confidence (tl run))"
    by (rule merge_run_confidence)
qed

text \<open>
  The amended claim at two touching fragments with confidences 1 and 0.4 (they are
  adjacent, so they form one run: one region of length 20 and confidence 0.7, the average
  of the two) and at the single fragment, returned as it is.
\<close>

theorem merge_adjacent_regions_runs_witness:
  "length [fragment 0 0 10 2 1] \<le> 1
   \<and> length [fragment 0 0 10 2 1, fragment 10 0 20 2 (2 / 5)] > 1
   \<and> [fragment 0 0 10 2 1, fragment 10 0 20 2 (2 / 5)] \<noteq> []
   \<and> adjacent 5 (fragment 0 0 10 2 1) (fragment 10 0 20 2 (2 / 5))
   \<and> merge_adjacent_regions [fragment 0 0 10 2 1] 5 = [fragment 0 0 10 2 1]
   \<and> merge_adjacent_regions [fragment 0 0 10 2 1, fragment 10 0 20 2 (2 / 5)] 5
       = [merge_run [fragment 0 0 10 2 1, fragment 10 0 20 2 (2 / 5)]]
   \<and> length_px (merge_run [fragment 0 0 10 2 1, fragment 10 0 20 2 (2 / 5)]) = 20
   \<and> DetectedRegion.confidence (merge_run [fragment 0 0 10 2 1, fragment 10 0 20 2 (2 / 5)])
       = 7 / 10"
proof -
  let ?a = "fragment 0 0 10 2 1"
  let ?b = "fragment 10 0 20 2 (2 / 5)"
  note one = merge_adjacent_regions_runs [where regions = "[?a]" and md = 5 and run = "[?a, ?b]"
      and a = ?a and b = ?b]
  note two = merge_adjacent_regions_runs [where regions = "[?a, ?b]" and md = 5
      and run = "[?a, ?b]" and a = ?a and b = ?b and r = ?a]
  have h1: "length [?a] \<le> 1" by simp
  have h2: "length [?a, ?b] > 1" by simp
  have h3: "[?a, ?b] \<noteq> []" by simp
  have adj: "adjacent 5 ?a ?b" by (simp add: adjacent_def axis_gap_def fragment_def)
  have c1: "merge_adjacent_regions [?a] 5 = [?a]" using one h1 by blast
  have srt: "sort_by_position [?a, ?b] = [?a, ?b]"
    by (simp add: sort_by_position_def fragment_def)
  obtain runs where cc: "concat runs = sort_by_position [?a, ?b]" and ne: "[] \<notin> set runs"
    and sep: "separated 5 runs" and res: "merge_adjacent_regions [?a, ?b] 5 = map merge_run runs"
    using two h2 by blast
  have single: "merge_run [?a] = ?a" using two by blast
  from cc srt have "concat runs = [?a, ?b]" by simp
  then have "runs = [[?a, ?b]] \<or> runs = [[?a], [?b]]" using ne by (rule concat_two)
  moreover have "runs \<noteq> [[?a], [?b]]"
  proof
    assume "runs = [[?a], [?b]]"
    with sep have "\<not> adjacent 5 (merge_run [?a]) ?b" by simp
    with single adj show False by simp
  qed
  ultimately have "runs = [[?a, ?b]]" by blast
  with res have c2: "merge_adjacent_regions [?a, ?b] 5 = [merge_run [?a, ?b]]" by simp
  have "length_px (merge_run [?a, ?b]) = sum_list (map length_px [?a, ?b])"
    using two h3 by blast
  then have c3: "length_px (merge_run [?a, ?b]) = 20" by (simp add: fragment_def)
  have "DetectedRegion.confidence (merge_run [?a, ?b])
          = (DetectedRegion.confidence ?a + DetectedRegion.confidence ?b) / 2"
    using two by blast
  then have c4: "DetectedRegion.confidence (merge_run [?a, ?b]) = 7 / 10"
    by (simp add: fragment_def)
  show ?thesis using h1 h2 h3 adj c1 c2 c3 c4 by blast
qed

subsection \<open>Facts about the associator and the deduplication\<close>

lemma well_formed_matched [simp]: "well_formed (matched_door eid l g)"
  by (simp add: well_formed_def matched_door_def)

lemma well_formed_geometry_only [simp]: "well_formed (geometry_only_door eid g)"
  by (simp add: well_formed_def geometry_only_door_def)

lemma well_formed_label_only [simp]: "well_formed (label_only_door eid l)"
  by (simp add: well_formed_def label_only_door_def)

lemma match_labels_well_formed:
  "match_labels uuid maxd gs ils (doors, mg, ml) = (doors', mg', ml') \<Longrightarrow>
   \<forall>d \<in> set doors. well_formed d \<Longrightarrow> \<forall>d \<in> set doors'. well_formed d"
proof (induction ils arbitrary: doors mg ml)
  case Nil
  then show ?case by simp
next
  case (Cons il ils)
  obtain i l where il: "il = (i, l)" by (cases il) auto
  show ?case
  proof (cases "find_nearest (label_center l) maxd mg gs None")
    case None
    with Cons il show ?thesis by simp
  next
    case (Some a)
    obtain g dist where a: "a = (g, dist)" by (cases a) auto
    have step: "match_labels uuid maxd gs ils
             (doors @ [matched_door (new_id uuid doors) l g], insert (geometry_id g) mg, insert i ml)
           = (doors', mg', ml')"
      using Cons.prems(1) il Some a by simp
    have "\<forall>d \<in> set (doors @ [matched_door (new_id uuid doors) l g]). well_formed d"
      using Cons.prems(2) by simp
    with Cons.IH [OF step] show ?thesis by blast
  qed
qed

lemma add_unmatched_geometries_well_formed:
  "\<forall>d \<in> set doors. well_formed d \<Longrightarrow>
   \<forall>d \<in> set (add_unmatched_geometries uuid mg gs doors). well_formed d"
proof (induction gs arbitrary: doors)
  case Nil
  then show ?case by simp
next
  case (Cons g gs)
  show ?case
  proof (cases "geometry_id g \<notin> mg")
    case True
    have "\<forall>d \<in> set (doors @ [geometry_only_door (new_id uuid doors) g]). well_formed d"
      using Cons.prems by simp
    from Cons.IH [OF this] True show ?thesis by simp
  next
    case False
    with Cons.IH [OF Cons.prems] show ?thesis by simp
  qed
qed

lemma add_unmatched_labels_well_formed:
  "add_unmatched_labels uuid ml idxs (labels, doors) = (labels', doors') \<Longrightarrow>
   \<forall>d \<in> set doors. well_formed d \<Longrightarrow> \<forall>d \<in> set doors'. well_formed d"
proof (induction idxs arbitrary: labels doors)
  case Nil
  then show ?case by simp
next
  case (Cons i idxs)
  show ?case
  proof (cases "i \<notin> ml \<and> (DoorLabel.pattern_type (labels ! i) = ''room_door''
                 \<or> door_number_search (label_text (labels ! i)))")
    case True
    let ?l' = "backfill (labels ! i) labels"
    have step: "add_unmatched_labels uuid ml idxs
             (labels[i := ?l'], doors @ [label_only_door (new_id uuid doors) ?l']) = (labels', doors')"
      using Cons.prems(1) True by (auto simp: Let_def)
    have "\<forall>d \<in> set (doors @ [label_only_door (new_id uuid doors) ?l']). well_formed d"
      using Cons.prems(2) by simp
    with Cons.IH [OF step] show ?thesis by blast
  next
    case False
    then have "add_unmatched_labels uuid ml idxs (labels, doors) = (labels', doors')"
      using Cons.prems(1) by (auto simp: Let_def split: if_splits)
    with Cons.IH Cons.prems(2) show ?thesis by blast
  qed
qed

lemma associate_well_formed:
  "\<forall>d \<in> set (fst (associate_labels_with_geometries uuid labels geometries maxd)). well_formed d"
proof -
  let ?gs = "sort_by_confidence geometries"
  obtain d1 mg ml where p1: "match_labels uuid maxd ?gs (enumerate_labels labels) ([], {}, {}) = (d1, mg, ml)"
    by (metis prod_cases3)
  obtain ls' d3 where p3: "add_unmatched_labels uuid ml [0..<length labels]
        (labels, add_unmatched_geometries uuid mg ?gs d1) = (ls', d3)"
    by (metis surj_pair)
  have w1: "\<forall>d \<in> set d1. well_formed d" using match_labels_well_formed [OF p1] by simp
  have w2: "\<forall>d \<in> set (add_unmatched_geometries uuid mg ?gs d1). well_formed d"
    using add_unmatched_geometries_well_formed [OF w1] .
  have w3: "\<forall>d \<in> set d3. well_formed d" using add_unmatched_labels_well_formed [OF p3 w2] .
  have "fst (associate_labels_with_geometries uuid labels geometries maxd) = d3"
    by (simp add: associate_labels_with_geometries_def Let_def p1 p3)
  with w3 show ?thesis by simp
qed

lemma set_dimensions_keeps [simp]:
  "label (set_dimensions e sc) = label e"
  "geometry (set_dimensions e sc) = geometry e"
  "extraction_method (set_dimensions e sc) = extraction_method e"
  "DoorExtraction.confidence (set_dimensions e sc) = DoorExtraction.confidence e"
  "extraction_id (set_dimensions e sc) = extraction_id e"
  by (simp_all add: set_dimensions_def split: option.splits)

lemma set_door_type_keeps [simp]:
  "label (set_door_type e) = label e"
  "geometry (set_door_type e) = geometry e"
  "extraction_method (set_door_type e) = extraction_method e"
  "DoorExtraction.confidence (set_door_type e) = DoorExtraction.confidence e"
  "extraction_id (set_door_type e) = extraction_id e"
  by (simp_all add: set_door_type_def split: option.splits)

lemma set_fire_rating_keeps [simp]:
  "label (set_fire_rating e) = label e"
  "geometry (set_fire_rating e) = geometry e"
  "extraction_method (set_fire_rating e) = extraction_method e"
  "DoorExtraction.confidence (set_fire_rating e) = DoorExtraction.confidence e"
  "extraction_id (set_fire_rating e) = extraction_id e"
  by (simp_all add: set_fire_rating_def split: option.splits)

lemma set_door_number_keeps [simp]:
  "label (set_door_number e) = label e"
  "geometry (set_door_number e) = geometry e"
  "extraction_method (set_door_number e) = extraction_method e"
  "DoorExtraction.confidence (set_door_number e) = DoorExtraction.confidence e"
  "extraction_id (set_door_number e) = extraction_id e"
  by (simp_all add: set_door_number_def split: option.splits)

lemma set_category_keeps [simp]:
  "label (set_category e) = label e"
  "geometry (set_category e) = geometry e"
  "extraction_method (set_category e) = extraction_method e"
  "DoorExtraction.confidence (set_category e) = DoorExtraction.confidence e"
  "extraction_id (set_category e) = extraction_id e"
  "door_number (set_category e) = door_number e"
  by (simp_all add: set_category_def)

lemma set_scale_context_id_keeps [simp]:
  "label (set_scale_context_id e sc) = label e"
  "geometry (set_scale_context_id e sc) = geometry e"
  "extraction_method (set_scale_context_id e sc) = extraction_method e"
  "DoorExtraction.confidence (set_scale_context_id e sc) = DoorExtraction.confidence e"
  "extraction_id (set_scale_context_id e sc) = extraction_id e"
  "door_number (set_scale_context_id e sc) = door_number e"
  by (simp_all add: set_scale_context_id_def split: option.splits)

lemma extract_door_attributes_keeps:
  "label (extract_door_attributes e sc) = label e"
  "geometry (extract_door_attributes e sc) = geometry e"
  "extraction_method (extract_door_attributes e sc) = extraction_method e"
  "DoorExtraction.confidence (extract_door_attributes e sc) = DoorExtraction.confidence e"
  "extraction_id (extract_door_attributes e sc) = extraction_id e"
  by (simp_all add: extract_door_attributes_def)

lemma extract_door_attributes_door_number:
  "door_number (extract_door_attributes e sc)
     = (case label e of Some l \<Rightarrow> Some (label_text l) | None \<Rightarrow> door_number e)"
  by (simp add: extract_door_attributes_def set_door_number_def set_fire_rating_def
      set_door_type_def set_dimensions_def split: option.splits)

lemma well_formed_extract_door_attributes:
  "well_formed (extract_door_attributes e sc) = well_formed e"
  by (simp add: well_formed_def extract_door_attributes_keeps)

lemma set_dict_set: "(k', v') \<in> set (dict_set k v kvs) \<Longrightarrow> v' = v \<or> (k', v') \<in> set kvs"
  by (induction kvs) (auto split: if_splits)

lemma dedup_step_subset: "snd ` set (dedup_step acc d) \<subseteq> insert d (snd ` set acc)"
proof
  fix x
  assume "x \<in> snd ` set (dedup_step acc d)"
  then obtain k where "(k, x) \<in> set (dedup_step acc d)" by auto
  then have "x = d \<or> (k, x) \<in> set acc"
    by (auto simp: dedup_step_def Let_def split: option.splits if_splits dest: set_dict_set)
  then show "x \<in> insert d (snd ` set acc)" by force
qed

lemma foldl_dedup_subset: "snd ` set (foldl dedup_step acc ds) \<subseteq> snd ` set acc \<union> set ds"
proof (induction ds arbitrary: acc)
  case Nil
  then show ?case by simp
next
  case (Cons d ds)
  show ?case using Cons.IH [of "dedup_step acc d"] dedup_step_subset [of acc d] by auto
qed

lemma dedup_doors_subset: "set (dedup_doors ds) \<subseteq> set ds"
  using foldl_dedup_subset [of "[]" ds] by (simp add: dedup_doors_def)

lemma well_formed_method:
  "well_formed d \<Longrightarrow>
   extraction_method d \<in> {''label_geometry_match'', ''geometry_only'', ''label_only''}"
  unfolding well_formed_def by blast

lemma well_formed_parts:
  "well_formed d \<Longrightarrow>
     (extraction_method d = ''label_geometry_match'' \<longrightarrow> label d \<noteq> None \<and> geometry d \<noteq> None)
   \<and> (extraction_method d = ''geometry_only'' \<longrightarrow> geometry d \<noteq> None)
   \<and> (extraction_method d = ''label_only'' \<longrightarrow> label d \<noteq> None)
   \<and> \<not> (label d = None \<and> geometry d = None)"
  by (auto simp: well_formed_def)

lemma associate_example:
  "associate_labels_with_geometries sample_uuid [wd_label] [arc_geometry] 150
     = ([matched_door ''door_00000000'' wd_label arc_geometry], [wd_label])"
proof -
  have cd: "center_distance (center arc_geometry) (label_center wd_label) = 5"
    by (simp add: center_distance_def label_center_def arc_geometry_def wd_label_def)
  have fn: "find_nearest (label_center wd_label) 150 {} [arc_geometry] None = Some (arc_geometry, 5)"
    by (simp add: cd)
  have id0: "new_id sample_uuid [] = ''door_00000000''"
    unfolding new_id_def sample_uuid_def by code_simp
  have npt: "DoorLabel.pattern_type wd_label \<noteq> ''room_door''" by (simp add: wd_label_def)
  show ?thesis
    by (simp add: associate_labels_with_geometries_def sort_by_confidence_def enumerate_labels_def
        cd id0 npt Let_def)
qed

lemma find_nearest_acc:
  assumes "find_nearest lc radius claimed gs nearest = result"
    and "\<And>ng nd. nearest = Some (ng, nd) \<Longrightarrow>
            nd = center_distance (center ng) lc \<and> (ng \<in> A \<and> candidate lc radius claimed ng)"
    and "set gs \<subseteq> A"
  shows "(result = None \<longleftrightarrow> nearest = None \<and> (\<forall>g \<in> set gs. \<not> candidate lc radius claimed g))
       \<and> (\<forall>g d. result = Some (g, d) \<longrightarrow>
             d = center_distance (center g) lc \<and> g \<in> A \<and> candidate lc radius claimed g
             \<and> (\<forall>g' \<in> set gs. candidate lc radius claimed g' \<longrightarrow> d \<le> center_distance (center g') lc)
             \<and> (\<forall>ng nd. nearest = Some (ng, nd) \<longrightarrow> d \<le> nd))"
  using assms
proof (induction gs arbitrary: nearest)
  case Nil
  then show ?case by auto
next
  case (Cons g gs)
  let ?dist = "center_distance (center g) lc"
  show ?case
  proof (cases "geometry_id g \<in> claimed")
    case True
    have r: "find_nearest lc radius claimed gs nearest = result" using Cons.prems(1) True by simp
    have sub: "set gs \<subseteq> A" using Cons.prems(3) by simp
    have ng: "\<not> candidate lc radius claimed g" using True by (simp add: candidate_def)
    from Cons.IH [OF r Cons.prems(2) sub] ng show ?thesis by auto
  next
    case unclaimed: False
    show ?thesis
    proof (cases "(case nearest of None \<Rightarrow> True | Some (ng, nd) \<Rightarrow> ?dist < nd) \<and> ?dist \<le> radius")
      case True
      have r: "find_nearest lc radius claimed gs (Some (g, ?dist)) = result"
        using Cons.prems(1) unclaimed True by (simp add: Let_def)
      have sub: "set gs \<subseteq> A" and gA: "g \<in> A" using Cons.prems(3) by simp_all
      have cg: "candidate lc radius claimed g" using unclaimed True by (simp add: candidate_def)
      have inv: "\<And>ng nd. Some (g, ?dist) = Some (ng, nd) \<Longrightarrow>
            nd = center_distance (center ng) lc \<and> (ng \<in> A \<and> candidate lc radius claimed ng)"
        using gA cg by auto
      from Cons.IH [OF r inv sub]
      have ih: "(result = None \<longleftrightarrow> Some (g, ?dist) = None \<and> (\<forall>g \<in> set gs. \<not> candidate lc radius claimed g))
       \<and> (\<forall>g' d. result = Some (g', d) \<longrightarrow>
             d = center_distance (center g') lc \<and> g' \<in> A \<and> candidate lc radius claimed g'
             \<and> (\<forall>g'' \<in> set gs. candidate lc radius claimed g'' \<longrightarrow> d \<le> center_distance (center g'') lc)
             \<and> (\<forall>ng nd. Some (g, ?dist) = Some (ng, nd) \<longrightarrow> d \<le> nd))" by simp
      have less: "\<And>ng nd d. nearest = Some (ng, nd) \<Longrightarrow> d \<le> ?dist \<Longrightarrow> d \<le> nd"
        using True by (auto split: option.splits)
      show ?thesis using ih cg less by (auto split: option.splits)
    next
      case False
      have r: "find_nearest lc radius claimed gs nearest = result"
        using Cons.prems(1) unclaimed False by (auto simp: Let_def)
      have sub: "set gs \<subseteq> A" using Cons.prems(3) by simp
      note ih = Cons.IH [OF r Cons.prems(2) sub]
      show ?thesis
      proof (cases "?dist \<le> radius")
        case far: False
        then have "\<not> candidate lc radius claimed g" by (simp add: candidate_def)
        with ih show ?thesis by auto
      next
        case True
        with False obtain ng nd where n: "nearest = Some (ng, nd)" and ge: "nd \<le> ?dist"
          by (cases nearest) (auto simp: not_less)
        from ih n ge show ?thesis by fastforce
      qed
    qed
  qed
qed

lemma find_nearest_None:
  "find_nearest lc radius claimed gs None = None \<Longrightarrow>
   \<forall>g \<in> set gs. geometry_id g \<in> claimed \<or> center_distance (center g) lc > radius"
  using find_nearest_acc [of lc radius claimed gs None None "set gs"]
  by (auto simp: candidate_def not_le)

lemma find_nearest_Some:
  assumes "find_nearest lc radius claimed gs None = Some (g, d)"
  shows "g \<in> set gs \<and> geometry_id g \<notin> claimed \<and> d = center_distance (center g) lc
       \<and> center_distance (center g) lc \<le> radius
       \<and> (\<forall>g' \<in> set gs. geometry_id g' \<notin> claimed \<and> center_distance (center g') lc \<le> radius
             \<longrightarrow> center_distance (center g) lc \<le> center_distance (center g') lc)"
  using find_nearest_acc [of lc radius claimed gs None "Some (g, d)" "set gs"] assms
  by (auto simp: candidate_def)

lemma match_labels_greedy:
  "match_labels uuid radius gs ils (doors, mg, ml) = (doors', mg', ml') \<Longrightarrow>
   \<exists>M. doors' = doors @ M \<and> greedy_match (set gs) radius (map snd ils) mg M mg'
        \<and> mg' = mg \<union> claimed_by M"
proof (induction ils arbitrary: doors mg ml)
  case Nil
  then show ?case by (auto simp: claimed_by_def intro: greedy_match.finished)
next
  case (Cons il ils)
  obtain i l where il: "il = (i, l)" by (cases il) auto
  show ?case
  proof (cases "find_nearest (label_center l) radius mg gs None")
    case None
    then have step: "match_labels uuid radius gs ils (doors, mg, ml) = (doors', mg', ml')"
      using Cons.prems il by simp
    from Cons.IH [OF step] obtain M where M: "doors' = doors @ M"
      "greedy_match (set gs) radius (map snd ils) mg M mg'" "mg' = mg \<union> claimed_by M" by blast
    have "greedy_match (set gs) radius (l # map snd ils) mg M mg'"
      using find_nearest_None [OF None] M(2) by (rule greedy_match.nothing_near)
    with M il show ?thesis by auto
  next
    case (Some a)
    obtain g dist where a: "a = (g, dist)" by (cases a) auto
    let ?d = "matched_door (new_id uuid doors) l g"
    have step: "match_labels uuid radius gs ils (doors @ [?d], insert (geometry_id g) mg, insert i ml)
           = (doors', mg', ml')"
      using Cons.prems il Some a by simp
    from Cons.IH [OF step] obtain M where M: "doors' = (doors @ [?d]) @ M"
      "greedy_match (set gs) radius (map snd ils) (insert (geometry_id g) mg) M mg'"
      "mg' = insert (geometry_id g) mg \<union> claimed_by M" by blast
    note fs = find_nearest_Some [OF Some [unfolded a]]
    have "greedy_match (set gs) radius (l # map snd ils) mg (?d # M) mg'"
    proof (rule greedy_match.paired [where g = g])
      show "g \<in> set gs" using fs by blast
      show "geometry_id g \<notin> mg" using fs by blast
      show "center_distance (center g) (label_center l) \<le> radius" using fs by blast
      show "\<forall>g' \<in> set gs. geometry_id g' \<notin> mg \<and> center_distance (center g') (label_center l) \<le> radius
              \<longrightarrow> center_distance (center g) (label_center l) \<le> center_distance (center g') (label_center l)"
        using fs by blast
      show "label ?d = Some l" by (simp add: matched_door_def)
      show "geometry ?d = Some g" by (simp add: matched_door_def)
      show "extraction_method ?d = ''label_geometry_match''" by (simp add: matched_door_def)
      show "DoorExtraction.confidence ?d = min (DoorLabel.confidence l) (DoorGeometry.confidence g)"
        by (simp add: matched_door_def)
      show "greedy_match (set gs) radius (map snd ils) (insert (geometry_id g) mg) M mg'"
        by (rule M(2))
    qed
    moreover have "mg' = mg \<union> claimed_by (?d # M)"
      using M(3) by (auto simp: claimed_by_def matched_door_def)
    ultimately show ?thesis using M(1) il by auto
  qed
qed

lemma add_unmatched_geometries_spec:
  "\<exists>G. add_unmatched_geometries uuid mg gs doors = doors @ G
       \<and> list_all2 (\<lambda>d g. \<exists>eid. d = geometry_only_door eid g) G
            (filter (\<lambda>g. geometry_id g \<notin> mg) gs)"
proof (induction gs arbitrary: doors)
  case Nil
  then show ?case by simp
next
  case (Cons g gs)
  show ?case
  proof (cases "geometry_id g \<notin> mg")
    case True
    let ?d = "geometry_only_door (new_id uuid doors) g"
    from Cons.IH [of "doors @ [?d]"] obtain G where
      G: "add_unmatched_geometries uuid mg gs (doors @ [?d]) = (doors @ [?d]) @ G"
         "list_all2 (\<lambda>d g. \<exists>eid. d = geometry_only_door eid g) G (filter (\<lambda>g. geometry_id g \<notin> mg) gs)"
      by blast
    have "list_all2 (\<lambda>d g. \<exists>eid. d = geometry_only_door eid g) (?d # G)
            (filter (\<lambda>g. geometry_id g \<notin> mg) (g # gs))"
      using G(2) True by auto
    moreover have "add_unmatched_geometries uuid mg (g # gs) doors = doors @ (?d # G)"
      using G(1) True by simp
    ultimately show ?thesis by blast
  next
    case False
    with Cons.IH [of doors] show ?thesis by simp
  qed
qed

lemma add_unmatched_labels_spec:
  "add_unmatched_labels uuid ml idxs (labels, doors) = (labels', doors') \<Longrightarrow>
   \<exists>L. doors' = doors @ L \<and> (\<forall>d \<in> set L. extraction_method d = ''label_only'')"
proof (induction idxs arbitrary: labels doors)
  case Nil
  then show ?case by simp
next
  case (Cons i idxs)
  show ?case
  proof (cases "i \<notin> ml \<and> (DoorLabel.pattern_type (labels ! i) = ''room_door''
                 \<or> door_number_search (label_text (labels ! i)))")
    case True
    let ?l' = "backfill (labels ! i) labels"
    let ?d = "label_only_door (new_id uuid doors) ?l'"
    have step: "add_unmatched_labels uuid ml idxs (labels[i := ?l'], doors @ [?d]) = (labels', doors')"
      using Cons.prems(1) True by (auto simp: Let_def)
    from Cons.IH [OF step] obtain L where L: "doors' = (doors @ [?d]) @ L"
      "\<forall>d \<in> set L. extraction_method d = ''label_only''" by blast
    have "\<forall>d \<in> set (?d # L). extraction_method d = ''label_only''"
      using L(2) by (simp add: label_only_door_def)
    with L(1) show ?thesis by (metis append_Cons append_Nil append_assoc)
  next
    case False
    then have "add_unmatched_labels uuid ml idxs (labels, doors) = (labels', doors')"
      using Cons.prems(1) by (auto simp: Let_def split: if_splits)
    with Cons.IH show ?thesis by blast
  qed
qed

lemma map_snd_enumerate_labels: "map snd (enumerate_labels labels) = labels"
  by (simp add: enumerate_labels_def)

lemma nearby_fire_rating_first:
  "nearby_fire_rating l labels =
     (case filter (within_100 l) labels of [] \<Rightarrow> None | other # rest \<Rightarrow> DoorLabel.fire_rating other)"
  by (induction labels) (auto simp: within_100_def Let_def)

lemma backfilled_from_refl: "backfilled_from l l"
  by (simp add: backfilled_from_def)

lemma backfilled_from_backfill:
  "backfilled_from original l \<Longrightarrow> backfilled_from original (backfill l labels)"
  by (auto simp: backfilled_from_def backfill_def Let_def)

lemma add_unmatched_labels_frame:
  "add_unmatched_labels uuid ml idxs (labels, doors) = (labels', doors') \<Longrightarrow>
   length labels = length labels0 \<Longrightarrow>
   \<forall>i < length labels0. backfilled_from (labels0 ! i) (labels ! i) \<Longrightarrow>
   length labels' = length labels0 \<and> (\<forall>i < length labels0. backfilled_from (labels0 ! i) (labels' ! i))"
proof (induction idxs arbitrary: labels doors)
  case Nil
  then show ?case by simp
next
  case (Cons i idxs)
  show ?case
  proof (cases "i \<notin> ml \<and> (DoorLabel.pattern_type (labels ! i) = ''room_door''
                 \<or> door_number_search (label_text (labels ! i)))")
    case True
    let ?l' = "backfill (labels ! i) labels"
    have step: "add_unmatched_labels uuid ml idxs
        (labels[i := ?l'], doors @ [label_only_door (new_id uuid doors) ?l']) = (labels', doors')"
      using Cons.prems(1) True by (auto simp: Let_def)
    have len: "length (labels[i := ?l']) = length labels0" using Cons.prems(2) by simp
    have inv: "\<forall>j < length labels0. backfilled_from (labels0 ! j) (labels[i := ?l'] ! j)"
    proof (intro allI impI)
      fix j assume j: "j < length labels0"
      show "backfilled_from (labels0 ! j) (labels[i := ?l'] ! j)"
      proof (cases "j = i")
        case True
        then show ?thesis using j Cons.prems(2,3) by (simp add: backfilled_from_backfill)
      next
        case False
        then show ?thesis using j Cons.prems(3) by simp
      qed
    qed
    from Cons.IH [OF step len inv] show ?thesis .
  next
    case False
    then have "add_unmatched_labels uuid ml idxs (labels, doors) = (labels', doors')"
      using Cons.prems(1) by (auto simp: Let_def split: if_splits)
    from Cons.IH [OF this Cons.prems(2,3)] show ?thesis .
  qed
qed

lemma add_unmatched_labels_carries:
  "add_unmatched_labels uuid ml idxs (labels, doors) = (labels', doors') \<Longrightarrow>
   distinct idxs \<Longrightarrow> \<forall>i \<in> set idxs. i < length labels \<Longrightarrow>
   \<forall>d \<in> set doors. extraction_method d = ''label_only'' \<longrightarrow>
       (\<exists>j < length labels. j \<notin> set idxs \<and> label d = Some (labels ! j)) \<Longrightarrow>
   \<forall>d \<in> set doors'. extraction_method d = ''label_only'' \<longrightarrow>
       (\<exists>j < length labels'. label d = Some (labels' ! j))"
proof (induction idxs arbitrary: labels doors)
  case Nil
  then show ?case by auto
next
  case (Cons i idxs)
  have d: "distinct idxs" "i \<notin> set idxs" using Cons.prems(2) by simp_all
  have il: "i < length labels" using Cons.prems(3) by simp
  show ?case
  proof (cases "i \<notin> ml \<and> (DoorLabel.pattern_type (labels ! i) = ''room_door''
                 \<or> door_number_search (label_text (labels ! i)))")
    case True
    let ?l' = "backfill (labels ! i) labels"
    let ?ls = "labels[i := ?l']"
    let ?d = "label_only_door (new_id uuid doors) ?l'"
    have step: "add_unmatched_labels uuid ml idxs (?ls, doors @ [?d]) = (labels', doors')"
      using Cons.prems(1) True by (auto simp: Let_def)
    have b: "\<forall>k \<in> set idxs. k < length ?ls" using Cons.prems(3) by simp
    have inv: "\<forall>d \<in> set (doors @ [?d]). extraction_method d = ''label_only'' \<longrightarrow>
       (\<exists>j < length ?ls. j \<notin> set idxs \<and> label d = Some (?ls ! j))"
    proof (intro ballI impI)
      fix x assume x: "x \<in> set (doors @ [?d])" and m: "extraction_method x = ''label_only''"
      show "\<exists>j < length ?ls. j \<notin> set idxs \<and> label x = Some (?ls ! j)"
      proof (cases "x \<in> set doors")
        case True
        with Cons.prems(4) m obtain j where j: "j < length labels" "j \<notin> set (i # idxs)"
          "label x = Some (labels ! j)" by blast
        then have "?ls ! j = labels ! j" by simp
        with j show ?thesis by auto
      next
        case False
        with x have "x = ?d" by simp
        then have "label x = Some (?ls ! i)" using il by (simp add: label_only_door_def)
        with il d(2) show ?thesis by auto
      qed
    qed
    from Cons.IH [OF step d(1) b inv] show ?thesis .
  next
    case False
    then have step: "add_unmatched_labels uuid ml idxs (labels, doors) = (labels', doors')"
      using Cons.prems(1) by (auto simp: Let_def split: if_splits)
    have b: "\<forall>k \<in> set idxs. k < length labels" using Cons.prems(3) by simp
    have inv: "\<forall>d \<in> set doors. extraction_method d = ''label_only'' \<longrightarrow>
       (\<exists>j < length labels. j \<notin> set idxs \<and> label d = Some (labels ! j))"
      using Cons.prems(4) by fastforce
    from Cons.IH [OF step d(1) b inv] show ?thesis .
  qed
qed

lemma match_labels_methods:
  "match_labels uuid maxd gs ils (doors, mg, ml) = (doors', mg', ml') \<Longrightarrow>
   \<forall>d \<in> set doors. extraction_method d \<noteq> ''label_only'' \<Longrightarrow>
   \<forall>d \<in> set doors'. extraction_method d \<noteq> ''label_only''"
proof -
  assume a: "match_labels uuid maxd gs ils (doors, mg, ml) = (doors', mg', ml')"
    and b: "\<forall>d \<in> set doors. extraction_method d \<noteq> ''label_only''"
  from match_labels_greedy [OF a] obtain M where M: "doors' = doors @ M"
    "greedy_match (set gs) maxd (map snd ils) mg M mg'" by blast
  have "\<forall>d \<in> set M. extraction_method d = ''label_geometry_match''"
    using M(2) by (induction rule: greedy_match.induct) auto
  with M(1) b show ?thesis by auto
qed

lemma add_unmatched_geometries_methods:
  "\<forall>d \<in> set doors. extraction_method d \<noteq> ''label_only'' \<Longrightarrow>
   \<forall>d \<in> set (add_unmatched_geometries uuid mg gs doors). extraction_method d \<noteq> ''label_only''"
proof -
  assume b: "\<forall>d \<in> set doors. extraction_method d \<noteq> ''label_only''"
  from add_unmatched_geometries_spec [of uuid mg gs doors] obtain G where
    G: "add_unmatched_geometries uuid mg gs doors = doors @ G"
       "list_all2 (\<lambda>d g. \<exists>eid. d = geometry_only_door eid g) G (filter (\<lambda>g. geometry_id g \<notin> mg) gs)"
    by blast
  have "\<forall>d \<in> set G. extraction_method d = ''geometry_only''"
  proof
    fix d assume "d \<in> set G"
    then obtain k where "k < length G" "d = G ! k" by (auto simp: in_set_conv_nth)
    with G(2) obtain eid g where "d = geometry_only_door eid g"
      by (auto simp: list_all2_conv_all_nth)
    then show "extraction_method d = ''geometry_only''" by (simp add: geometry_only_door_def)
  qed
  with G(1) b show ?thesis by auto
qed

lemma match_room_code_example: "match_room_code ''B.00.1.001-1'' = Some ''-1''"
  by (simp add: match_room_code_def is_digit_def numeral_2_eq_2 numeral_3_eq_3)

lemma room_label_search: "door_number_search (label_text room_label)"
  by (simp add: room_label_def match_room_code_example)

lemma d_room_near: "center_distance (label_center room_label) (label_center near_t30_label) = 10"
  by (simp add: center_distance_def label_center_def room_label_def near_t30_label_def)

lemma d_room_far: "center_distance (label_center room_label) (label_center far_t90_label) = 90"
  by (simp add: center_distance_def label_center_def room_label_def far_t90_label_def)

lemma d_room_self: "center_distance (label_center room_label) (label_center room_label) = 0"
  by (simp add: center_distance_def)

lemma types:
  "DoorLabel.pattern_type room_label = ''room_door''"
  "DoorLabel.pattern_type near_t30_label = ''fire_rating''"
  "DoorLabel.pattern_type far_t90_label = ''fire_rating''"
  "DoorLabel.fire_rating room_label = None"
  "DoorLabel.fire_rating near_t30_label = Some ''T30''"
  "DoorLabel.fire_rating far_t90_label = Some ''T90''"
  "\<not> door_number_search (label_text near_t30_label)"
  "\<not> door_number_search (label_text far_t90_label)"
  by (simp_all add: room_label_def near_t30_label_def far_t90_label_def match_room_code_def)

lemma map_of_dict_set: "map_of (dict_set k v kvs) = (map_of kvs)(k \<mapsto> v)"
  by (induction kvs) auto

lemma keys_dict_set: "set (map fst (dict_set k v kvs)) = insert k (set (map fst kvs))"
proof -
  have "dom (map_of (dict_set k v kvs)) = insert k (dom (map_of kvs))"
    by (simp add: map_of_dict_set)
  then show ?thesis by (simp add: dom_map_of_conv_image_fst)
qed

lemma dedup_invI:
  assumes "distinct (map fst acc)"
    and "\<And>k d. map_of acc k = Some d \<Longrightarrow>
            d \<in> set xs \<and> k = dedup_key d \<and> (numbered d \<or> unnumbered d)"
    and "\<And>c. c \<in> set xs \<Longrightarrow> numbered c \<Longrightarrow>
            \<exists>d. map_of acc (dedup_key c) = Some d
                  \<and> DoorExtraction.confidence c \<le> DoorExtraction.confidence d"
  shows "dedup_inv xs acc"
  using assms unfolding dedup_inv_def by blast

lemma distinct_dict_set: "distinct (map fst kvs) \<Longrightarrow> distinct (map fst (dict_set k v kvs))"
proof (induction kvs)
  case Nil
  then show ?case by simp
next
  case (Cons kv kvs)
  obtain k' v' where kv: "kv = (k', v')" by (cases kv) auto
  show ?case
  proof (cases "k = k'")
    case True
    with Cons kv show ?thesis by simp
  next
    case False
    have "k' \<notin> set (map fst (dict_set k v kvs))"
      using Cons.prems kv False by (simp only: keys_dict_set) auto
    with Cons kv False show ?thesis by simp
  qed
qed

lemma no_suffix_key:
  "\<not> door_number_with_suffix (extraction_id x) \<Longrightarrow> numbered c \<Longrightarrow> dedup_key c \<noteq> extraction_id x"
  by (auto simp: numbered_def dedup_key_def)

lemma dedup_step_inv:
  assumes inv: "dedup_inv xs acc"
    and h1: "\<forall>d \<in> set (xs @ [x]). \<not> door_number_with_suffix (extraction_id d)"
  shows "dedup_inv (xs @ [x]) (dedup_step acc x)"
proof -
  from inv have dist: "distinct (map fst acc)"
    and i2: "\<And>k d. map_of acc k = Some d \<Longrightarrow> d \<in> set xs \<and> k = dedup_key d \<and> (numbered d \<or> unnumbered d)"
    and i3: "\<And>c. c \<in> set xs \<Longrightarrow> numbered c \<Longrightarrow>
            \<exists>d. map_of acc (dedup_key c) = Some d
                  \<and> DoorExtraction.confidence c \<le> DoorExtraction.confidence d"
    by (auto simp: dedup_inv_def)
  have hx: "\<not> door_number_with_suffix (extraction_id x)" using h1 by simp
  show ?thesis
  proof (cases "truthy_str (door_number x)")
    case False
    then have ux: "unnumbered x" and kx: "dedup_key x = extraction_id x" and nx: "\<not> numbered x"
      by (simp_all add: unnumbered_def dedup_key_def numbered_def)
    have step: "dedup_step acc x = dict_set (extraction_id x) x acc"
      using False by (simp add: dedup_step_def)
    show ?thesis
      unfolding step
    proof (rule dedup_invI; (unfold map_of_dict_set)?)
      show "distinct (map fst (dict_set (extraction_id x) x acc))"
        using dist by (rule distinct_dict_set)
    next
      fix k d assume "((map_of acc)(extraction_id x \<mapsto> x)) k = Some d"
      then show "d \<in> set (xs @ [x]) \<and> k = dedup_key d \<and> (numbered d \<or> unnumbered d)"
        using i2 ux kx by (auto split: if_splits)
    next
      fix c assume c: "c \<in> set (xs @ [x])" and nc: "numbered c"
      with nx have cx: "c \<in> set xs" by auto
      have "dedup_key c \<noteq> extraction_id x" using no_suffix_key [OF hx nc] .
      with i3 [OF cx nc]
      show "\<exists>d. ((map_of acc)(extraction_id x \<mapsto> x)) (dedup_key c) = Some d
                  \<and> DoorExtraction.confidence c \<le> DoorExtraction.confidence d"
        by simp
    qed
  next
    case True
    let ?n = "the (door_number x)"
    have kx: "dedup_key x = ?n" using True by (simp add: dedup_key_def)
    show ?thesis
    proof (cases "door_number_with_suffix ?n")
      case False
      then have step: "dedup_step acc x = acc" using True by (simp add: dedup_step_def)
      have nx: "\<not> numbered x" using False by (simp add: numbered_def)
      show ?thesis unfolding dedup_inv_def step
        using dist i2 i3 nx by auto
    next
      case suffix: True
      then have numx: "numbered x" using True by (simp add: numbered_def)
      show ?thesis
      proof (cases "\<exists>kept. map_of acc ?n = Some kept
                      \<and> \<not> DoorExtraction.confidence x > DoorExtraction.confidence kept")
        case True
        then obtain kept where kept: "map_of acc ?n = Some kept"
          "DoorExtraction.confidence x \<le> DoorExtraction.confidence kept" by auto
        have step: "dedup_step acc x = acc"
          using \<open>truthy_str (door_number x)\<close> suffix kept by (simp add: dedup_step_def Let_def)
        show ?thesis unfolding step
        proof (rule dedup_invI)
          show "distinct (map fst acc)" by (rule dist)
        next
          fix k d assume "map_of acc k = Some d"
          then show "d \<in> set (xs @ [x]) \<and> k = dedup_key d \<and> (numbered d \<or> unnumbered d)"
            using i2 by auto
        next
          fix c assume c: "c \<in> set (xs @ [x])" and nc: "numbered c"
          show "\<exists>d. map_of acc (dedup_key c) = Some d
                  \<and> DoorExtraction.confidence c \<le> DoorExtraction.confidence d"
          proof (cases "c = x")
            case True
            then show ?thesis using kept kx by auto
          next
            case False
            with c have "c \<in> set xs" by auto
            then show ?thesis using i3 nc by blast
          qed
        qed
      next
        case False
        then have step: "dedup_step acc x = dict_set ?n x acc"
          using \<open>truthy_str (door_number x)\<close> suffix
          by (auto simp: dedup_step_def Let_def split: option.splits)
        show ?thesis unfolding step
        proof (rule dedup_invI; (unfold map_of_dict_set)?)
          show "distinct (map fst (dict_set ?n x acc))" using dist by (rule distinct_dict_set)
        next
          fix k d assume "((map_of acc)(?n \<mapsto> x)) k = Some d"
          then show "d \<in> set (xs @ [x]) \<and> k = dedup_key d \<and> (numbered d \<or> unnumbered d)"
            using i2 numx kx by (auto split: if_splits)
        next
          fix c assume c: "c \<in> set (xs @ [x])" and nc: "numbered c"
          show "\<exists>d. ((map_of acc)(?n \<mapsto> x)) (dedup_key c) = Some d
                  \<and> DoorExtraction.confidence c \<le> DoorExtraction.confidence d"
          proof (cases "dedup_key c = ?n")
            case same: True
            show ?thesis
            proof (cases "c \<in> set xs")
              case True
              from i3 [OF True nc] obtain d where d: "map_of acc ?n = Some d"
                "DoorExtraction.confidence c \<le> DoorExtraction.confidence d"
                using same by auto
              with False have "DoorExtraction.confidence d < DoorExtraction.confidence x" by auto
              with d same show ?thesis by auto
            next
              case False
              with c have "c = x" by auto
              with same show ?thesis by auto
            qed
          next
            case other: False
            with kx have "c \<noteq> x" by auto
            with c have "c \<in> set xs" by auto
            from i3 [OF this nc] other show ?thesis by auto
          qed
        qed
      qed
    qed
  qed
qed

lemma foldl_dedup_inv:
  "\<forall>d \<in> set xs. \<not> door_number_with_suffix (extraction_id d) \<Longrightarrow>
   dedup_inv xs (foldl dedup_step [] xs)"
proof (induction xs rule: rev_induct)
  case Nil
  then show ?case by (simp add: dedup_inv_def)
next
  case (snoc x xs)
  have "dedup_inv xs (foldl dedup_step [] xs)" using snoc by simp
  from dedup_step_inv [OF this snoc.prems] show ?case by simp
qed

lemma foldl_dedup_unnumbered:
  "\<forall>d \<in> set xs. \<not> door_number_with_suffix (extraction_id d) \<Longrightarrow>
   distinct (map extraction_id xs) \<Longrightarrow>
   \<forall>c \<in> set xs. unnumbered c \<longrightarrow> map_of (foldl dedup_step [] xs) (extraction_id c) = Some c"
proof (induction xs rule: rev_induct)
  case Nil
  then show ?case by simp
next
  case (snoc x xs)
  let ?acc = "foldl dedup_step [] xs"
  have h1: "\<forall>d \<in> set xs. \<not> door_number_with_suffix (extraction_id d)" using snoc.prems(1) by simp
  have dist: "distinct (map extraction_id xs)" and fresh: "extraction_id x \<notin> extraction_id ` set xs"
    using snoc.prems(2) by simp_all
  note ih = snoc.IH [OF h1 dist]
  show ?case
  proof (intro ballI impI)
    fix c assume c: "c \<in> set (xs @ [x])" and uc: "unnumbered c"
    show "map_of (foldl dedup_step [] (xs @ [x])) (extraction_id c) = Some c"
    proof (cases "truthy_str (door_number x)")
      case False
      then have step: "dedup_step ?acc x = dict_set (extraction_id x) x ?acc"
        by (simp add: dedup_step_def)
      show ?thesis
      proof (cases "c \<in> set xs")
        case True
        show ?thesis
        proof (cases "extraction_id c = extraction_id x")
          case True
          with fresh \<open>c \<in> set xs\<close> show ?thesis by (metis imageI)
        next
          case False
          with ih True uc show ?thesis by (simp add: step map_of_dict_set)
        qed
      next
        case False
        with c have "c = x" by simp
        then show ?thesis by (simp add: step map_of_dict_set)
      qed
    next
      case True
      then have "\<not> unnumbered x" by (simp add: unnumbered_def)
      with c uc have cx: "c \<in> set xs" by auto
      have nosuf: "\<not> door_number_with_suffix (extraction_id c)" using h1 cx by simp
      have "dedup_step ?acc x = ?acc \<or>
            (door_number_with_suffix (the (door_number x))
             \<and> dedup_step ?acc x = dict_set (the (door_number x)) x ?acc)"
        using True by (auto simp: dedup_step_def Let_def split: option.splits)
      then show ?thesis
      proof
        assume "dedup_step ?acc x = ?acc"
        with ih cx uc show ?thesis by simp
      next
        assume a: "door_number_with_suffix (the (door_number x))
             \<and> dedup_step ?acc x = dict_set (the (door_number x)) x ?acc"
        with nosuf have "extraction_id c \<noteq> the (door_number x)" by auto
        with a ih cx uc show ?thesis by (simp add: map_of_dict_set)
      qed
    qed
  qed
qed

lemma ids_ok_snoc:
  "ids_ok uuid doors \<Longrightarrow> extraction_id d = new_id uuid doors \<Longrightarrow> ids_ok uuid (doors @ [d])"
  by (simp add: ids_ok_def new_id_def)

lemma match_labels_ids:
  "match_labels uuid maxd gs ils (doors, mg, ml) = (doors', mg', ml') \<Longrightarrow>
   ids_ok uuid doors \<Longrightarrow> ids_ok uuid doors'"
proof (induction ils arbitrary: doors mg ml)
  case Nil
  then show ?case by simp
next
  case (Cons il ils)
  obtain i l where il: "il = (i, l)" by (cases il) auto
  show ?case
  proof (cases "find_nearest (label_center l) maxd mg gs None")
    case None
    with Cons il show ?thesis by simp
  next
    case (Some a)
    obtain g dist where a: "a = (g, dist)" by (cases a) auto
    let ?d = "matched_door (new_id uuid doors) l g"
    have step: "match_labels uuid maxd gs ils (doors @ [?d], insert (geometry_id g) mg, insert i ml)
           = (doors', mg', ml')"
      using Cons.prems(1) il Some a by simp
    have "ids_ok uuid (doors @ [?d])"
      using Cons.prems(2) by (rule ids_ok_snoc) (simp add: matched_door_def)
    from Cons.IH [OF step this] show ?thesis .
  qed
qed

lemma add_unmatched_geometries_ids:
  "ids_ok uuid doors \<Longrightarrow> ids_ok uuid (add_unmatched_geometries uuid mg gs doors)"
proof (induction gs arbitrary: doors)
  case Nil
  then show ?case by simp
next
  case (Cons g gs)
  show ?case
  proof (cases "geometry_id g \<notin> mg")
    case True
    let ?d = "geometry_only_door (new_id uuid doors) g"
    have "ids_ok uuid (doors @ [?d])"
      using Cons.prems by (rule ids_ok_snoc) (simp add: geometry_only_door_def)
    from Cons.IH [OF this] True show ?thesis by simp
  next
    case False
    with Cons.IH [OF Cons.prems] show ?thesis by simp
  qed
qed

lemma add_unmatched_labels_ids:
  "add_unmatched_labels uuid ml idxs (labels, doors) = (labels', doors') \<Longrightarrow>
   ids_ok uuid doors \<Longrightarrow> ids_ok uuid doors'"
proof (induction idxs arbitrary: labels doors)
  case Nil
  then show ?case by simp
next
  case (Cons i idxs)
  show ?case
  proof (cases "i \<notin> ml \<and> (DoorLabel.pattern_type (labels ! i) = ''room_door''
                 \<or> door_number_search (label_text (labels ! i)))")
    case True
    let ?l' = "backfill (labels ! i) labels"
    let ?d = "label_only_door (new_id uuid doors) ?l'"
    have step: "add_unmatched_labels uuid ml idxs (labels[i := ?l'], doors @ [?d]) = (labels', doors')"
      using Cons.prems(1) True by (auto simp: Let_def)
    have "ids_ok uuid (doors @ [?d])"
      using Cons.prems(2) by (rule ids_ok_snoc) (simp add: label_only_door_def)
    from Cons.IH [OF step this] show ?thesis .
  next
    case False
    then have "add_unmatched_labels uuid ml idxs (labels, doors) = (labels', doors')"
      using Cons.prems(1) by (auto simp: Let_def split: if_splits)
    from Cons.IH [OF this Cons.prems(2)] show ?thesis .
  qed
qed

lemma associate_ids:
  "ids_ok uuid (fst (associate_labels_with_geometries uuid labels geometries maxd))"
proof -
  let ?gs = "sort_by_confidence geometries"
  obtain d1 mg ml where p1: "match_labels uuid maxd ?gs (enumerate_labels labels) ([], {}, {}) = (d1, mg, ml)"
    by (metis prod_cases3)
  obtain ls' d3 where p3: "add_unmatched_labels uuid ml [0..<length labels]
        (labels, add_unmatched_geometries uuid mg ?gs d1) = (ls', d3)"
    by (metis surj_pair)
  have "ids_ok uuid []" by (simp add: ids_ok_def)
  from match_labels_ids [OF p1 this] have "ids_ok uuid d1" .
  then have "ids_ok uuid (add_unmatched_geometries uuid mg ?gs d1)"
    by (rule add_unmatched_geometries_ids)
  from add_unmatched_labels_ids [OF p3 this] have "ids_ok uuid d3" .
  moreover have "fst (associate_labels_with_geometries uuid labels geometries maxd) = d3"
    by (simp add: associate_labels_with_geometries_def Let_def p1 p3)
  ultimately show ?thesis by simp
qed

lemma door_prefix_no_suffix: "\<not> door_number_with_suffix (CHR ''d'' # s)"
  by (simp add: door_number_with_suffix_def match_room_code_def)

lemma attributed_ids:
  "map extraction_id (attributed_doors uuid labels geometries sc radius)
     = map (\<lambda>k. ''door_'' @ uuid k)
         [0..<length (fst (associate_labels_with_geometries uuid labels geometries radius))]"
  using associate_ids [of uuid labels geometries radius]
  by (simp add: attributed_doors_def ids_ok_def extract_door_attributes_keeps o_def)

lemma attributed_no_suffix:
  "\<forall>d \<in> set (attributed_doors uuid labels geometries sc radius).
      \<not> door_number_with_suffix (extraction_id d)"
proof
  fix d assume "d \<in> set (attributed_doors uuid labels geometries sc radius)"
  then have "extraction_id d \<in> set (map extraction_id (attributed_doors uuid labels geometries sc radius))"
    by simp
  then obtain k where "extraction_id d = ''door_'' @ uuid k"
    unfolding attributed_ids by auto
  then show "\<not> door_number_with_suffix (extraction_id d)" by (simp add: door_prefix_no_suffix)
qed

lemma attributed_distinct:
  assumes "distinct (map uuid [0..<length (fst (associate_labels_with_geometries uuid labels geometries radius))])"
  shows "distinct (map extraction_id (attributed_doors uuid labels geometries sc radius))"
proof -
  let ?n = "length (fst (associate_labels_with_geometries uuid labels geometries radius))"
  have "map (\<lambda>k. ''door_'' @ uuid k) [0..<?n] = map ((@) ''door_'') (map uuid [0..<?n])"
    by simp
  moreover have "distinct (map ((@) ''door_'') (map uuid [0..<?n]))"
    using assms by (simp add: distinct_map inj_on_def del: map_map)
  ultimately show ?thesis by (simp only: attributed_ids)
qed

lemma filter_by_key:
  "distinct (map fst kvs) \<Longrightarrow> map_of kvs k = Some v \<Longrightarrow> filter (\<lambda>kv. fst kv = k) kvs = [(k, v)]"
proof (induction kvs)
  case Nil
  then show ?case by simp
next
  case (Cons kv kvs)
  obtain k' v' where kv: "kv = (k', v')" by (cases kv) auto
  show ?case
  proof (cases "k' = k")
    case True
    then have "k \<notin> fst ` set kvs" using Cons.prems(1) kv by auto
    then have "filter (\<lambda>kv. fst kv = k) kvs = []" by (auto simp: filter_empty_conv)
    with True Cons.prems(2) kv show ?thesis by simp
  next
    case False
    with Cons kv show ?thesis by simp
  qed
qed

lemma suffix_nonempty: "door_number_with_suffix n \<Longrightarrow> n \<noteq> []"
  by (auto simp: door_number_with_suffix_def match_room_code_def)

lemma in_snd_iff:
  "distinct (map fst kvs) \<Longrightarrow> d \<in> set (map snd kvs) \<longleftrightarrow> (\<exists>k. map_of kvs k = Some d)"
  by (force simp: map_of_eq_Some_iff)

lemma dedup_invD:
  assumes "dedup_inv xs acc"
  shows "distinct (map fst acc)"
    and "\<And>k d. map_of acc k = Some d \<Longrightarrow>
               d \<in> set xs \<and> k = dedup_key d \<and> (numbered d \<or> unnumbered d)"
    and "\<And>c. c \<in> set xs \<Longrightarrow> numbered c \<Longrightarrow>
            \<exists>d. map_of acc (dedup_key c) = Some d
                  \<and> DoorExtraction.confidence c \<le> DoorExtraction.confidence d"
  using assms unfolding dedup_inv_def by blast+

lemma filter_values_by_key:
  assumes "distinct (map fst acc)" and "map_of acc n = Some d"
    and "\<And>kv. kv \<in> set acc \<Longrightarrow> P (snd kv) = (fst kv = n)"
  shows "filter P (map snd acc) = [d]"
proof -
  have "filter P (map snd acc) = map snd (filter (\<lambda>kv. P (snd kv)) acc)"
    by (simp add: filter_map o_def)
  also have "filter (\<lambda>kv. P (snd kv)) acc = filter (\<lambda>kv. fst kv = n) acc"
    using assms(3) by (rule filter_cong [OF refl])
  also have "\<dots> = [(n, d)]" using filter_by_key [OF assms(1,2)] .
  finally show ?thesis by simp
qed

lemma dedup_doors_sound:
  assumes h1: "\<forall>d \<in> set cands. \<not> door_number_with_suffix (extraction_id d)"
    and d: "d \<in> set (dedup_doors cands)"
  shows "d \<in> set cands"
    and "truthy_str (door_number d) \<longrightarrow> door_number_with_suffix (the (door_number d))"
proof -
  let ?acc = "foldl dedup_step [] cands"
  note inv = foldl_dedup_inv [OF h1]
  from d obtain k where k: "map_of ?acc k = Some d"
    using in_snd_iff [OF dedup_invD(1) [OF inv]] by (auto simp: dedup_doors_def)
  from dedup_invD(2) [OF inv k] show "d \<in> set cands" by blast
  from dedup_invD(2) [OF inv k]
  show "truthy_str (door_number d) \<longrightarrow> door_number_with_suffix (the (door_number d))"
    by (auto simp: numbered_def unnumbered_def)
qed

lemma dedup_doors_best:
  assumes h1: "\<forall>d \<in> set cands. \<not> door_number_with_suffix (extraction_id d)"
    and sn: "door_number_with_suffix n"
    and c0: "c0 \<in> set cands" "door_number c0 = Some n"
  shows "\<exists>d. filter (\<lambda>x. door_number x = Some n) (dedup_doors cands) = [d] \<and> d \<in> set cands
             \<and> (\<forall>c \<in> set cands. door_number c = Some n \<longrightarrow>
                   DoorExtraction.confidence c \<le> DoorExtraction.confidence d)"
proof -
  let ?acc = "foldl dedup_step [] cands"
  note inv = foldl_dedup_inv [OF h1]
  note dist = dedup_invD(1) [OF inv]
  note i2 = dedup_invD(2) [OF inv]
  note i3 = dedup_invD(3) [OF inv]
  have ne: "n \<noteq> []" using sn by (rule suffix_nonempty)
  have num: "\<And>c. door_number c = Some n \<Longrightarrow> numbered c \<and> dedup_key c = n"
    using sn ne by (simp add: numbered_def dedup_key_def truthy_str_def)
  from i3 [OF c0(1)] num [OF c0(2)] obtain d where d: "map_of ?acc n = Some d" by auto
  from i2 [OF d] have dc: "d \<in> set cands" and dk: "n = dedup_key d" by auto
  have dnum: "door_number d = Some n"
  proof (cases "truthy_str (door_number d)")
    case True
    with dk show ?thesis by (auto simp: dedup_key_def truthy_str_def split: option.splits)
  next
    case False
    with dk have "n = extraction_id d" by (simp add: dedup_key_def)
    with h1 dc sn show ?thesis by auto
  qed
  have same: "\<And>kv. kv \<in> set ?acc \<Longrightarrow> (door_number (snd kv) = Some n) = (fst kv = n)"
  proof -
    fix kv assume kv: "kv \<in> set ?acc"
    obtain k e where ke: "kv = (k, e)" by (cases kv) auto
    have m: "map_of ?acc k = Some e" using kv ke dist by simp
    show "(door_number (snd kv) = Some n) = (fst kv = n)"
    proof
      assume "door_number (snd kv) = Some n"
      then have "dedup_key e = n" using num ke by simp
      with i2 [OF m] ke show "fst kv = n" by simp
    next
      assume "fst kv = n"
      with m ke d have "e = d" by simp
      with dnum ke show "door_number (snd kv) = Some n" by simp
    qed
  qed
  have f: "filter (\<lambda>x. door_number x = Some n) (dedup_doors cands) = [d]"
    unfolding dedup_doors_def using dist d same by (rule filter_values_by_key)
  have mx: "\<forall>c \<in> set cands. door_number c = Some n \<longrightarrow>
               DoorExtraction.confidence c \<le> DoorExtraction.confidence d"
  proof (intro ballI impI)
    fix c assume cc: "c \<in> set cands" and cn: "door_number c = Some n"
    from i3 [OF cc] num [OF cn] d
    show "DoorExtraction.confidence c \<le> DoorExtraction.confidence d" by auto
  qed
  from f dc mx show ?thesis by blast
qed

lemma dedup_doors_keeps_unnumbered:
  assumes h1: "\<forall>d \<in> set cands. \<not> door_number_with_suffix (extraction_id d)"
    and h2: "distinct (map extraction_id cands)"
    and c: "c \<in> set cands" "\<not> truthy_str (door_number c)"
  shows "c \<in> set (dedup_doors cands)"
proof -
  let ?acc = "foldl dedup_step [] cands"
  note inv = foldl_dedup_inv [OF h1]
  from foldl_dedup_unnumbered [OF h1 h2] c
  have "map_of ?acc (extraction_id c) = Some c" by (simp add: unnumbered_def)
  then show ?thesis
    using in_snd_iff [OF dedup_invD(1) [OF inv]] by (auto simp: dedup_doors_def)
qed

lemma associate_two_rooms:
  "fst (associate_labels_with_geometries sample_uuid
          [room_label, room_label\<lparr>DoorLabel.confidence := 1\<rparr>] [arc_geometry] 1)
     = [geometry_only_door ''door_00000000'' arc_geometry,
        label_only_door ''door_00000001'' room_label,
        label_only_door ''door_00000002'' (room_label\<lparr>DoorLabel.confidence := 1\<rparr>)]"
proof -
  have cd: "center_distance (center arc_geometry) (label_center room_label) = 5"
    "center_distance (center arc_geometry) (label_center (room_label\<lparr>DoorLabel.confidence := 1\<rparr>)) = 5"
    by (simp_all add: center_distance_def label_center_def arc_geometry_def room_label_def)
  have ids: "new_id sample_uuid [] = ''door_00000000''"
    "\<And>a. new_id sample_uuid [a] = ''door_00000001''"
    "\<And>a b. new_id sample_uuid [a, b] = ''door_00000002''"
    unfolding new_id_def sample_uuid_def by code_simp+
  have ty: "DoorLabel.pattern_type room_label = ''room_door''"
    "DoorLabel.pattern_type (room_label\<lparr>DoorLabel.confidence := 1\<rparr>) = ''room_door''"
    by (simp_all add: room_label_def)
  have bf: "\<And>l. DoorLabel.pattern_type l = ''room_door'' \<Longrightarrow>
              backfill l [room_label, room_label\<lparr>DoorLabel.confidence := 1\<rparr>] = l"
              "\<And>l. DoorLabel.pattern_type l = ''room_door'' \<Longrightarrow>
              backfill l [room_label, l] = l"
    by (simp_all add: backfill_def ty truthy_str_def)
  show ?thesis
    by (simp add: associate_labels_with_geometries_def sort_by_confidence_def enumerate_labels_def
        upt_rec [of 0] upt_rec [of 1] cd ids ty bf Let_def numeral_2_eq_2)
qed

subsection \<open>C2: labels are paired with the nearest unclaimed geometry\<close>

text \<open>
  Claim C2. For every list of labels and of geometries, the result of the associator is
  three lists in a row. The first holds the paired records and obeys the rule
  \<open>greedy_match\<close>: labels in input order, each paired with an unclaimed geometry within the
  radius (by the Euclidean distance of the centres) than which none is nearer, in a
  \<open>label_geometry_match\<close> record with the smaller of the two confidences, a geometry
  being claimed through its id. The second holds one \<open>geometry_only\<close> record for every
  geometry whose id was left unclaimed, in descending order of confidence, with the
  geometry's confidence times 0.7 and the warning about the missing label. The third
  holds \<open>label_only\<close> records only. A label centred at (110,105) and a geometry centred
  at (115,105), 5 apart, give exactly one \<open>label_geometry_match\<close> record under radius 150.
\<close>

theorem associate_pairs_nearest_unclaimed:
  "(\<exists>M G L claimed.
       fst (associate_labels_with_geometries uuid labels geometries radius) = M @ G @ L
     \<and> greedy_match (set geometries) radius labels {} M claimed
     \<and> claimed = claimed_by M
     \<and> list_all2 (\<lambda>d g. \<exists>eid. d = geometry_only_door eid g) G
          (filter (\<lambda>g. geometry_id g \<notin> claimed) (sort_by_confidence geometries))
     \<and> (\<forall>d \<in> set L. extraction_method d = ''label_only''))
   \<and> label (geometry_only_door eid g) = None
   \<and> geometry (geometry_only_door eid g) = Some g
   \<and> extraction_method (geometry_only_door eid g) = ''geometry_only''
   \<and> DoorExtraction.confidence (geometry_only_door eid g) = DoorGeometry.confidence g * 0.7
   \<and> DoorExtraction.warnings (geometry_only_door eid g) = [''No label found near this door geometry'']
   \<and> label_center wd_label = (110, 105) \<and> center arc_geometry = (115, 105)
   \<and> center_distance (center arc_geometry) (label_center wd_label) = 5
   \<and> fst (associate_labels_with_geometries_default sample_uuid [wd_label] [arc_geometry])
        = [matched_door ''door_00000000'' wd_label arc_geometry]
   \<and> extraction_method (matched_door ''door_00000000'' wd_label arc_geometry) = ''label_geometry_match''"
proof (intro conjI)
  let ?gs = "sort_by_confidence geometries"
  obtain d1 mg ml where p1: "match_labels uuid radius ?gs (enumerate_labels labels) ([], {}, {}) = (d1, mg, ml)"
    by (metis prod_cases3)
  obtain ls' d3 where p3: "add_unmatched_labels uuid ml [0..<length labels]
        (labels, add_unmatched_geometries uuid mg ?gs d1) = (ls', d3)"
    by (metis surj_pair)
  from match_labels_greedy [OF p1] obtain M where M: "d1 = M"
    "greedy_match (set ?gs) radius labels {} M mg" "mg = claimed_by M"
    by (auto simp: map_snd_enumerate_labels)
  from add_unmatched_geometries_spec [of uuid mg ?gs d1] obtain G where
    G: "add_unmatched_geometries uuid mg ?gs d1 = d1 @ G"
       "list_all2 (\<lambda>d g. \<exists>eid. d = geometry_only_door eid g) G (filter (\<lambda>g. geometry_id g \<notin> mg) ?gs)"
    by blast
  from add_unmatched_labels_spec [OF p3] obtain L where
    L: "d3 = add_unmatched_geometries uuid mg ?gs d1 @ L"
       "\<forall>d \<in> set L. extraction_method d = ''label_only''" by blast
  have res: "fst (associate_labels_with_geometries uuid labels geometries radius) = d3"
    by (simp add: associate_labels_with_geometries_def Let_def p1 p3)
  have sg: "set ?gs = set geometries" by (simp add: sort_by_confidence_def)
  have "fst (associate_labels_with_geometries uuid labels geometries radius) = M @ G @ L"
    using res L(1) G(1) M(1) by simp
  moreover have "greedy_match (set geometries) radius labels {} M mg" using M(2) sg by simp
  ultimately show "\<exists>M G L claimed.
       fst (associate_labels_with_geometries uuid labels geometries radius) = M @ G @ L
     \<and> greedy_match (set geometries) radius labels {} M claimed
     \<and> claimed = claimed_by M
     \<and> list_all2 (\<lambda>d g. \<exists>eid. d = geometry_only_door eid g) G
          (filter (\<lambda>g. geometry_id g \<notin> claimed) (sort_by_confidence geometries))
     \<and> (\<forall>d \<in> set L. extraction_method d = ''label_only'')"
    using M(3) G(2) L(2) by blast
next
  show "center_distance (center arc_geometry) (label_center wd_label) = 5"
    by (simp add: center_distance_def label_center_def arc_geometry_def wd_label_def)
next
  show "fst (associate_labels_with_geometries_default sample_uuid [wd_label] [arc_geometry])
        = [matched_door ''door_00000000'' wd_label arc_geometry]"
    by (simp add: associate_labels_with_geometries_default_def associate_example)
qed (simp_all add: geometry_only_door_def matched_door_def label_center_def wd_label_def
      arc_geometry_def)

text \<open>The claim at the label and the geometry of the example: one record, and it is paired.\<close>

theorem associate_pairs_nearest_unclaimed_witness:
  "\<exists>M G L. fst (associate_labels_with_geometries sample_uuid [wd_label] [arc_geometry] 150) = M @ G @ L
     \<and> greedy_match (set [arc_geometry]) 150 [wd_label] {} M (claimed_by M)
     \<and> length (M @ G @ L) = 1"
proof -
  from associate_pairs_nearest_unclaimed [of sample_uuid "[wd_label]" "[arc_geometry]" 150]
  obtain M G L claimed where
    r: "fst (associate_labels_with_geometries sample_uuid [wd_label] [arc_geometry] 150) = M @ G @ L"
    and g: "greedy_match (set [arc_geometry]) 150 [wd_label] {} M claimed"
    and c: "claimed = claimed_by M"
    by blast
  have "length (fst (associate_labels_with_geometries sample_uuid [wd_label] [arc_geometry] 150)) = 1"
    by (simp add: associate_example)
  with r g c show ?thesis by auto
qed

text \<open>What a door number of the required form looks like.\<close>

lemma expect_Some: "expect c s = Some r \<Longrightarrow> s = c # r"
  by (cases s) (auto split: if_splits)

lemma take_digits_Some:
  "take_digits n s = Some r \<Longrightarrow> \<exists>p. s = p @ r \<and> length p = n \<and> list_all is_digit p"
proof (induction n s rule: take_digits.induct)
  case (1 s)
  then show ?case by simp
next
  case (2 n)
  then show ?case by simp
next
  case (3 n c s)
  then have d: "is_digit c" and t: "take_digits n s = Some r" by (auto split: if_splits)
  from 3(1) [OF d t] obtain p where "s = p @ r" "length p = n" "list_all is_digit p" by blast
  then have "c # s = (c # p) @ r \<and> length (c # p) = Suc n \<and> list_all is_digit (c # p)"
    using d by simp
  then show ?case by blast
qed

lemma match_room_code_Some:
  assumes "match_room_code s = Some r"
  shows "\<exists>a m b. s = ''B.'' @ a @ ''.'' @ m @ ''.'' @ b @ r
           \<and> length a = 2 \<and> list_all is_digit a \<and> m \<noteq> [] \<and> list_all is_digit m
           \<and> length b = 3 \<and> list_all is_digit b"
proof -
  from assms obtain s1 where e1: "expect CHR ''B'' s = Some s1"
    by (auto simp: match_room_code_def split: option.splits)
  from assms e1 obtain s2 where e2: "expect CHR ''.'' s1 = Some s2"
    by (auto simp: match_room_code_def split: option.splits)
  from assms e1 e2 obtain s3 where e3: "take_digits 2 s2 = Some s3"
    by (auto simp: match_room_code_def split: option.splits)
  from assms e1 e2 e3 obtain s4 where e4: "expect CHR ''.'' s3 = Some s4"
    by (auto simp: match_room_code_def split: option.splits)
  from assms e1 e2 e3 e4 have ne: "takeWhile is_digit s4 \<noteq> []"
    by (auto simp: match_room_code_def split: option.splits if_splits)
  from assms e1 e2 e3 e4 ne obtain s5 where e5: "expect CHR ''.'' (dropWhile is_digit s4) = Some s5"
    by (auto simp: match_room_code_def split: option.splits)
  from assms e1 e2 e3 e4 ne e5 have e6: "take_digits 3 s5 = Some r"
    by (auto simp: match_room_code_def split: option.splits)
  from take_digits_Some [OF e3] obtain a where a: "s2 = a @ s3" "length a = 2" "list_all is_digit a"
    by blast
  from take_digits_Some [OF e6] obtain b where b: "s5 = b @ r" "length b = 3" "list_all is_digit b"
    by blast
  let ?m = "takeWhile is_digit s4"
  have m: "s4 = ?m @ dropWhile is_digit s4" by simp
  have md: "list_all is_digit ?m" by (simp add: list_all_iff) (metis set_takeWhileD)
  have "s = CHR ''B'' # s1" using expect_Some [OF e1] .
  also have "s1 = CHR ''.'' # s2" using expect_Some [OF e2] .
  also have "s2 = a @ s3" by (rule a(1))
  also have "s3 = CHR ''.'' # s4" using expect_Some [OF e4] .
  also have "s4 = ?m @ dropWhile is_digit s4" by (rule m)
  also have "dropWhile is_digit s4 = CHR ''.'' # s5" using expect_Some [OF e5] .
  also have "s5 = b @ r" by (rule b(1))
  finally have "s = ''B.'' @ a @ ''.'' @ ?m @ ''.'' @ b @ r" by simp
  with a b ne md show ?thesis by blast
qed

lemma door_number_with_suffix_form:
  assumes "door_number_with_suffix n"
  shows "\<exists>a m b ds rest. n = ''B.'' @ a @ ''.'' @ m @ ''.'' @ b @ ''-'' @ ds @ rest
           \<and> length a = 2 \<and> list_all is_digit a \<and> m \<noteq> [] \<and> list_all is_digit m
           \<and> length b = 3 \<and> list_all is_digit b \<and> ds \<noteq> [] \<and> list_all is_digit ds"
proof -
  from assms obtain r where r: "match_room_code n = Some r"
    by (auto simp: door_number_with_suffix_def split: option.splits)
  from assms r obtain r' where r': "expect CHR ''-'' r = Some r'" and ne: "takeWhile is_digit r' \<noteq> []"
    by (auto simp: door_number_with_suffix_def split: option.splits)
  let ?ds = "takeWhile is_digit r'"
  have dd: "list_all is_digit ?ds" by (simp add: list_all_iff) (metis set_takeWhileD)
  have "r = CHR ''-'' # r'" using expect_Some [OF r'] .
  also have "r' = ?ds @ dropWhile is_digit r'" by simp
  finally have rr: "r = ''-'' @ ?ds @ dropWhile is_digit r'" by simp
  from match_room_code_Some [OF r] obtain a m b where
    "n = ''B.'' @ a @ ''.'' @ m @ ''.'' @ b @ r" "length a = 2" "list_all is_digit a"
    "m \<noteq> []" "list_all is_digit m" "length b = 3" "list_all is_digit b" by blast
  with rr ne dd show ?thesis by metis
qed

subsection \<open>C3: the final list of a page\<close>

text \<open>
  Claim C3. Let the candidates be the attributed records whose confidence reaches the
  minimum. Every record of the final list is a candidate, so none is below the minimum.
  No record of the final list has a door number that fails the pattern
  \<open>B\.\d{2}\.\d+\.\d{3}-\d+\<close> (matched at the start of the number): records whose number
  lacks the instance suffix are discarded. For every number of that form borne by some
  candidate, exactly one record of the final list bears it, and no candidate with that
  number is more confident. Provided the ids drawn for the records of the page are
  pairwise different, every candidate without door number is in the final list. Two
  records with the same number and confidences 0.6 and 0.8 leave exactly the second. A
  number of the required form begins with the room code \<open>B.dd.d+.ddd\<close>, a dash and at
  least one digit.
\<close>

theorem final_doors_filtered_and_deduplicated:
  "(let candidates = filter (\<lambda>d. DoorExtraction.confidence d \<ge> min_confidence)
                       (attributed_doors uuid labels geometries scale_context radius);
        final = extract_doors_from_page uuid labels geometries scale_context radius min_confidence
    in (\<forall>d \<in> set final. d \<in> set candidates \<and> DoorExtraction.confidence d \<ge> min_confidence)
     \<and> (\<forall>d \<in> set final. truthy_str (door_number d) \<longrightarrow> door_number_with_suffix (the (door_number d)))
     \<and> (\<forall>n. door_number_with_suffix n \<and> (\<exists>c \<in> set candidates. door_number c = Some n) \<longrightarrow>
           (\<exists>d. filter (\<lambda>x. door_number x = Some n) final = [d] \<and> d \<in> set candidates
                \<and> (\<forall>c \<in> set candidates. door_number c = Some n \<longrightarrow>
                      DoorExtraction.confidence c \<le> DoorExtraction.confidence d)))
     \<and> (distinct (map uuid [0..<length (fst (associate_labels_with_geometries uuid labels geometries radius))])
          \<longrightarrow> (\<forall>c \<in> set candidates. \<not> truthy_str (door_number c) \<longrightarrow> c \<in> set final)))
   \<and> dedup_doors [numbered_door ''door_0000000a'' ''B.00.1.001-1'' 0.6,
                  numbered_door ''door_0000000b'' ''B.00.1.001-1'' 0.8]
       = [numbered_door ''door_0000000b'' ''B.00.1.001-1'' 0.8]
   \<and> (door_number_with_suffix num \<longrightarrow>
        (\<exists>a m b ds rest. num = ''B.'' @ a @ ''.'' @ m @ ''.'' @ b @ ''-'' @ ds @ rest
           \<and> length a = 2 \<and> list_all is_digit a \<and> m \<noteq> [] \<and> list_all is_digit m
           \<and> length b = 3 \<and> list_all is_digit b \<and> ds \<noteq> [] \<and> list_all is_digit ds))"
proof (intro conjI)
  define att where "att = attributed_doors uuid labels geometries scale_context radius"
  define cands where "cands = filter (\<lambda>d. DoorExtraction.confidence d \<ge> min_confidence) att"
  define final where "final = dedup_doors cands"
  have fin: "extract_doors_from_page uuid labels geometries scale_context radius min_confidence = final"
    by (simp add: extract_doors_from_page_def final_def cands_def att_def)
  have h1a: "\<forall>d \<in> set att. \<not> door_number_with_suffix (extraction_id d)"
    unfolding att_def by (rule attributed_no_suffix)
  have h1: "\<forall>d \<in> set cands. \<not> door_number_with_suffix (extraction_id d)"
    using h1a by (simp add: cands_def)
  have conf: "\<And>d. d \<in> set cands \<Longrightarrow> DoorExtraction.confidence d \<ge> min_confidence"
    by (simp add: cands_def)
  have a: "\<forall>d \<in> set final. d \<in> set cands \<and> DoorExtraction.confidence d \<ge> min_confidence"
    using dedup_doors_sound(1) [OF h1] conf unfolding final_def by blast
  have b: "\<forall>d \<in> set final. truthy_str (door_number d) \<longrightarrow> door_number_with_suffix (the (door_number d))"
    using dedup_doors_sound(2) [OF h1] unfolding final_def by blast
  have c: "\<forall>n. door_number_with_suffix n \<and> (\<exists>c \<in> set cands. door_number c = Some n) \<longrightarrow>
           (\<exists>d. filter (\<lambda>x. door_number x = Some n) final = [d] \<and> d \<in> set cands
                \<and> (\<forall>c \<in> set cands. door_number c = Some n \<longrightarrow>
                      DoorExtraction.confidence c \<le> DoorExtraction.confidence d))"
    using dedup_doors_best [OF h1] unfolding final_def by blast
  have e: "distinct (map uuid [0..<length (fst (associate_labels_with_geometries uuid labels geometries radius))])
          \<longrightarrow> (\<forall>c \<in> set cands. \<not> truthy_str (door_number c) \<longrightarrow> c \<in> set final)"
  proof (intro impI ballI)
    fix c
    assume du: "distinct (map uuid [0..<length (fst (associate_labels_with_geometries uuid labels geometries radius))])"
      and cc: "c \<in> set cands" and un: "\<not> truthy_str (door_number c)"
    have "distinct (map extraction_id att)" unfolding att_def using du by (rule attributed_distinct)
    then have dc: "distinct (map extraction_id cands)" unfolding cands_def by (rule distinct_map_filter)
    from dedup_doors_keeps_unnumbered [OF h1 dc cc un] show "c \<in> set final" by (simp add: final_def)
  qed
  have "(\<forall>d \<in> set final. d \<in> set cands \<and> DoorExtraction.confidence d \<ge> min_confidence)
     \<and> (\<forall>d \<in> set final. truthy_str (door_number d) \<longrightarrow> door_number_with_suffix (the (door_number d)))
     \<and> (\<forall>n. door_number_with_suffix n \<and> (\<exists>c \<in> set cands. door_number c = Some n) \<longrightarrow>
           (\<exists>d. filter (\<lambda>x. door_number x = Some n) final = [d] \<and> d \<in> set cands
                \<and> (\<forall>c \<in> set cands. door_number c = Some n \<longrightarrow>
                      DoorExtraction.confidence c \<le> DoorExtraction.confidence d)))
     \<and> (distinct (map uuid [0..<length (fst (associate_labels_with_geometries uuid labels geometries radius))])
          \<longrightarrow> (\<forall>c \<in> set cands. \<not> truthy_str (door_number c) \<longrightarrow> c \<in> set final))"
    using a b c e by (intro conjI)
  then show "let candidates = filter (\<lambda>d. DoorExtraction.confidence d \<ge> min_confidence)
                       (attributed_doors uuid labels geometries scale_context radius);
        final = extract_doors_from_page uuid labels geometries scale_context radius min_confidence
    in (\<forall>d \<in> set final. d \<in> set candidates \<and> DoorExtraction.confidence d \<ge> min_confidence)
     \<and> (\<forall>d \<in> set final. truthy_str (door_number d) \<longrightarrow> door_number_with_suffix (the (door_number d)))
     \<and> (\<forall>n. door_number_with_suffix n \<and> (\<exists>c \<in> set candidates. door_number c = Some n) \<longrightarrow>
           (\<exists>d. filter (\<lambda>x. door_number x = Some n) final = [d] \<and> d \<in> set candidates
                \<and> (\<forall>c \<in> set candidates. door_number c = Some n \<longrightarrow>
                      DoorExtraction.confidence c \<le> DoorExtraction.confidence d)))
     \<and> (distinct (map uuid [0..<length (fst (associate_labels_with_geometries uuid labels geometries radius))])
          \<longrightarrow> (\<forall>c \<in> set candidates. \<not> truthy_str (door_number c) \<longrightarrow> c \<in> set final))"
    unfolding Let_def fin cands_def [symmetric] att_def [symmetric] .
next
  have suf: "door_number_with_suffix ''B.00.1.001-1''"
    by (simp add: door_number_with_suffix_def match_room_code_example is_digit_def)
  have dn: "\<And>e c. door_number (numbered_door e ''B.00.1.001-1'' c) = Some ''B.00.1.001-1''"
    "\<And>e c. DoorExtraction.confidence (numbered_door e ''B.00.1.001-1'' c) = c"
    by (simp_all add: numbered_door_def)
  show "dedup_doors [numbered_door ''door_0000000a'' ''B.00.1.001-1'' 0.6,
                  numbered_door ''door_0000000b'' ''B.00.1.001-1'' 0.8]
       = [numbered_door ''door_0000000b'' ''B.00.1.001-1'' 0.8]"
    by (simp add: dedup_doors_def dedup_step_def dn truthy_str_def suf Let_def)
next
  show "door_number_with_suffix num \<longrightarrow>
        (\<exists>a m b ds rest. num = ''B.'' @ a @ ''.'' @ m @ ''.'' @ b @ ''-'' @ ds @ rest
           \<and> length a = 2 \<and> list_all is_digit a \<and> m \<noteq> [] \<and> list_all is_digit m
           \<and> length b = 3 \<and> list_all is_digit b \<and> ds \<noteq> [] \<and> list_all is_digit ds)"
    using door_number_with_suffix_form [of num] by blast
qed

text \<open>
  The claim at two room-door labels with the same number and confidences 0.75 and 1, and
  one geometry out of reach (radius 1): three candidates of confidence 0.595, 0.6 and
  0.8, of which the final list keeps one for the number and the record without number.
\<close>

theorem final_doors_filtered_and_deduplicated_witness:
  "distinct (map sample_uuid [0..<3])
   \<and> door_number_with_suffix ''B.00.1.001-1''
   \<and> length (filter (\<lambda>x. door_number x = Some ''B.00.1.001-1'')
        (extract_doors_from_page sample_uuid
           [room_label, room_label\<lparr>DoorLabel.confidence := 1\<rparr>] [arc_geometry] None 1 0.5)) = 1
   \<and> extract_door_attributes (geometry_only_door ''door_00000000'' arc_geometry) None
       \<in> set (extract_doors_from_page sample_uuid
           [room_label, room_label\<lparr>DoorLabel.confidence := 1\<rparr>] [arc_geometry] None 1 0.5)"
proof -
  let ?labels = "[room_label, room_label\<lparr>DoorLabel.confidence := 1\<rparr>]"
  let ?final = "extract_doors_from_page sample_uuid ?labels [arc_geometry] None 1 0.5"
  let ?cands = "filter (\<lambda>d. DoorExtraction.confidence d \<ge> 0.5)
                  (attributed_doors sample_uuid ?labels [arc_geometry] None 1)"
  let ?g = "extract_door_attributes (geometry_only_door ''door_00000000'' arc_geometry) None"
  let ?l = "extract_door_attributes (label_only_door ''door_00000001'' room_label) None"
  have du: "distinct (map sample_uuid [0..<3])"
    unfolding sample_uuid_def by code_simp
  have suf: "door_number_with_suffix ''B.00.1.001-1''"
    by (simp add: door_number_with_suffix_def match_room_code_example is_digit_def)
  have cg: "DoorExtraction.confidence ?g \<ge> 0.5" "\<not> truthy_str (door_number ?g)"
    by (simp_all add: extract_door_attributes_keeps extract_door_attributes_door_number
        geometry_only_door_def arc_geometry_def truthy_str_def)
  have cl: "DoorExtraction.confidence ?l \<ge> 0.5" "door_number ?l = Some ''B.00.1.001-1''"
    by (simp_all add: extract_door_attributes_keeps extract_door_attributes_door_number
        label_only_door_def room_label_def)
  have gin: "?g \<in> set ?cands" using cg(1) by (simp add: attributed_doors_def associate_two_rooms)
  have lin: "?l \<in> set ?cands" using cl(1) by (simp add: attributed_doors_def associate_two_rooms)
  have len: "length (fst (associate_labels_with_geometries sample_uuid ?labels [arc_geometry] 1)) = 3"
    by (simp add: associate_two_rooms)
  note t = final_doors_filtered_and_deduplicated [of "0.5" sample_uuid ?labels "[arc_geometry]" None 1,
      unfolded Let_def len]
  from t suf lin cl(2)
  obtain d where "filter (\<lambda>x. door_number x = Some ''B.00.1.001-1'') ?final = [d]" by blast
  then have one: "length (filter (\<lambda>x. door_number x = Some ''B.00.1.001-1'') ?final) = 1" by simp
  from t du gin cg(2) have kept: "?g \<in> set ?final" by blast
  from du suf one kept show ?thesis by blast
qed

subsection \<open>C4: the fire-rating backfill\<close>

text \<open>
  Claim C4 as stated fails. With a room-door label without fire rating and a T30 label
  10 away, and no geometry, the call leaves the first object of the caller's list with
  fire rating T30: the original is changed in place. With a T90 label 90 away listed
  before the T30 label 10 away, the rating taken is T90, the first within 100 and not
  the nearest.
\<close>

theorem backfill_mutates_label_counterexample:
  "snd (associate_labels_with_geometries sample_uuid [room_label, near_t30_label] [] 150)
     = [room_label\<lparr>DoorLabel.fire_rating := Some ''T30''\<rparr>, near_t30_label]
   \<and> room_label\<lparr>DoorLabel.fire_rating := Some ''T30''\<rparr> \<noteq> room_label
   \<and> snd (associate_labels_with_geometries sample_uuid
             [room_label, far_t90_label, near_t30_label] [] 150)
     = [room_label\<lparr>DoorLabel.fire_rating := Some ''T90''\<rparr>, far_t90_label, near_t30_label]"
proof (intro conjI)
  have b1: "backfill room_label [room_label, near_t30_label]
              = room_label\<lparr>DoorLabel.fire_rating := Some ''T30''\<rparr>"
    by (simp add: backfill_def types d_room_near truthy_str_def)
  show "snd (associate_labels_with_geometries sample_uuid [room_label, near_t30_label] [] 150)
     = [room_label\<lparr>DoorLabel.fire_rating := Some ''T30''\<rparr>, near_t30_label]"
    by (simp add: associate_labels_with_geometries_def sort_by_confidence_def enumerate_labels_def
        upt_rec [of 0] types b1 Let_def numeral_2_eq_2)
  show "room_label\<lparr>DoorLabel.fire_rating := Some ''T30''\<rparr> \<noteq> room_label"
    by (simp add: room_label_def)
  have b2: "backfill room_label [room_label, far_t90_label, near_t30_label]
              = room_label\<lparr>DoorLabel.fire_rating := Some ''T90''\<rparr>"
    by (simp add: backfill_def types d_room_far truthy_str_def)
  show "snd (associate_labels_with_geometries sample_uuid
             [room_label, far_t90_label, near_t30_label] [] 150)
     = [room_label\<lparr>DoorLabel.fire_rating := Some ''T90''\<rparr>, far_t90_label, near_t30_label]"
    by (simp add: associate_labels_with_geometries_def sort_by_confidence_def enumerate_labels_def
        upt_rec [of 0] upt_rec [of 1] upt_rec [of 2] types b2 Let_def numeral_3_eq_3)
qed

lemma add_unmatched_labels_backfills:
  "add_unmatched_labels uuid ml [k..<n] (cur, doors) = (labels', doors') \<Longrightarrow>
   length cur = n \<Longrightarrow> k \<le> n \<Longrightarrow>
   length labels' = n
   \<and> (\<forall>i < k. labels' ! i = cur ! i)
   \<and> (\<forall>i. k \<le> i \<and> i < n \<longrightarrow>
         labels' ! i = (if i \<notin> ml \<and> door_identifier (cur ! i)
                        then backfill (cur ! i) (take i labels' @ drop i cur)
                        else cur ! i))
   \<and> (\<exists>L. doors' = doors @ L
          \<and> list_all2 (\<lambda>d i. \<exists>eid. d = label_only_door eid (labels' ! i)) L
                (filter (\<lambda>i. i \<notin> ml \<and> door_identifier (cur ! i)) [k..<n]))"
proof (induction "n - k" arbitrary: k cur doors)
  case 0
  from "0.hyps" "0.prems"(3) have kn: "k = n" by simp
  have e: "labels' = cur" "doors' = doors" using "0.prems"(1) kn by simp_all
  have g1: "length labels' = n" using e "0.prems"(2) by simp
  have g2: "\<forall>i < k. labels' ! i = cur ! i" using e by simp
  have g3: "\<forall>i. k \<le> i \<and> i < n \<longrightarrow>
         labels' ! i = (if i \<notin> ml \<and> door_identifier (cur ! i)
                        then backfill (cur ! i) (take i labels' @ drop i cur)
                        else cur ! i)"
  proof (intro allI impI)
    fix i assume "k \<le> i \<and> i < n"
    with kn have False by simp
    then show "labels' ! i = (if i \<notin> ml \<and> door_identifier (cur ! i)
                        then backfill (cur ! i) (take i labels' @ drop i cur)
                        else cur ! i)" ..
  qed
  have g4: "\<exists>L. doors' = doors @ L
          \<and> list_all2 (\<lambda>d i. \<exists>eid. d = label_only_door eid (labels' ! i)) L
                (filter (\<lambda>i. i \<notin> ml \<and> door_identifier (cur ! i)) [k..<n])"
    using e kn by simp
  show ?case by (rule conjI [OF g1 conjI [OF g2 conjI [OF g3 g4]]])
next
  case (Suc m)
  from Suc.hyps(2) have kn: "k < n" and m: "m = n - Suc k" by simp_all
  have up: "[k..<n] = k # [Suc k..<n]" using kn by (rule upt_conv_Cons)
  have lc: "length cur = n" by (rule Suc.prems(2))
  show ?case
  proof (cases "k \<notin> ml \<and> door_identifier (cur ! k)")
    case True
    let ?b = "backfill (cur ! k) cur"
    let ?cur = "cur[k := ?b]"
    let ?d = "label_only_door (new_id uuid doors) ?b"
    have step: "add_unmatched_labels uuid ml [Suc k..<n] (?cur, doors @ [?d]) = (labels', doors')"
      using Suc.prems(1) True unfolding up by (auto simp: Let_def door_identifier_def)
    have ih: "length labels' = n
       \<and> (\<forall>i < Suc k. labels' ! i = ?cur ! i)
       \<and> (\<forall>i. Suc k \<le> i \<and> i < n \<longrightarrow>
             labels' ! i = (if i \<notin> ml \<and> door_identifier (?cur ! i)
                            then backfill (?cur ! i) (take i labels' @ drop i ?cur)
                            else ?cur ! i))
       \<and> (\<exists>L. doors' = (doors @ [?d]) @ L
              \<and> list_all2 (\<lambda>d i. \<exists>eid. d = label_only_door eid (labels' ! i)) L
                    (filter (\<lambda>i. i \<notin> ml \<and> door_identifier (?cur ! i)) [Suc k..<n]))"
      by (rule Suc.hyps(1) [OF m step]) (use lc kn in simp_all)
    note len = ih [THEN conjunct1]
    note low = ih [THEN conjunct2, THEN conjunct1]
    note high = ih [THEN conjunct2, THEN conjunct2, THEN conjunct1]
    from ih [THEN conjunct2, THEN conjunct2, THEN conjunct2] obtain L where L: "doors' = (doors @ [?d]) @ L"
      "list_all2 (\<lambda>d i. \<exists>eid. d = label_only_door eid (labels' ! i)) L
                    (filter (\<lambda>i. i \<notin> ml \<and> door_identifier (?cur ! i)) [Suc k..<n])"
      by (elim exE conjE)
    have atk: "labels' ! k = ?b" using low lc kn by simp
    have below: "\<forall>i < k. labels' ! i = cur ! i" using low by simp
    have tk: "take k labels' = take k cur"
      by (rule nth_take_lemma) (use below len lc kn in simp_all)
    have g3: "\<forall>i. k \<le> i \<and> i < n \<longrightarrow>
         labels' ! i = (if i \<notin> ml \<and> door_identifier (cur ! i)
                        then backfill (cur ! i) (take i labels' @ drop i cur)
                        else cur ! i)"
    proof (intro allI impI)
      fix i assume i: "k \<le> i \<and> i < n"
      show "labels' ! i = (if i \<notin> ml \<and> door_identifier (cur ! i)
                        then backfill (cur ! i) (take i labels' @ drop i cur)
                        else cur ! i)"
      proof (cases "i = k")
        case True
        have "take k labels' @ drop k cur = cur" unfolding tk by simp
        with atk \<open>k \<notin> ml \<and> door_identifier (cur ! k)\<close> True show ?thesis by simp
      next
        case False
        with i have i2: "Suc k \<le> i \<and> i < n" by simp
        from False i have e: "?cur ! i = cur ! i" by simp
        from False i have dr: "drop i ?cur = drop i cur" by simp
        from high [rule_format, OF i2] show ?thesis unfolding e dr .
      qed
    qed
    have fl: "filter (\<lambda>i. i \<notin> ml \<and> door_identifier (cur ! i)) [k..<n]
                = k # filter (\<lambda>i. i \<notin> ml \<and> door_identifier (?cur ! i)) [Suc k..<n]"
    proof -
      have "filter (\<lambda>i. i \<notin> ml \<and> door_identifier (cur ! i)) [Suc k..<n]
              = filter (\<lambda>i. i \<notin> ml \<and> door_identifier (?cur ! i)) [Suc k..<n]"
        by (rule filter_cong) auto
      with True show ?thesis unfolding up by simp
    qed
    have "\<exists>eid. ?d = label_only_door eid (labels' ! k)" using atk by auto
    with L(2) have "list_all2 (\<lambda>d i. \<exists>eid. d = label_only_door eid (labels' ! i)) (?d # L)
                (filter (\<lambda>i. i \<notin> ml \<and> door_identifier (cur ! i)) [k..<n])"
      unfolding fl by simp
    moreover have "doors' = doors @ (?d # L)" using L(1) by simp
    ultimately have g4: "\<exists>L. doors' = doors @ L
          \<and> list_all2 (\<lambda>d i. \<exists>eid. d = label_only_door eid (labels' ! i)) L
                (filter (\<lambda>i. i \<notin> ml \<and> door_identifier (cur ! i)) [k..<n])"
      by (intro exI [of _ "?d # L"] conjI)
    show ?thesis by (rule conjI [OF len conjI [OF below conjI [OF g3 g4]]])
  next
    case False
    have step: "add_unmatched_labels uuid ml [Suc k..<n] (cur, doors) = (labels', doors')"
      using Suc.prems(1) False unfolding up
      by (auto simp: Let_def door_identifier_def split: if_splits)
    have ih: "length labels' = n
       \<and> (\<forall>i < Suc k. labels' ! i = cur ! i)
       \<and> (\<forall>i. Suc k \<le> i \<and> i < n \<longrightarrow>
             labels' ! i = (if i \<notin> ml \<and> door_identifier (cur ! i)
                            then backfill (cur ! i) (take i labels' @ drop i cur)
                            else cur ! i))
       \<and> (\<exists>L. doors' = doors @ L
              \<and> list_all2 (\<lambda>d i. \<exists>eid. d = label_only_door eid (labels' ! i)) L
                    (filter (\<lambda>i. i \<notin> ml \<and> door_identifier (cur ! i)) [Suc k..<n]))"
      by (rule Suc.hyps(1) [OF m step]) (use lc kn in simp_all)
    note len = ih [THEN conjunct1]
    note low = ih [THEN conjunct2, THEN conjunct1]
    note high = ih [THEN conjunct2, THEN conjunct2, THEN conjunct1]
    note g4' = ih [THEN conjunct2, THEN conjunct2, THEN conjunct2]
    have below: "\<forall>i < k. labels' ! i = cur ! i" using low by simp
    have g3: "\<forall>i. k \<le> i \<and> i < n \<longrightarrow>
         labels' ! i = (if i \<notin> ml \<and> door_identifier (cur ! i)
                        then backfill (cur ! i) (take i labels' @ drop i cur)
                        else cur ! i)"
    proof (intro allI impI)
      fix i assume i: "k \<le> i \<and> i < n"
      show "labels' ! i = (if i \<notin> ml \<and> door_identifier (cur ! i)
                        then backfill (cur ! i) (take i labels' @ drop i cur)
                        else cur ! i)"
      proof (cases "i = k")
        case True
        with low False show ?thesis by auto
      next
        case False
        with i have i2: "Suc k \<le> i \<and> i < n" by simp
        from high [rule_format, OF i2] show ?thesis .
      qed
    qed
    have "filter (\<lambda>i. i \<notin> ml \<and> door_identifier (cur ! i)) [k..<n]
            = filter (\<lambda>i. i \<notin> ml \<and> door_identifier (cur ! i)) [Suc k..<n]"
      using False unfolding up by simp
    with g4' have g4: "\<exists>L. doors' = doors @ L
          \<and> list_all2 (\<lambda>d i. \<exists>eid. d = label_only_door eid (labels' ! i)) L
                (filter (\<lambda>i. i \<notin> ml \<and> door_identifier (cur ! i)) [k..<n])" by simp
    show ?thesis by (rule conjI [OF len conjI [OF below conjI [OF g3 g4]]])
  qed
qed

lemma match_labels_paired:
  "match_labels uuid maxd gs ils (doors, mg, ml) = (doors', mg', ml') \<Longrightarrow>
   \<forall>i \<in> ml. \<exists>d \<in> set doors. extraction_method d = ''label_geometry_match''
                   \<and> label d = Some (labels ! i) \<Longrightarrow>
   \<forall>(i, l) \<in> set ils. l = labels ! i \<Longrightarrow>
   \<forall>i \<in> ml'. \<exists>d \<in> set doors'. extraction_method d = ''label_geometry_match''
                   \<and> label d = Some (labels ! i)"
proof (induction ils arbitrary: doors mg ml)
  case Nil
  then show ?case by simp
next
  case (Cons il ils)
  obtain i l where il: "il = (i, l)" by (cases il)
  have li: "l = labels ! i" using Cons.prems(3) il by simp
  have rest: "\<forall>(i, l) \<in> set ils. l = labels ! i" using Cons.prems(3) by simp
  show ?case
  proof (cases "find_nearest (label_center l) maxd mg gs None")
    case None
    then have "match_labels uuid maxd gs ils (doors, mg, ml) = (doors', mg', ml')"
      using Cons.prems(1) il by simp
    from Cons.IH [OF this Cons.prems(2) rest] show ?thesis .
  next
    case (Some gd)
    obtain g dist where gd: "gd = (g, dist)" by (cases gd)
    let ?d = "matched_door (new_id uuid doors) l g"
    have step: "match_labels uuid maxd gs ils
                  (doors @ [?d], insert (geometry_id g) mg, insert i ml) = (doors', mg', ml')"
      using Cons.prems(1) il Some gd by simp
    have inv: "\<forall>j \<in> insert i ml. \<exists>d \<in> set (doors @ [?d]).
                 extraction_method d = ''label_geometry_match'' \<and> label d = Some (labels ! j)"
    proof
      fix j assume j: "j \<in> insert i ml"
      show "\<exists>d \<in> set (doors @ [?d]).
                 extraction_method d = ''label_geometry_match'' \<and> label d = Some (labels ! j)"
      proof (cases "j \<in> ml")
        case True
        with Cons.prems(2) show ?thesis by auto
      next
        case False
        with j have "j = i" by simp
        moreover have "extraction_method ?d = ''label_geometry_match'' \<and> label ?d = Some l"
          by (simp add: matched_door_def)
        ultimately show ?thesis using li by auto
      qed
    qed
    from Cons.IH [OF step inv rest] show ?thesis .
  qed
qed

lemma enumerate_labels_nth: "\<forall>(i, l) \<in> set (enumerate_labels labels). l = labels ! i"
  by (auto simp: enumerate_labels_def in_set_zip)

lemma backfill_first:
  "backfill l others =
     (case filter (within_100 l) others of
        [] \<Rightarrow> l
      | other # rest \<Rightarrow>
          if truthy_str (DoorLabel.fire_rating other) \<and> \<not> truthy_str (DoorLabel.fire_rating l)
          then l\<lparr>DoorLabel.fire_rating := DoorLabel.fire_rating other\<rparr>
          else l)"
  by (simp add: backfill_def Let_def nearby_fire_rating_first truthy_str_def split: list.splits)

lemma label_only_door_method:
  "list_all2 (\<lambda>d i. \<exists>eid. d = label_only_door eid (f i)) L is \<Longrightarrow>
   \<forall>d \<in> set L. extraction_method d = ''label_only''"
  by (induction rule: list_all2_induct) (auto simp: label_only_door_def)

text \<open>
  Claim C4, amended. The backfill assigns to the original label object in place. The call
  visits the labels in input order. A label the first loop paired is left as it was, and
  its record carries it. A label nobody claimed that carries a door identifier is replaced,
  in the caller's list, by its backfilled state, computed against the list as it stands at
  that moment (the labels before it as the call leaves them, the others as they were),
  and these labels, in order, are the labels of the \<open>label_only\<close> records: the record
  carries the updated object, not a copy. Every other label is left as it was. The
  backfill takes the rating of the first label of type \<open>fire_rating\<close>, in list order,
  whose centre is less than 100 away, claimed or not, and assigns it only when it is not
  empty and the label has none; so a label differs from what it was at most in its fire
  rating, which changes only from empty to filled.
\<close>

theorem backfill_updates_label_in_place:
  "(let result = associate_labels_with_geometries uuid labels geometries radius;
        doors = fst result;
        labels' = snd result;
        paired = paired_label_indices uuid labels geometries radius;
        unclaimed = filter (\<lambda>i. i \<notin> paired \<and> door_identifier (labels ! i)) [0..<length labels]
    in length labels' = length labels
       \<and> (\<forall>i < length labels.
             labels' ! i = (if i \<notin> paired \<and> door_identifier (labels ! i)
                            then backfill (labels ! i) (take i labels' @ drop i labels)
                            else labels ! i))
       \<and> list_all2 (\<lambda>d i. \<exists>eid. d = label_only_door eid (labels' ! i))
             (records_of ''label_only'' doors) unclaimed
       \<and> (\<forall>i \<in> paired. \<exists>d \<in> set doors. extraction_method d = ''label_geometry_match''
                              \<and> label d = Some (labels ! i))
       \<and> (\<forall>i < length labels. backfilled_from (labels ! i) (labels' ! i)))
   \<and> backfill l others =
       (case filter (within_100 l) others of
          [] \<Rightarrow> l
        | other # rest \<Rightarrow>
            if truthy_str (DoorLabel.fire_rating other) \<and> \<not> truthy_str (DoorLabel.fire_rating l)
            then l\<lparr>DoorLabel.fire_rating := DoorLabel.fire_rating other\<rparr>
            else l)"
proof (intro conjI)
  let ?gs = "sort_by_confidence geometries"
  obtain d1 mg ml where p1: "match_labels uuid radius ?gs (enumerate_labels labels) ([], {}, {}) = (d1, mg, ml)"
    by (metis prod_cases3)
  let ?d2 = "add_unmatched_geometries uuid mg ?gs d1"
  obtain ls' d3 where p3: "add_unmatched_labels uuid ml [0..<length labels] (labels, ?d2) = (ls', d3)"
    by (metis surj_pair)
  have res: "associate_labels_with_geometries uuid labels geometries radius = (d3, ls')"
    by (simp add: associate_labels_with_geometries_def Let_def p1 p3)
  have pr: "paired_label_indices uuid labels geometries radius = ml"
    by (simp add: paired_label_indices_def p1)
  have m1: "\<forall>d \<in> set d1. extraction_method d \<noteq> ''label_only''"
    using match_labels_methods [OF p1] by simp
  have m2: "\<forall>d \<in> set ?d2. extraction_method d \<noteq> ''label_only''"
    using add_unmatched_geometries_methods [OF m1] .
  have fr: "length ls' = length labels \<and> (\<forall>i < length labels. backfilled_from (labels ! i) (ls' ! i))"
    by (rule add_unmatched_labels_frame [OF p3]) (simp_all add: backfilled_from_refl)
  have bf: "length ls' = length labels
     \<and> (\<forall>i < 0. ls' ! i = labels ! i)
     \<and> (\<forall>i. 0 \<le> i \<and> i < length labels \<longrightarrow>
         ls' ! i = (if i \<notin> ml \<and> door_identifier (labels ! i)
                        then backfill (labels ! i) (take i ls' @ drop i labels)
                        else labels ! i))
     \<and> (\<exists>L. d3 = ?d2 @ L
          \<and> list_all2 (\<lambda>d i. \<exists>eid. d = label_only_door eid (ls' ! i)) L
                (filter (\<lambda>i. i \<notin> ml \<and> door_identifier (labels ! i)) [0..<length labels]))"
    by (rule add_unmatched_labels_backfills [OF p3]) simp_all
  from bf have each: "\<forall>i < length labels.
         ls' ! i = (if i \<notin> ml \<and> door_identifier (labels ! i)
                        then backfill (labels ! i) (take i ls' @ drop i labels)
                        else labels ! i)" by simp
  from bf obtain L where L: "d3 = ?d2 @ L"
     "list_all2 (\<lambda>d i. \<exists>eid. d = label_only_door eid (ls' ! i)) L
                (filter (\<lambda>i. i \<notin> ml \<and> door_identifier (labels ! i)) [0..<length labels])"
    by blast
  have "\<forall>d \<in> set L. extraction_method d = ''label_only''"
    using L(2) by (rule label_only_door_method)
  then have "records_of ''label_only'' d3 = L"
    using m2 unfolding L(1) records_of_def by (simp add: filter_empty_conv)
  with L(2) have recs: "list_all2 (\<lambda>d i. \<exists>eid. d = label_only_door eid (ls' ! i))
             (records_of ''label_only'' d3)
             (filter (\<lambda>i. i \<notin> ml \<and> door_identifier (labels ! i)) [0..<length labels])"
    by simp
  have "\<forall>i \<in> ml. \<exists>d \<in> set d1. extraction_method d = ''label_geometry_match''
                   \<and> label d = Some (labels ! i)"
    by (rule match_labels_paired [OF p1]) (simp_all add: enumerate_labels_nth)
  moreover obtain G where "?d2 = d1 @ G"
    using add_unmatched_geometries_spec [of uuid mg ?gs d1] by blast
  ultimately have pairs: "\<forall>i \<in> ml. \<exists>d \<in> set d3. extraction_method d = ''label_geometry_match''
                   \<and> label d = Some (labels ! i)"
    unfolding L(1) by auto
  show "let result = associate_labels_with_geometries uuid labels geometries radius;
        doors = fst result;
        labels' = snd result;
        paired = paired_label_indices uuid labels geometries radius;
        unclaimed = filter (\<lambda>i. i \<notin> paired \<and> door_identifier (labels ! i)) [0..<length labels]
    in length labels' = length labels
       \<and> (\<forall>i < length labels.
             labels' ! i = (if i \<notin> paired \<and> door_identifier (labels ! i)
                            then backfill (labels ! i) (take i labels' @ drop i labels)
                            else labels ! i))
       \<and> list_all2 (\<lambda>d i. \<exists>eid. d = label_only_door eid (labels' ! i))
             (records_of ''label_only'' doors) unclaimed
       \<and> (\<forall>i \<in> paired. \<exists>d \<in> set doors. extraction_method d = ''label_geometry_match''
                              \<and> label d = Some (labels ! i))
       \<and> (\<forall>i < length labels. backfilled_from (labels ! i) (labels' ! i))"
    unfolding Let_def res pr fst_conv snd_conv
    using fr each recs pairs by blast
next
  show "backfill l others =
       (case filter (within_100 l) others of
          [] \<Rightarrow> l
        | other # rest \<Rightarrow>
            if truthy_str (DoorLabel.fire_rating other) \<and> \<not> truthy_str (DoorLabel.fire_rating l)
            then l\<lparr>DoorLabel.fire_rating := DoorLabel.fire_rating other\<rparr>
            else l)"
    by (rule backfill_first)
qed

text \<open>
  The amended claim at the first input of the counterexample: nothing is paired, the room
  label is backfilled from the T30 label 10 away, the first object of the caller's list
  leaves the call with fire rating T30, and the single \<open>label_only\<close> record carries it.
\<close>

theorem backfill_updates_label_in_place_witness:
  "paired_label_indices sample_uuid [room_label, near_t30_label] [] 150 = {}
   \<and> door_identifier room_label \<and> \<not> door_identifier near_t30_label
   \<and> filter (within_100 room_label) [room_label, near_t30_label] = [near_t30_label]
   \<and> length (snd (associate_labels_with_geometries sample_uuid [room_label, near_t30_label] [] 150)) = 2
   \<and> snd (associate_labels_with_geometries sample_uuid [room_label, near_t30_label] [] 150) ! 0
       = room_label\<lparr>DoorLabel.fire_rating := Some ''T30''\<rparr>
   \<and> snd (associate_labels_with_geometries sample_uuid [room_label, near_t30_label] [] 150) ! 1
       = near_t30_label
   \<and> map label (records_of ''label_only''
         (fst (associate_labels_with_geometries sample_uuid [room_label, near_t30_label] [] 150)))
       = [Some (room_label\<lparr>DoorLabel.fire_rating := Some ''T30''\<rparr>)]"
proof -
  let ?labels = "[room_label, near_t30_label]"
  let ?res = "associate_labels_with_geometries sample_uuid ?labels [] 150"
  let ?filled = "room_label\<lparr>DoorLabel.fire_rating := Some ''T30''\<rparr>"
  note t = backfill_updates_label_in_place [of sample_uuid ?labels "[]" 150 room_label ?labels,
      unfolded Let_def]
  have pr: "paired_label_indices sample_uuid ?labels [] 150 = {}"
    by (simp add: paired_label_indices_def sort_by_confidence_def enumerate_labels_def
        upt_rec [of 0] upt_rec [of 1] numeral_2_eq_2)
  have di: "door_identifier room_label" "\<not> door_identifier near_t30_label"
    by (simp_all add: door_identifier_def types)
  have w: "filter (within_100 room_label) ?labels = [near_t30_label]"
    by (simp add: within_100_def types d_room_near)
  from t have len: "length (snd ?res) = length ?labels" by blast
  from t have b: "backfill room_label ?labels =
       (case filter (within_100 room_label) ?labels of
          [] \<Rightarrow> room_label
        | other # rest \<Rightarrow>
            if truthy_str (DoorLabel.fire_rating other) \<and> \<not> truthy_str (DoorLabel.fire_rating room_label)
            then room_label\<lparr>DoorLabel.fire_rating := DoorLabel.fire_rating other\<rparr>
            else room_label)" by blast
  have bv: "backfill room_label ?labels = ?filled"
    unfolding b w by (simp add: types truthy_str_def)
  from t have each: "\<forall>i < length ?labels.
             snd ?res ! i = (if i \<notin> paired_label_indices sample_uuid ?labels [] 150
                                  \<and> door_identifier (?labels ! i)
                            then backfill (?labels ! i) (take i (snd ?res) @ drop i ?labels)
                            else ?labels ! i)" by blast
  from each [rule_format, of 0] have c0: "snd ?res ! 0 = ?filled"
    using di bv by (simp add: pr)
  from each [rule_format, of 1] have c1: "snd ?res ! 1 = near_t30_label"
    using di by (simp add: pr)
  from t have "list_all2 (\<lambda>d i. \<exists>eid. d = label_only_door eid (snd ?res ! i))
             (records_of ''label_only'' (fst ?res))
             (filter (\<lambda>i. i \<notin> paired_label_indices sample_uuid ?labels [] 150
                          \<and> door_identifier (?labels ! i)) [0..<length ?labels])" by blast
  moreover have "filter (\<lambda>i. i \<notin> paired_label_indices sample_uuid ?labels [] 150
                          \<and> door_identifier (?labels ! i)) [0..<length ?labels] = [0]"
    using di by (simp add: pr upt_rec [of 0] upt_rec [of 1] numeral_2_eq_2)
  ultimately have "list_all2 (\<lambda>d i. \<exists>eid. d = label_only_door eid (snd ?res ! i))
             (records_of ''label_only'' (fst ?res)) [0]" by simp
  then obtain d eid where "records_of ''label_only'' (fst ?res) = [d]"
      "d = label_only_door eid (snd ?res ! 0)"
    by (auto simp: list_all2_Cons2)
  then have c2: "map label (records_of ''label_only'' (fst ?res)) = [Some ?filled]"
    using c0 by (simp add: label_only_door_def)
  show ?thesis using pr di w len c0 c1 c2 by simp
qed

subsection \<open>C9: every record has a label or a geometry\<close>

text \<open>
  Claim C9. Every record the associator produces, and every record of the final list of a
  page, has one of the three extraction methods and the parts its method names: a
  \<open>label_geometry_match\<close> record has a label and a geometry, a \<open>geometry_only\<close> record
  a geometry, a \<open>label_only\<close> record a label. No record lacks both.
\<close>

theorem every_door_has_label_or_geometry:
  "(\<forall>d \<in> set (fst (associate_labels_with_geometries uuid labels geometries radius))
             \<union> set (extract_doors_from_page uuid labels geometries scale_context radius min_confidence).
      extraction_method d \<in> {''label_geometry_match'', ''geometry_only'', ''label_only''}
      \<and> (extraction_method d = ''label_geometry_match'' \<longrightarrow> label d \<noteq> None \<and> geometry d \<noteq> None)
      \<and> (extraction_method d = ''geometry_only'' \<longrightarrow> geometry d \<noteq> None)
      \<and> (extraction_method d = ''label_only'' \<longrightarrow> label d \<noteq> None)
      \<and> \<not> (label d = None \<and> geometry d = None))"
proof
  fix d
  assume "d \<in> set (fst (associate_labels_with_geometries uuid labels geometries radius))
             \<union> set (extract_doors_from_page uuid labels geometries scale_context radius min_confidence)"
  then have "well_formed d"
  proof
    assume "d \<in> set (fst (associate_labels_with_geometries uuid labels geometries radius))"
    then show ?thesis using associate_well_formed by blast
  next
    assume "d \<in> set (extract_doors_from_page uuid labels geometries scale_context radius min_confidence)"
    then have "d \<in> set (attributed_doors uuid labels geometries scale_context radius)"
      using dedup_doors_subset by (fastforce simp: extract_doors_from_page_def)
    then obtain e where "e \<in> set (fst (associate_labels_with_geometries uuid labels geometries radius))"
      and "d = extract_door_attributes e scale_context"
      by (auto simp: attributed_doors_def)
    then show ?thesis using associate_well_formed
      by (simp add: well_formed_extract_door_attributes)
  qed
  then show "extraction_method d \<in> {''label_geometry_match'', ''geometry_only'', ''label_only''}
      \<and> (extraction_method d = ''label_geometry_match'' \<longrightarrow> label d \<noteq> None \<and> geometry d \<noteq> None)
      \<and> (extraction_method d = ''geometry_only'' \<longrightarrow> geometry d \<noteq> None)
      \<and> (extraction_method d = ''label_only'' \<longrightarrow> label d \<noteq> None)
      \<and> \<not> (label d = None \<and> geometry d = None)"
    using well_formed_parts [of d] well_formed_method [of d] by blast
qed

text \<open>The claim at the paired record of the example.\<close>

theorem every_door_has_label_or_geometry_witness:
  "extraction_method (matched_door ''door_00000000'' wd_label arc_geometry) = ''label_geometry_match''
   \<and> label (matched_door ''door_00000000'' wd_label arc_geometry) \<noteq> None
   \<and> geometry (matched_door ''door_00000000'' wd_label arc_geometry) \<noteq> None"
proof -
  let ?d = "matched_door ''door_00000000'' wd_label arc_geometry"
  have mem: "?d \<in> set (fst (associate_labels_with_geometries sample_uuid [wd_label] [arc_geometry] 150))
             \<union> set (extract_doors_from_page sample_uuid [wd_label] [arc_geometry] None 150 0.5)"
    by (simp add: associate_example)
  have m: "extraction_method ?d = ''label_geometry_match''" by (simp add: matched_door_def)
  from every_door_has_label_or_geometry [of sample_uuid "[wd_label]" "[arc_geometry]" 150 None "0.5"] mem
  have "extraction_method ?d = ''label_geometry_match'' \<longrightarrow> label ?d \<noteq> None \<and> geometry ?d \<noteq> None"
    by blast
  with m show ?thesis by blast
qed

end
